theory Spec2Isabelle
  imports Complex_Main "HOL-Library.Word"
begin

section \<open>Exceptions\<close>

text \<open>
  Every exception the two source files can raise is a value of \<open>error\<close>; a function
  that may raise returns \<open>error + 'a\<close> with \<open>Inl\<close> for the exception.
  \<open>UnboundLocalError\<close> is what Python raises when a local variable is read before
  any assignment to it ran; \<open>TypeError\<close> is what \<^verbatim>\<open>raise NotImplemented\<close> raises,
  since the constant \<^verbatim>\<open>NotImplemented\<close> is not an exception.

  Modelled from the spec: \<open>ConfigurationError\<close> is the error class of section 7 of the
  specification. Neither source file defines it and no definition below returns it.
\<close>

datatype error =
    NotImplementedError
  | ValueError
  | ZeroDivisionError
  | UnboundLocalError
  | TypeError
  | KeyError
  | IndexError
  | ConfigurationError

section \<open>script\_util.py\<close>

subsection \<open>String helpers of the Python runtime\<close>

text \<open>
  \<^verbatim>\<open>s.split(sep)\<close> for a one-character separator: the pieces between the
  occurrences of the separator, always at least one piece.
\<close>

fun split_sep :: "char \<Rightarrow> string \<Rightarrow> string list" where
  "split_sep c [] = [[]]"
| "split_sep c (x # xs) =
     (if x = c then [] # split_sep c xs
      else (case split_sep c xs of
              [] \<Rightarrow> [[x]]
            | w # ws \<Rightarrow> (x # w) # ws))"

text \<open>
  The builtin \<^verbatim>\<open>int(s)\<close> on a string is a parameter \<open>py_int\<close> of the functions that
  call it: \<open>None\<close> where the builtin raises \<^verbatim>\<open>ValueError\<close>. The reader below agrees
  with the builtin on an optional sign followed by ASCII decimal digits and is used
  to run concrete configurations.
\<close>

definition digit_val :: "char \<Rightarrow> int option" where
  "digit_val c =
     (let code = (of_char c :: nat)
      in if 48 \<le> code \<and> code \<le> 57 then Some (int code - 48) else None)"

fun digits_val :: "int \<Rightarrow> string \<Rightarrow> int option" where
  "digits_val acc [] = Some acc"
| "digits_val acc (c # cs) =
     (case digit_val c of
        None \<Rightarrow> None
      | Some d \<Rightarrow> digits_val (10 * acc + d) cs)"

definition decimal_int :: "string \<Rightarrow> int option" where
  "decimal_int s =
     (case s of
        [] \<Rightarrow> None
      | c # cs \<Rightarrow>
          if c = CHR ''-'' then (if cs = [] then None else map_option uminus (digits_val 0 cs))
          else if c = CHR ''+'' then (if cs = [] then None else digits_val 0 cs)
          else digits_val 0 s)"

subsection \<open>Model construction\<close>

text \<open>
  \<^verbatim>\<open>cfg.img_model\<close> and \<^verbatim>\<open>cfg.param_model\<close> are attribute bags; one record holds
  every attribute that \<^verbatim>\<open>create_model\<close> or \<^verbatim>\<open>create_param_model\<close> reads.
\<close>

record model_cfg =
  deca_cond :: bool
  arch :: string
  in_channels :: int
  out_channels :: int
  model_channels :: int
  num_layers :: int
  use_checkpoint :: bool
  use_scale_shift_norm :: bool
  channel_mult :: string
  image_size :: int
  attention_resolutions :: string
  num_channels :: int
  num_res_blocks :: int
  dropout :: real
  class_cond :: bool
  num_heads :: int
  num_head_channels :: int
  num_heads_upsample :: int
  resblock_updown :: bool
  use_new_attention_order :: bool
  condition_dim :: int

text \<open>
  The network classes live in \<^verbatim>\<open>models/\<close>, outside the two source files. A value of
  \<open>model\<close> is the constructor call a function returns, with the keyword arguments in
  the order the source writes them:
  \<^item> \<open>DECADenseCond in_channels out_channels model_channels use_checkpoint use_scale_shift_norm\<close>
  \<^item> \<open>DenseDDPM in_channels model_channels num_layers use_checkpoint\<close>
  \<^item> \<open>AutoEncoderDPM in_channels out_channels model_channels num_layers use_checkpoint\<close>
  \<^item> \<open>UNetModel image_size in_channels model_channels out_channels num_res_blocks
     attention_resolutions dropout channel_mult num_classes use_checkpoint num_heads
     num_head_channels num_heads_upsample use_scale_shift_norm resblock_updown
     use_new_attention_order condition\<close>
  \<^item> \<open>UNetModelCondition\<close>: as \<open>UNetModel\<close>, with \<open>condition_dim\<close> before \<open>condition\<close>.
  The two \<^verbatim>\<open>print\<close> calls of \<^verbatim>\<open>create_param_model\<close> write the tag to standard output
  and do not touch the result.
\<close>

datatype model =
    DECADenseCond int int int bool bool
  | DenseDDPM int int int bool
  | AutoEncoderDPM int int int int bool
  | UNetModel int int int int int "int list" real "real list" "int option"
      bool int int int bool bool bool bool
  | UNetModelCondition int int int int int "int list" real "real list" "int option"
      bool int int int bool bool bool int bool

definition NUM_CLASSES :: int where
  "NUM_CLASSES = 1000"

definition create_param_model :: "model_cfg \<Rightarrow> error + model" where
  "create_param_model cfg =
     (if deca_cond cfg then
        Inr (DECADenseCond (in_channels cfg) (out_channels cfg) (model_channels cfg)
               (use_checkpoint cfg) (use_scale_shift_norm cfg))
      else if arch cfg = ''magenta'' then
        Inr (DenseDDPM (in_channels cfg) (model_channels cfg) (num_layers cfg)
               (use_checkpoint cfg))
      else if arch cfg = ''autoenc'' then
        Inr (AutoEncoderDPM (in_channels cfg) (out_channels cfg) (model_channels cfg)
               (num_layers cfg) (use_checkpoint cfg))
      else Inl NotImplementedError)"

text \<open>
  \<^verbatim>\<open>tuple(int(ch_mult) for ch_mult in cfg.channel_mult.split(","))\<close>: the first
  piece that \<^verbatim>\<open>int\<close> rejects raises \<^verbatim>\<open>ValueError\<close>.
\<close>

fun parse_channel_mult :: "(string \<Rightarrow> int option) \<Rightarrow> string list \<Rightarrow> error + real list" where
  "parse_channel_mult py_int [] = Inr []"
| "parse_channel_mult py_int (s # ss) =
     (case py_int s of
        None \<Rightarrow> Inl ValueError
      | Some n \<Rightarrow>
          (case parse_channel_mult py_int ss of
             Inl e \<Rightarrow> Inl e
           | Inr ns \<Rightarrow> Inr (real_of_int n # ns)))"

text \<open>
  The loop that fills \<^verbatim>\<open>attention_ds\<close>: \<^verbatim>\<open>cfg.image_size // int(res)\<close> for each
  piece, where \<^verbatim>\<open>int\<close> may raise \<^verbatim>\<open>ValueError\<close> and the floor division raises
  \<^verbatim>\<open>ZeroDivisionError\<close> on zero.
\<close>

fun attention_ds_loop ::
  "(string \<Rightarrow> int option) \<Rightarrow> int \<Rightarrow> string list \<Rightarrow> int list \<Rightarrow> error + int list" where
  "attention_ds_loop py_int sz [] attention_ds = Inr attention_ds"
| "attention_ds_loop py_int sz (res # rest) attention_ds =
     (case py_int res of
        None \<Rightarrow> Inl ValueError
      | Some r \<Rightarrow>
          if r = 0 then Inl ZeroDivisionError
          else attention_ds_loop py_int sz rest (attention_ds @ [sz div r]))"

definition resolve_channel_mult :: "(string \<Rightarrow> int option) \<Rightarrow> model_cfg \<Rightarrow> error + real list" where
  "resolve_channel_mult py_int cfg =
     (if channel_mult cfg = [] then
        (if image_size cfg = 512 then Inr [0.5, 1, 1, 2, 2, 4, 4]
         else if image_size cfg = 256 then Inr [1, 1, 2, 2, 4, 4]
         else if image_size cfg = 128 then Inr [1, 1, 2, 3, 4]
         else if image_size cfg = 64 then Inr [1, 2, 3, 4]
         else Inl ValueError)
      else parse_channel_mult py_int (split_sep CHR '','' (channel_mult cfg)))"

definition resolve_attention_ds :: "(string \<Rightarrow> int option) \<Rightarrow> model_cfg \<Rightarrow> error + int list" where
  "resolve_attention_ds py_int cfg =
     attention_ds_loop py_int (image_size cfg)
       (split_sep CHR '','' (attention_resolutions cfg)) []"

text \<open>
  \<^verbatim>\<open>create_model\<close>: the channel multipliers (lines 58 to 70), then the attention
  resolutions (lines 72 to 74), then the architecture tag (lines 76 to 117).
\<close>

definition create_model :: "(string \<Rightarrow> int option) \<Rightarrow> model_cfg \<Rightarrow> error + model" where
  "create_model py_int cfg =
     (case resolve_channel_mult py_int cfg of
        Inl e \<Rightarrow> Inl e
      | Inr cm \<Rightarrow>
          (case resolve_attention_ds py_int cfg of
             Inl e \<Rightarrow> Inl e
           | Inr attention_ds \<Rightarrow>
               if arch cfg = ''UNet'' then
                 Inr (UNetModel (image_size cfg) (in_channels cfg) (num_channels cfg)
                        (out_channels cfg) (num_res_blocks cfg) attention_ds (dropout cfg) cm
                        (if class_cond cfg then Some NUM_CLASSES else None)
                        (use_checkpoint cfg) (num_heads cfg) (num_head_channels cfg)
                        (num_heads_upsample cfg) (use_scale_shift_norm cfg)
                        (resblock_updown cfg) (use_new_attention_order cfg) False)
               else if arch cfg = ''UNetCond'' then
                 Inr (UNetModelCondition (image_size cfg) (in_channels cfg) (num_channels cfg)
                        (out_channels cfg) (num_res_blocks cfg) attention_ds (dropout cfg) cm
                        (if class_cond cfg then Some NUM_CLASSES else None)
                        (use_checkpoint cfg) (num_heads cfg) (num_head_channels cfg)
                        (num_heads_upsample cfg) (use_scale_shift_norm cfg)
                        (resblock_updown cfg) (use_new_attention_order cfg)
                        (condition_dim cfg) True)
               else Inl NotImplementedError))"

text \<open>A configuration of the image model, for running the definitions.\<close>

definition unet64_cfg :: model_cfg where
  "unet64_cfg =
     \<lparr>deca_cond = False, arch = ''UNet'', in_channels = 3, out_channels = 3,
      model_channels = 128, num_layers = 3, use_checkpoint = False,
      use_scale_shift_norm = True, channel_mult = [], image_size = 64,
      attention_resolutions = ''16,8'', num_channels = 128, num_res_blocks = 2,
      dropout = 0, class_cond = False, num_heads = 4, num_head_channels = - 1,
      num_heads_upsample = - 1, resblock_updown = False,
      use_new_attention_order = False, condition_dim = 159\<rparr>"

subsection \<open>Diffusion construction\<close>

text \<open>
  Modelled from the spec: \<^verbatim>\<open>gaussian_diffusion.py\<close> is not among the source files, so
  the three enumerations are declared here. \<open>LossType\<close> has the four members that
  section 3 of the specification lists; \<open>ModelMeanType\<close> and \<open>ModelVarType\<close> have the
  members that \<^verbatim>\<open>create_gaussian_diffusion\<close> names.
\<close>

datatype ModelMeanType = EPSILON | START_X

datatype ModelVarType = FIXED_LARGE | FIXED_SMALL | LEARNED_RANGE

datatype LossType = MSE | RESCALED_MSE | KL | RESCALED_KL

record diffusion_cfg =
  noise_schedule :: string
  diffusion_steps :: int
  use_kl :: bool
  rescale_learned_sigmas :: bool
  timestep_respacing :: string
  predict_xstart :: bool
  sigma_small :: bool
  learn_sigma :: bool
  rescale_timesteps :: bool

text \<open>
  The call \<^verbatim>\<open>SpacedDiffusion(use_timesteps=..., betas=..., model_mean_type=...,
  model_var_type=..., loss_type=..., rescale_timesteps=...)\<close> that
  \<^verbatim>\<open>create_gaussian_diffusion\<close> returns; the class lives in \<^verbatim>\<open>respace.py\<close>, outside
  the source files.
\<close>

datatype ('ts, 'b) diffusion =
  SpacedDiffusion (use_timesteps: 'ts) (betas: 'b) (model_mean_type: ModelMeanType)
    (model_var_type: ModelVarType) (loss_type: LossType) (rescale_arg: bool)

text \<open>
  \<^verbatim>\<open>gd.get_named_beta_schedule\<close> and \<^verbatim>\<open>space_timesteps\<close> are defined outside the source
  files; they are the parameters \<open>get_named_beta_schedule\<close> and \<open>space_timesteps\<close>,
  each free to raise.

  The local variable \<^verbatim>\<open>timestep_respacing\<close> is assigned only under
  \<^verbatim>\<open>if not cfg.timestep_respacing\<close> (an empty string is false in Python) and there is no
  other assignment: \<open>timestep_respacing_local\<close> is \<open>None\<close> while the variable is
  unbound. The first keyword argument of the call reads it, which raises
  \<^verbatim>\<open>UnboundLocalError\<close> before \<^verbatim>\<open>space_timesteps\<close> is entered.
\<close>

definition select_loss_type :: "diffusion_cfg \<Rightarrow> LossType" where
  "select_loss_type cfg =
     (if use_kl cfg then RESCALED_KL
      else if rescale_learned_sigmas cfg then RESCALED_MSE
      else MSE)"

definition timestep_respacing_local :: "diffusion_cfg \<Rightarrow> int list option" where
  "timestep_respacing_local cfg =
     (if timestep_respacing cfg = [] then Some [diffusion_steps cfg] else None)"

definition create_gaussian_diffusion ::
  "(string \<Rightarrow> int \<Rightarrow> error + 'b) \<Rightarrow> (int \<Rightarrow> int list \<Rightarrow> error + 'ts) \<Rightarrow> diffusion_cfg
     \<Rightarrow> error + ('ts, 'b) diffusion" where
  "create_gaussian_diffusion get_named_beta_schedule space_timesteps cfg =
     (case get_named_beta_schedule (noise_schedule cfg) (diffusion_steps cfg) of
        Inl e \<Rightarrow> Inl e
      | Inr bs \<Rightarrow>
          (case timestep_respacing_local cfg of
             None \<Rightarrow> Inl UnboundLocalError
           | Some section_counts \<Rightarrow>
               (case space_timesteps (diffusion_steps cfg) section_counts of
                  Inl e \<Rightarrow> Inl e
                | Inr ts \<Rightarrow>
                    Inr (SpacedDiffusion ts bs
                           (if \<not> predict_xstart cfg then EPSILON else START_X)
                           (if \<not> learn_sigma cfg
                            then (if \<not> sigma_small cfg then FIXED_LARGE else FIXED_SMALL)
                            else LEARNED_RANGE)
                           (select_loss_type cfg)
                           (rescale_timesteps cfg)))))"


text \<open>A configuration of the diffusion, for running the definitions.\<close>

definition linear1000_cfg :: diffusion_cfg where
  "linear1000_cfg =
     \<lparr>noise_schedule = ''linear'', diffusion_steps = 1000, use_kl = False,
      rescale_learned_sigmas = False, timestep_respacing = [], predict_xstart = False,
      sigma_small = False, learn_sigma = False, rescale_timesteps = False\<rparr>"

section \<open>dataloader/deca\_datasets.py\<close>

subsection \<open>Dictionaries and strings\<close>

text \<open>
  A Python \<^verbatim>\<open>dict\<close> is an association list in insertion order: \<open>dict_set\<close> overwrites
  the value of a key that is present, in place, and appends a new key at the end.
  \<open>dict_get\<close> is \<^verbatim>\<open>d[k]\<close> on a plain dict (\<^verbatim>\<open>KeyError\<close> on a missing key);
  \<open>dict_get_default\<close> is \<^verbatim>\<open>d[k]\<close> on a \<^verbatim>\<open>defaultdict(dict)\<close>, which yields a fresh empty
  dict for a missing key.
\<close>

type_synonym 'v dict = "(string \<times> 'v) list"

fun dict_set :: "string \<Rightarrow> 'v \<Rightarrow> 'v dict \<Rightarrow> 'v dict" where
  "dict_set k v [] = [(k, v)]"
| "dict_set k v (kv # d) = (if fst kv = k then (k, v) # d else kv # dict_set k v d)"

definition dict_get :: "'v dict \<Rightarrow> string \<Rightarrow> error + 'v" where
  "dict_get d k = (case map_of d k of None \<Rightarrow> Inl KeyError | Some v \<Rightarrow> Inr v)"

definition dict_get_default :: "('v dict) dict \<Rightarrow> string \<Rightarrow> 'v dict" where
  "dict_get_default d k = (case map_of d k of None \<Rightarrow> [] | Some v \<Rightarrow> v)"

text \<open>
  \<^verbatim>\<open>s.split(sep)[-1]\<close>: the piece after the last separator. \<open>split_sep\<close> never
  returns the empty list, so \<open>last\<close> is defined.
\<close>

definition last_piece :: "char \<Rightarrow> string \<Rightarrow> string" where
  "last_piece c s = last (split_sep c s)"

text \<open>\<^verbatim>\<open>s.replace(old, new)\<close>: every occurrence, left to right, without overlap.\<close>

function replace_all :: "string \<Rightarrow> string \<Rightarrow> string \<Rightarrow> string" where
  "replace_all old new s =
     (if s = [] \<or> old = [] then s
      else if take (length old) s = old
           then new @ replace_all old new (drop (length old) s)
           else hd s # replace_all old new (tl s))"
  by pat_completeness auto
termination
  by (relation "measure (\<lambda>(old, new, s). length s)") (auto simp: neq_Nil_conv)

declare replace_all.simps [simp del]

subsection \<open>Arrays\<close>

text \<open>
  A one-dimensional float array is a \<open>real list\<close>; a two-dimensional one of shape
  \<open>(N, P)\<close> is the list of its \<open>N\<close> rows, each of length \<open>P\<close>. The entries are reals, and
  \<open>normalize\<close> and \<open>denormalize\<close> below compute on them without rounding, so every
  statement about the two is one of exact arithmetic; the rounding of line 50 of
  \<^verbatim>\<open>normalize\<close> is modelled apart, in \<open>normalize_f64\<close>. Where numpy divides by zero
  it yields \<^verbatim>\<open>inf\<close> or \<^verbatim>\<open>nan\<close> without raising; HOL's division yields \<open>0\<close> there, and
  every theorem below that states the value of a quotient assumes a divisor other
  than zero. The empty list of rows keeps no column count, so numpy's shape check on
  an array of shape \<open>(0, P)\<close> is not modelled; the arrays that reach \<^verbatim>\<open>normalize\<close> in
  this program have at least one row.

  \<open>broadcast f xs ys\<close> is the elementwise operation of two one-dimensional arrays
  under numpy's broadcasting rule: equal lengths, or one of the two of length one;
  anything else raises \<^verbatim>\<open>ValueError\<close>. \<open>rows_with f arr v\<close> is the operation of a
  two-dimensional array with a one-dimensional one, which broadcasts \<open>v\<close> against
  every row.
\<close>

definition broadcast :: "('a \<Rightarrow> 'b \<Rightarrow> 'c) \<Rightarrow> 'a list \<Rightarrow> 'b list \<Rightarrow> error + 'c list" where
  "broadcast f xs ys =
     (if length xs = length ys then Inr (map2 f xs ys)
      else if length xs = 1 then Inr (map (f (hd xs)) ys)
      else if length ys = 1 then Inr (map (\<lambda>x. f x (hd ys)) xs)
      else Inl ValueError)"

fun rows_with ::
  "('a \<Rightarrow> 'b \<Rightarrow> 'c) \<Rightarrow> 'a list list \<Rightarrow> 'b list \<Rightarrow> error + 'c list list" where
  "rows_with f [] v = Inr []"
| "rows_with f (r # rs) v =
     (case broadcast f r v of
        Inl e \<Rightarrow> Inl e
      | Inr r' \<Rightarrow>
          (case rows_with f rs v of
             Inl e \<Rightarrow> Inl e
           | Inr rs' \<Rightarrow> Inr (r' # rs')))"

text \<open>
  \<^verbatim>\<open>np.max(arr, axis=0)\<close> and \<^verbatim>\<open>np.min(arr, axis=0)\<close>: the componentwise maximum and
  minimum of the rows; a reduction over no rows raises \<^verbatim>\<open>ValueError\<close>.
\<close>

definition np_max_axis0 :: "real list list \<Rightarrow> error + real list" where
  "np_max_axis0 arr =
     (case arr of [] \<Rightarrow> Inl ValueError | r # rs \<Rightarrow> Inr (foldl (map2 max) r rs))"

definition np_min_axis0 :: "real list list \<Rightarrow> error + real list" where
  "np_min_axis0 arr =
     (case arr of [] \<Rightarrow> Inl ValueError | r # rs \<Rightarrow> Inr (foldl (map2 min) r rs))"

text \<open>
  \<^verbatim>\<open>np.stack\<close> of one-dimensional arrays: \<^verbatim>\<open>ValueError\<close> on an empty list and on
  arrays of different lengths.
\<close>

definition np_stack :: "real list list \<Rightarrow> error + real list list" where
  "np_stack arrs =
     (case arrs of
        [] \<Rightarrow> Inl ValueError
      | r # rs \<Rightarrow>
          if list_all (\<lambda>x. length x = length r) rs then Inr arrs else Inl ValueError)"

subsection \<open>normalize and denormalize\<close>

text \<open>
  \<^verbatim>\<open>normalize(arr, min_val=None, max_val=None, a=-1, b=1)\<close>. The statistics are
  computed from \<open>arr\<close> only when both are \<^verbatim>\<open>None\<close>; with exactly one of them \<^verbatim>\<open>None\<close>
  the arithmetic on \<^verbatim>\<open>None\<close> raises \<^verbatim>\<open>TypeError\<close> (after \<^verbatim>\<open>arr - min_val\<close> was
  computed, when it is \<open>max_val\<close> that is missing).
\<close>

definition normalize ::
  "real list list \<Rightarrow> real list option \<Rightarrow> real list option \<Rightarrow> real \<Rightarrow> real
     \<Rightarrow> error + (real list list \<times> real list \<times> real list)" where
  "normalize arr min_val max_val a b =
     (case (case (min_val, max_val) of
              (None, None) \<Rightarrow>
                (case np_max_axis0 arr of
                   Inl e \<Rightarrow> Inl e
                 | Inr mx \<Rightarrow>
                     (case np_min_axis0 arr of
                        Inl e \<Rightarrow> Inl e
                      | Inr mn \<Rightarrow> Inr (mn, mx)))
            | (None, Some mx) \<Rightarrow> Inl TypeError
            | (Some mn, None) \<Rightarrow>
                (case rows_with (-) arr mn of Inl e \<Rightarrow> Inl e | Inr d \<Rightarrow> Inl TypeError)
            | (Some mn, Some mx) \<Rightarrow> Inr (mn, mx)) of
        Inl e \<Rightarrow> Inl e
      | Inr (mn, mx) \<Rightarrow>
          (case rows_with (-) arr mn of
             Inl e \<Rightarrow> Inl e
           | Inr d \<Rightarrow>
               (case broadcast (-) mx mn of
                  Inl e \<Rightarrow> Inl e
                | Inr delta \<Rightarrow>
                    (case rows_with (/) (map (map (\<lambda>x. (b - a) * x)) d) delta of
                       Inl e \<Rightarrow> Inl e
                     | Inr q \<Rightarrow> Inr (map (map (\<lambda>x. x + a)) q, mn, mx)))))"

definition denormalize ::
  "real list list \<Rightarrow> real list \<Rightarrow> real list \<Rightarrow> real \<Rightarrow> real \<Rightarrow> error + real list list" where
  "denormalize arr_norm min_val max_val a b =
     (case broadcast (-) max_val min_val of
        Inl e \<Rightarrow> Inl e
      | Inr delta \<Rightarrow>
          (case rows_with (*) (map (map (\<lambda>x. x - a)) arr_norm) delta of
             Inl e \<Rightarrow> Inl e
           | Inr m \<Rightarrow> rows_with (+) (map (map (\<lambda>x. x / (b - a))) m) min_val))"

subsection \<open>Line 50 of normalize in binary64\<close>

text \<open>
  numpy computes on \<^verbatim>\<open>float64\<close>: the result of every arithmetic operation is rounded to
  the nearest binary64 number, to the one with an even significand on a tie.
  \<open>normalize\<close> above leaves the rounding out; \<open>normalize_f64\<close> is the expression of
  line 50 with it. A binary64 value is a finite real, an infinity or a nan. The sign
  of a zero is not kept. It decides only the sign of a zero result and of a quotient
  by zero, and a quotient by zero is taken by the positive zero: the one divisor of
  line 50 is a difference, which is the positive zero when it is zero, unless its
  first operand is the negative zero, and the arrays given to \<open>normalize_f64\<close> hold
  finite reals, among which there is one zero.

  \<open>rne y\<close> is the integer nearest to \<open>y\<close>, the even one on a tie. \<open>fl64 x\<close> rounds the
  real \<open>x\<close> to binary64: the exponent is that of \<open>x\<close> and at least \<open>-1022\<close> (the
  subnormal numbers share the spacing \<open>2^-1074\<close>), the significand has 53 bits, and
  a rounded magnitude of \<open>2^1024\<close> or more is an overflow to the infinity of the sign.
\<close>

datatype f64 = Finite real | PosInf | NegInf | NaN

definition rne :: "real \<Rightarrow> int" where
  "rne y =
     (let f = \<lfloor>y\<rfloor>
      in if y - of_int f < 1 / 2 then f
         else if 1 / 2 < y - of_int f then f + 1
         else if even f then f else f + 1)"

definition fl64 :: "real \<Rightarrow> f64" where
  "fl64 x =
     (if x = 0 then Finite 0
      else let e = max \<lfloor>log 2 \<bar>x\<bar>\<rfloor> (- 1022);
               ulp = 2 powr of_int (e - 52);
               y = of_int (rne (x / ulp)) * ulp
           in if 2 ^ 1024 \<le> \<bar>y\<bar> then (if 0 < x then PosInf else NegInf) else Finite y)"

text \<open>
  The product, the quotient and the sum of two binary64 values: the rounded exact
  result on finite operands (an infinity for a nonzero number over zero, a nan for
  zero over zero), and the rules of IEEE 754 on infinities and nans.
\<close>

fun f64_mul :: "f64 \<Rightarrow> f64 \<Rightarrow> f64" where
  "f64_mul (Finite x) (Finite y) = fl64 (x * y)"
| "f64_mul NaN y = NaN"
| "f64_mul x NaN = NaN"
| "f64_mul (Finite x) PosInf = (if x = 0 then NaN else if 0 < x then PosInf else NegInf)"
| "f64_mul (Finite x) NegInf = (if x = 0 then NaN else if 0 < x then NegInf else PosInf)"
| "f64_mul PosInf (Finite y) = (if y = 0 then NaN else if 0 < y then PosInf else NegInf)"
| "f64_mul NegInf (Finite y) = (if y = 0 then NaN else if 0 < y then NegInf else PosInf)"
| "f64_mul PosInf PosInf = PosInf"
| "f64_mul PosInf NegInf = NegInf"
| "f64_mul NegInf PosInf = NegInf"
| "f64_mul NegInf NegInf = PosInf"

fun f64_div :: "f64 \<Rightarrow> f64 \<Rightarrow> f64" where
  "f64_div (Finite x) (Finite y) =
     (if y = 0 then (if x = 0 then NaN else if 0 < x then PosInf else NegInf)
      else fl64 (x / y))"
| "f64_div NaN y = NaN"
| "f64_div x NaN = NaN"
| "f64_div (Finite x) PosInf = Finite 0"
| "f64_div (Finite x) NegInf = Finite 0"
| "f64_div PosInf (Finite y) = (if 0 \<le> y then PosInf else NegInf)"
| "f64_div NegInf (Finite y) = (if 0 \<le> y then NegInf else PosInf)"
| "f64_div PosInf PosInf = NaN"
| "f64_div PosInf NegInf = NaN"
| "f64_div NegInf PosInf = NaN"
| "f64_div NegInf NegInf = NaN"

fun f64_add :: "f64 \<Rightarrow> f64 \<Rightarrow> f64" where
  "f64_add (Finite x) (Finite y) = fl64 (x + y)"
| "f64_add NaN y = NaN"
| "f64_add x NaN = NaN"
| "f64_add PosInf NegInf = NaN"
| "f64_add NegInf PosInf = NaN"
| "f64_add PosInf y = PosInf"
| "f64_add x PosInf = PosInf"
| "f64_add NegInf y = NegInf"
| "f64_add x NegInf = NegInf"

text \<open>
  Line 50, \<^verbatim>\<open>((b-a) * (arr - min_val) / (max_val - min_val)) + a\<close>, on arrays of finite
  binary64 numbers and with both statistics given: the two differences, the scalar
  \<open>b - a\<close>, its product with every entry, the quotient and the sum with \<open>a\<close> are
  each rounded. The broadcasting and its errors are those of \<open>normalize\<close>.
\<close>

definition normalize_f64 ::
  "real list list \<Rightarrow> real list \<Rightarrow> real list \<Rightarrow> real \<Rightarrow> real \<Rightarrow> error + f64 list list" where
  "normalize_f64 arr min_val max_val a b =
     (case rows_with (\<lambda>x y. fl64 (x - y)) arr min_val of
        Inl e \<Rightarrow> Inl e
      | Inr d \<Rightarrow>
          (case broadcast (\<lambda>x y. fl64 (x - y)) max_val min_val of
             Inl e \<Rightarrow> Inl e
           | Inr delta \<Rightarrow>
               (case rows_with f64_div (map (map (f64_mul (fl64 (b - a)))) d) delta of
                  Inl e \<Rightarrow> Inl e
                | Inr q \<Rightarrow> Inr (map (map (\<lambda>x. f64_add x (fl64 a))) q))))"

subsection \<open>load\_deca\_params\<close>

text \<open>
  A value stored under a key of a per-image dict is an array of parameters or, under
  \<^verbatim>\<open>'uv_detail_normals'\<close>, a path.
\<close>

datatype pval = Arr "real list" | Path string

type_synonym entry = "pval dict"

text \<open>
  \<^verbatim>\<open>swap_key\<close> turns \<open>{params_name: {img_name: values}}\<close> into the
  \<^verbatim>\<open>defaultdict(dict)\<close> \<open>{img_name: {params_name: array}}\<close>; the two nested loops run
  over the items in insertion order.
\<close>

fun swap_key_imgs :: "string \<Rightarrow> (real list) dict \<Rightarrow> entry dict \<Rightarrow> entry dict" where
  "swap_key_imgs params_name [] params_s = params_s"
| "swap_key_imgs params_name (iv # v) params_s =
     swap_key_imgs params_name v
       (dict_set (fst iv)
          (dict_set params_name (Arr (snd iv)) (dict_get_default params_s (fst iv)))
          params_s)"

fun swap_key_loop :: "((real list) dict) dict \<Rightarrow> entry dict \<Rightarrow> entry dict" where
  "swap_key_loop [] params_s = params_s"
| "swap_key_loop (pv # params) params_s =
     swap_key_loop params (swap_key_imgs (fst pv) (snd pv) params_s)"

definition swap_key :: "((real list) dict) dict \<Rightarrow> entry dict" where
  "swap_key params = swap_key_loop params []"

definition params_key :: "string list" where
  "params_key = [''shape'', ''pose'', ''exp'', ''cam'']"

text \<open>
  The file system is a parameter: \<open>glob\<close> maps a pattern to the paths that match it,
  and \<open>read_params\<close> maps a path to the table that \<^verbatim>\<open>read_params\<close> parses from it
  through pandas (image name to the list of numbers of its row). The first loop
  keeps, for each key, the table of the last matching file.
\<close>

fun read_params_loop ::
  "(string \<Rightarrow> string list) \<Rightarrow> (string \<Rightarrow> (real list) dict) \<Rightarrow> string \<Rightarrow> string list
     \<Rightarrow> ((real list) dict) dict \<Rightarrow> ((real list) dict) dict" where
  "read_params_loop glob read_params deca_dir [] d = d"
| "read_params_loop glob read_params deca_dir (k # ks) d =
     read_params_loop glob read_params deca_dir ks
       (foldl (\<lambda>acc path. dict_set k (read_params path) acc) d
          (glob (deca_dir @ ''/params/train/*'' @ k @ ''-anno.txt'')))"

text \<open>
  \<^verbatim>\<open>each_img\<close>: the values under the four keys, in order (\<^verbatim>\<open>KeyError\<close> on a missing
  key). \<^verbatim>\<open>np.concatenate\<close> joins one-dimensional arrays; it raises \<^verbatim>\<open>ValueError\<close> on
  an empty list and on a value that is not an array (a path, which no entry built
  by \<^verbatim>\<open>swap_key\<close> holds under these keys).
\<close>

fun each_img_loop :: "entry \<Rightarrow> string list \<Rightarrow> error + pval list" where
  "each_img_loop e [] = Inr []"
| "each_img_loop e (k # ks) =
     (case dict_get e k of
        Inl err \<Rightarrow> Inl err
      | Inr v \<Rightarrow>
          (case each_img_loop e ks of
             Inl err \<Rightarrow> Inl err
           | Inr vs \<Rightarrow> Inr (v # vs)))"

fun concat_arrays :: "pval list \<Rightarrow> error + real list" where
  "concat_arrays [] = Inr []"
| "concat_arrays (Arr v # vs) =
     (case concat_arrays vs of Inl err \<Rightarrow> Inl err | Inr w \<Rightarrow> Inr (v @ w))"
| "concat_arrays (Path p # vs) = Inl ValueError"

definition np_concatenate :: "pval list \<Rightarrow> error + real list" where
  "np_concatenate vs = (if vs = [] then Inl ValueError else concat_arrays vs)"

fun all_params_loop :: "entry dict \<Rightarrow> string list \<Rightarrow> error + real list list" where
  "all_params_loop d [] = Inr []"
| "all_params_loop d (img_name # names) =
     (case each_img_loop (dict_get_default d img_name) params_key of
        Inl err \<Rightarrow> Inl err
      | Inr each_img \<Rightarrow>
          (case np_concatenate each_img of
             Inl err \<Rightarrow> Inl err
           | Inr v \<Rightarrow>
               (case all_params_loop d names of
                  Inl err \<Rightarrow> Inl err
                | Inr vs \<Rightarrow> Inr (v # vs))))"

text \<open>
  The loop over the \<^verbatim>\<open>uv_detail_normals\<close> files: the image name is the piece of the
  path after the last \<^verbatim>\<open>/\<close> and then after the last \<^verbatim>\<open>_\<close>, with \<^verbatim>\<open>.png\<close> replaced
  by \<^verbatim>\<open>.jpg\<close>; the path is stored in that image's dict, which the
  \<^verbatim>\<open>defaultdict\<close> creates when it is missing.
\<close>

fun uv_detail_normals_loop :: "string list \<Rightarrow> entry dict \<Rightarrow> entry dict" where
  "uv_detail_normals_loop [] d = d"
| "uv_detail_normals_loop (path # paths) d =
     (let img_name = last_piece CHR ''_'' (last_piece CHR ''/'' path);
          img_name_ext = replace_all ''.png'' ''.jpg'' img_name
      in uv_detail_normals_loop paths
           (dict_set img_name_ext
              (dict_set ''uv_detail_normals'' (Path path) (dict_get_default d img_name_ext))
              d))"

definition load_deca_params ::
  "(string \<Rightarrow> string list) \<Rightarrow> (string \<Rightarrow> (real list) dict) \<Rightarrow> string \<Rightarrow> real
     \<Rightarrow> error + entry dict" where
  "load_deca_params glob read_params deca_dir bnd =
     (let swapped = swap_key (read_params_loop glob read_params deca_dir params_key [])
      in case all_params_loop swapped (map fst swapped) of
           Inl err \<Rightarrow> Inl err
         | Inr all_params \<Rightarrow>
             (case np_stack all_params of
                Inl err \<Rightarrow> Inl err
              | Inr stacked \<Rightarrow>
                  (case normalize stacked None None (- bnd) bnd of
                     Inl err \<Rightarrow> Inl err
                   | Inr (arr_norm, min_val, max_val) \<Rightarrow>
                       Inr (uv_detail_normals_loop
                              (glob (deca_dir @ ''/uv_detail_normals/train/*.png''))
                              (dict_set ''normalize''
                                 [(''min_val'', Arr min_val), (''max_val'', Arr max_val)]
                                 swapped)))))"

subsection \<open>DECADataset\<close>

text \<open>
  An image array has a shape and an element at every index below it. The arrays
  that the resizing helpers return are \<^verbatim>\<open>uint8\<close> arrays of shape \<open>(H, W, C)\<close>.
\<close>

record 'a ndarray3 =
  shape :: "nat \<times> nat \<times> nat"
  elem :: "nat \<Rightarrow> nat \<Rightarrow> nat \<Rightarrow> 'a"

text \<open>\<^verbatim>\<open>(arr / 127.5) - 1\<close> on a \<^verbatim>\<open>uint8\<close> array: true division, elementwise.\<close>

definition to_unit_range :: "8 word ndarray3 \<Rightarrow> real ndarray3" where
  "to_unit_range arr =
     \<lparr>shape = shape arr, elem = (\<lambda>i j k. real (unat (elem arr i j k)) / 127.5 - 1)\<rparr>"

text \<open>\<^verbatim>\<open>arr[:, ::-1]\<close>: the second axis reversed.\<close>

definition flip_axis1 :: "'a ndarray3 \<Rightarrow> 'a ndarray3" where
  "flip_axis1 arr =
     \<lparr>shape = shape arr,
      elem = (\<lambda>i j k. elem arr i (fst (snd (shape arr)) - 1 - j) k)\<rparr>"

text \<open>
  \<^verbatim>\<open>np.concatenate((x, y), axis=2)\<close>: the first two axes must agree, else
  \<^verbatim>\<open>ValueError\<close>.
\<close>

definition concatenate_axis2 :: "'a ndarray3 \<Rightarrow> 'a ndarray3 \<Rightarrow> error + 'a ndarray3" where
  "concatenate_axis2 x y =
     (case (shape x, shape y) of
        ((h, w, c), (h', w', c')) \<Rightarrow>
          if h = h' \<and> w = w' then
            Inr \<lparr>shape = (h, w, c + c'),
                 elem = (\<lambda>i j k. if k < c then elem x i j k else elem y i j (k - c))\<rparr>
          else Inl ValueError)"

text \<open>\<^verbatim>\<open>np.transpose(arr, [2, 0, 1])\<close>: from \<open>(H, W, C)\<close> to \<open>(C, H, W)\<close>.\<close>

definition transpose_201 :: "'a ndarray3 \<Rightarrow> 'a ndarray3" where
  "transpose_201 arr =
     (case shape arr of
        (h, w, c) \<Rightarrow> \<lparr>shape = (c, h, w), elem = (\<lambda>k i j. elem arr i j k)\<rparr>)"

text \<open>\<^verbatim>\<open>xs[i]\<close> on a Python list: a negative index counts from the end.\<close>

definition list_index :: "'a list \<Rightarrow> int \<Rightarrow> error + 'a" where
  "list_index xs i =
     (if 0 \<le> i \<and> i < int (length xs) then Inr (xs ! nat i)
      else if - int (length xs) \<le> i \<and> i < 0 then Inr (xs ! nat (i + int (length xs)))
      else Inl IndexError)"

record dataset =
  deca_params :: "entry dict"
  local_images :: "string list"
  bound :: real
  in_image :: string
  resolution :: int
  resize_mode :: string
  augment_mode :: "string option"
  use_detector :: bool

text \<open>
  What the dataset calls outside the source files: \<open>open_rgb\<close> opens a path and
  converts the image to RGB (lines 193 to 196 and 211 to 214; it may raise), the
  three helpers of \<^verbatim>\<open>img_util\<close> turn an image into an array, and \<open>random_random\<close> is
  \<^verbatim>\<open>random.random()\<close>. The state of the random generator is threaded through the
  calls that draw from it.
\<close>

record ('img, 'r) runtime =
  open_rgb :: "string \<Rightarrow> error + 'img"
  random_crop_arr :: "'img \<Rightarrow> int \<Rightarrow> 'r \<Rightarrow> 8 word ndarray3 \<times> 'r"
  center_crop_arr :: "'img \<Rightarrow> int \<Rightarrow> 8 word ndarray3"
  resize_arr :: "'img \<Rightarrow> int \<Rightarrow> 8 word ndarray3"
  random_random :: "'r \<Rightarrow> real \<times> 'r"

text \<open>
  \<^verbatim>\<open>augmentation\<close>. Both \<^verbatim>\<open>else\<close> branches execute \<^verbatim>\<open>raise NotImplemented\<close>, which
  raises \<^verbatim>\<open>TypeError\<close>. The first condition of the second chain is
  \<^verbatim>\<open>self.augment_mode == 'random_flip' and random.random() < 0.5\<close>: the generator is
  read only when the mode is \<^verbatim>\<open>'random_flip'\<close>, and when the conjunction is false the
  chain goes on to the next \<^verbatim>\<open>elif\<close>.
\<close>

definition augmentation ::
  "('img, 'r) runtime \<Rightarrow> dataset \<Rightarrow> 'img \<Rightarrow> 'r \<Rightarrow> error + (8 word ndarray3 \<times> 'r)" where
  "augmentation rt self pil_image rng =
     (case (if resize_mode self = ''random_crop''
            then Inr (random_crop_arr rt pil_image (resolution self) rng)
            else if resize_mode self = ''center_crop''
            then Inr (center_crop_arr rt pil_image (resolution self), rng)
            else if resize_mode self = ''resize''
            then Inr (resize_arr rt pil_image (resolution self), rng)
            else Inl TypeError) of
        Inl err \<Rightarrow> Inl err
      | Inr (arr, rng1) \<Rightarrow>
          (case (if augment_mode self = Some ''random_flip''
                 then (fst (random_random rt rng1) < 0.5, snd (random_random rt rng1))
                 else (False, rng1)) of
             (coin, rng2) \<Rightarrow>
               if coin then Inr (flip_axis1 arr, rng2)
               else if augment_mode self = Some ''flip'' then Inr (flip_axis1 arr, rng2)
               else if augment_mode self = None then Inr (arr, rng2)
               else Inl TypeError))"

text \<open>
  The statistics and the path are read out of the dict, whose values are arrays or
  paths. \<^verbatim>\<open>normalize\<close> called with a path (a string, which \<^verbatim>\<open>load_deca_params\<close>
  never stores under these keys) for \<open>min_val\<close> or \<open>max_val\<close> does not recompute the
  statistics, since a string is not \<^verbatim>\<open>None\<close>; the subtraction that meets the
  string raises \<^verbatim>\<open>TypeError\<close>. Opening a file whose path is an array raises
  \<^verbatim>\<open>TypeError\<close> as well.
\<close>

definition normalize_stored ::
  "real list list \<Rightarrow> pval \<Rightarrow> pval \<Rightarrow> real \<Rightarrow> real
     \<Rightarrow> error + (real list list \<times> real list \<times> real list)" where
  "normalize_stored arr vmin vmax a b =
     (case vmin of
        Path p \<Rightarrow> Inl TypeError
      | Arr min_val \<Rightarrow>
          (case vmax of
             Arr max_val \<Rightarrow> normalize arr (Some min_val) (Some max_val) a b
           | Path p \<Rightarrow>
               (case rows_with (-) arr min_val of
                  Inl err \<Rightarrow> Inl err
                | Inr d \<Rightarrow> Inl TypeError)))"

definition get_path :: "entry \<Rightarrow> string \<Rightarrow> error + string" where
  "get_path e k =
     (case dict_get e k of
        Inl err \<Rightarrow> Inl err
      | Inr (Path p) \<Rightarrow> Inr p
      | Inr (Arr v) \<Rightarrow> Inl TypeError)"

text \<open>
  The list comprehension of line 204 looks \<^verbatim>\<open>self.deca_params[img_name]\<close> up once
  per key. A missing image name raises \<^verbatim>\<open>KeyError\<close>: from the lookup itself on a plain
  dict, and on a \<^verbatim>\<open>defaultdict(dict)\<close> from the lookup of the first key in the empty
  dict that it creates (which changes the result of no later lookup).
\<close>

fun item_params_loop :: "entry dict \<Rightarrow> string \<Rightarrow> string list \<Rightarrow> error + pval list" where
  "item_params_loop d img_name [] = Inr []"
| "item_params_loop d img_name (k # ks) =
     (case dict_get d img_name of
        Inl err \<Rightarrow> Inl err
      | Inr e \<Rightarrow>
          (case dict_get e k of
             Inl err \<Rightarrow> Inl err
           | Inr v \<Rightarrow>
               (case item_params_loop d img_name ks of
                  Inl err \<Rightarrow> Inl err
                | Inr vs \<Rightarrow> Inr (v # vs))))"

text \<open>
  Lines 200 to 208: the conditioning vector. \<^verbatim>\<open>[None, :]\<close> makes the concatenated
  vector the single row of a two-dimensional array, and \<^verbatim>\<open>params_norm[0]\<close> takes the
  first row of the result.
\<close>

definition item_deca_params :: "dataset \<Rightarrow> string \<Rightarrow> error + real list" where
  "item_deca_params self img_name =
     (case item_params_loop (deca_params self) img_name params_key of
        Inl err \<Rightarrow> Inl err
      | Inr vs \<Rightarrow>
          (case np_concatenate vs of
             Inl err \<Rightarrow> Inl err
           | Inr params \<Rightarrow>
               (case dict_get (deca_params self) ''normalize'' of
                  Inl err \<Rightarrow> Inl err
                | Inr stats \<Rightarrow>
                    (case dict_get stats ''min_val'' of
                       Inl err \<Rightarrow> Inl err
                     | Inr vmin \<Rightarrow>
                         (case dict_get stats ''max_val'' of
                            Inl err \<Rightarrow> Inl err
                          | Inr vmax \<Rightarrow>
                              (case normalize_stored [params] vmin vmax
                                      (- bound self) (bound self) of
                                 Inl err \<Rightarrow> Inl err
                               | Inr (params_norm, mn, mx) \<Rightarrow>
                                   list_index params_norm 0))))))"

text \<open>
  Lines 191 to 217 of \<^verbatim>\<open>__getitem__\<close>: everything before the branch on
  \<^verbatim>\<open>self.in_image\<close>. The result is \<open>(raw_img, out_dict["deca_params"], uvdn)\<close> and the
  state of the random generator.
\<close>

definition getitem_loaded ::
  "('img, 'r) runtime \<Rightarrow> dataset \<Rightarrow> int \<Rightarrow> 'r
     \<Rightarrow> error + ((real ndarray3 \<times> real list \<times> real ndarray3) \<times> 'r)" where
  "getitem_loaded rt self idx rng =
     (case list_index (local_images self) idx of
        Inl err \<Rightarrow> Inl err
      | Inr path \<Rightarrow>
     (case open_rgb rt path of
        Inl err \<Rightarrow> Inl err
      | Inr pil_image \<Rightarrow>
     (case augmentation rt self pil_image rng of
        Inl err \<Rightarrow> Inl err
      | Inr (raw_arr, rng1) \<Rightarrow>
     (case item_deca_params self (last_piece CHR ''/'' path) of
        Inl err \<Rightarrow> Inl err
      | Inr out_params \<Rightarrow>
     (case dict_get (deca_params self) (last_piece CHR ''/'' path) of
        Inl err \<Rightarrow> Inl err
      | Inr e \<Rightarrow>
     (case get_path e ''uv_detail_normals'' of
        Inl err \<Rightarrow> Inl err
      | Inr uvdn_path \<Rightarrow>
     (case open_rgb rt uvdn_path of
        Inl err \<Rightarrow> Inl err
      | Inr uvdn_image \<Rightarrow>
     (case augmentation rt self uvdn_image rng1 of
        Inl err \<Rightarrow> Inl err
      | Inr (uvdn_arr, rng2) \<Rightarrow>
          Inr ((to_unit_range raw_arr, out_params, to_unit_range uvdn_arr), rng2)))))))))"

text \<open>
  \<^verbatim>\<open>__getitem__\<close>: the branch on \<^verbatim>\<open>self.in_image\<close> (lines 219 to 224) and the
  returned pair of the conditioning vector and the transposed image.
\<close>

definition getitem ::
  "('img, 'r) runtime \<Rightarrow> dataset \<Rightarrow> int \<Rightarrow> 'r
     \<Rightarrow> error + ((real list \<times> real ndarray3) \<times> 'r)" where
  "getitem rt self idx rng =
     (case getitem_loaded rt self idx rng of
        Inl err \<Rightarrow> Inl err
      | Inr ((raw_img, out_params, uvdn), rng2) \<Rightarrow>
          (case (if in_image self = ''raw'' then Inr raw_img
                 else if in_image self = ''raw+uvdn'' then concatenate_axis2 raw_img uvdn
                 else Inl NotImplementedError) of
             Inl err \<Rightarrow> Inl err
           | Inr arr \<Rightarrow> Inr ((out_params, transpose_201 arr), rng2)))"

subsection \<open>A small dataset for running the definitions\<close>

text \<open>
  A runtime whose images are their paths: every helper returns the same \<open>2 x 2\<close>
  RGB array, the random crop advances the generator, and \<^verbatim>\<open>random.random()\<close>
  returns \<open>1/4\<close> on an even state and \<open>3/4\<close> on an odd one.
\<close>

definition example_array :: "8 word ndarray3" where
  "example_array = \<lparr>shape = (2, 2, 3), elem = (\<lambda>i j k. word_of_nat (100 * i + 50 * j + k))\<rparr>"

definition example_runtime :: "(string, nat) runtime" where
  "example_runtime =
     \<lparr>open_rgb = (\<lambda>path. Inr path),
      random_crop_arr = (\<lambda>img res rng. (example_array, Suc rng)),
      center_crop_arr = (\<lambda>img res. example_array),
      resize_arr = (\<lambda>img res. example_array),
      random_random = (\<lambda>rng. (if even rng then 1 / 4 else 3 / 4, Suc rng))\<rparr>"

text \<open>
  A parameter directory with one annotation file per key, two images and their
  two \<^verbatim>\<open>uv_detail_normals\<close> files; \<open>example_deca_params\<close> is what
  \<^verbatim>\<open>load_deca_params\<close> returns for it, and the dataset is built on that.
\<close>

definition example_glob :: "string \<Rightarrow> string list" where
  "example_glob pattern =
     (if pattern = ''deca/params/train/*shape-anno.txt'' then [''deca/params/train/ffhq-shape-anno.txt'']
      else if pattern = ''deca/params/train/*pose-anno.txt'' then [''deca/params/train/ffhq-pose-anno.txt'']
      else if pattern = ''deca/params/train/*exp-anno.txt'' then [''deca/params/train/ffhq-exp-anno.txt'']
      else if pattern = ''deca/params/train/*cam-anno.txt'' then [''deca/params/train/ffhq-cam-anno.txt'']
      else if pattern = ''deca/uv_detail_normals/train/*.png''
      then [''deca/uv_detail_normals/train/uvdn_0.png'', ''deca/uv_detail_normals/train/uvdn_1.png'']
      else [])"

definition example_read_params :: "string \<Rightarrow> (real list) dict" where
  "example_read_params path =
     (if path = ''deca/params/train/ffhq-shape-anno.txt'' then [(''0.jpg'', [0, 2]), (''1.jpg'', [4, 1])]
      else if path = ''deca/params/train/ffhq-pose-anno.txt'' then [(''0.jpg'', [0]), (''1.jpg'', [1])]
      else if path = ''deca/params/train/ffhq-exp-anno.txt'' then [(''0.jpg'', [3]), (''1.jpg'', [5])]
      else if path = ''deca/params/train/ffhq-cam-anno.txt'' then [(''0.jpg'', [7]), (''1.jpg'', [6])]
      else [])"

definition example_deca_params :: "entry dict" where
  "example_deca_params =
     [(''0.jpg'', [(''shape'', Arr [0, 2]), (''pose'', Arr [0]), (''exp'', Arr [3]),
                   (''cam'', Arr [7]),
                   (''uv_detail_normals'', Path ''deca/uv_detail_normals/train/uvdn_0.png'')]),
      (''1.jpg'', [(''shape'', Arr [4, 1]), (''pose'', Arr [1]), (''exp'', Arr [5]),
                   (''cam'', Arr [6]),
                   (''uv_detail_normals'', Path ''deca/uv_detail_normals/train/uvdn_1.png'')]),
      (''normalize'', [(''min_val'', Arr [0, 1, 0, 3, 6]),
                       (''max_val'', Arr [4, 2, 1, 5, 7])])]"

definition example_dataset :: dataset where
  "example_dataset =
     \<lparr>deca_params = example_deca_params,
      local_images = [''data/0.jpg'', ''data/1.jpg''], bound = 1, in_image = ''raw+uvdn'',
      resolution = 2, resize_mode = ''resize'', augment_mode = None, use_detector = False\<rparr>"

text \<open>
  \<open>tenth\<close> is the binary64 number nearest to \<open>0.1\<close>, which is what the entry
  \<^verbatim>\<open>0.1\<close> of a parameter file is read as; \<open>tenth_read_params\<close> is a parameter
  directory of two images with one number per key, where it is the shape of the
  second image.
\<close>

definition tenth :: real where
  "tenth = 3602879701896397 / 2 ^ 55"

definition tenth_read_params :: "string \<Rightarrow> (real list) dict" where
  "tenth_read_params path =
     (if path = ''deca/params/train/ffhq-shape-anno.txt'' then [(''0.jpg'', [0]), (''1.jpg'', [tenth])]
      else if path = ''deca/params/train/ffhq-pose-anno.txt'' then [(''0.jpg'', [0]), (''1.jpg'', [1])]
      else if path = ''deca/params/train/ffhq-exp-anno.txt'' then [(''0.jpg'', [0]), (''1.jpg'', [1])]
      else if path = ''deca/params/train/ffhq-cam-anno.txt'' then [(''0.jpg'', [0]), (''1.jpg'', [1])]
      else [])"

section \<open>Properties of script\_util.py\<close>

subsection \<open>Which errors the parsing steps of create\_model raise\<close>

lemma parse_channel_mult_error:
  "parse_channel_mult py_int ss = Inl e \<Longrightarrow> e = ValueError"
  by (induction ss arbitrary: e) (auto split: option.splits sum.splits)

lemma attention_ds_loop_error:
  "attention_ds_loop py_int sz ss acc = Inl e \<Longrightarrow> e = ValueError \<or> e = ZeroDivisionError"
  by (induction ss arbitrary: acc) (auto split: option.splits if_splits)

lemma resolve_channel_mult_error:
  "resolve_channel_mult py_int cfg = Inl e \<Longrightarrow> e = ValueError"
  by (auto simp: resolve_channel_mult_def split: if_splits dest: parse_channel_mult_error)

lemma resolve_attention_ds_error:
  "resolve_attention_ds py_int cfg = Inl e \<Longrightarrow> e = ValueError \<or> e = ZeroDivisionError"
  unfolding resolve_attention_ds_def by (rule attention_ds_loop_error)

subsection \<open>create\_gaussian\_diffusion\<close>

text \<open>
  Claim C1 says that a configuration with a non-empty \<^verbatim>\<open>timestep_respacing\<close> token
  yields a \<^verbatim>\<open>SpacedDiffusion\<close> built for that token. The code does the opposite: with
  a non-empty token the local variable \<^verbatim>\<open>timestep_respacing\<close> is never assigned, so
  the function never returns a diffusion, whatever the two collaborators do; once
  the beta schedule has been built it raises \<^verbatim>\<open>UnboundLocalError\<close>.
\<close>

theorem create_gaussian_diffusion_nonempty_respacing:
  assumes "timestep_respacing cfg \<noteq> []"
  shows "(\<forall>d. create_gaussian_diffusion gnbs st cfg \<noteq> Inr d) \<and>
         (\<forall>bs. gnbs (noise_schedule cfg) (diffusion_steps cfg) = Inr bs \<longrightarrow>
                create_gaussian_diffusion gnbs st cfg = Inl UnboundLocalError)"
  using assms
  by (auto simp: create_gaussian_diffusion_def timestep_respacing_local_def
           split: sum.splits)

theorem create_gaussian_diffusion_nonempty_respacing_witness:
  "create_gaussian_diffusion (\<lambda>name n. Inr [n]) (\<lambda>n section_counts. Inr section_counts)
     (linear1000_cfg\<lparr>timestep_respacing := ''250''\<rparr>)
   = (Inl UnboundLocalError :: error + (int list, int list) diffusion)"
  using create_gaussian_diffusion_nonempty_respacing
    [of "linear1000_cfg\<lparr>timestep_respacing := ''250''\<rparr>"
        "\<lambda>name n. Inr [n]" "\<lambda>n section_counts. Inr section_counts"]
  by (simp add: linear1000_cfg_def)

text \<open>
  Claim C3 says that each of the four loss types \<open>MSE\<close>, \<open>RESCALED_MSE\<close>, \<open>KL\<close>,
  \<open>RESCALED_KL\<close> can be selected through the configuration. No configuration and no
  behaviour of the collaborators makes \<^verbatim>\<open>create_gaussian_diffusion\<close> build a diffusion
  whose loss type is \<open>KL\<close>.
\<close>

theorem loss_type_KL_not_selectable:
  "\<not> (\<exists>gnbs st cfg d.
         create_gaussian_diffusion gnbs st cfg = (Inr d :: error + ('ts, 'b) diffusion) \<and>
         loss_type d = KL)"
  by (auto simp: create_gaussian_diffusion_def select_loss_type_def
           split: sum.splits option.splits)

text \<open>
  Claim C3, amended: each of \<open>MSE\<close>, \<open>RESCALED_MSE\<close> and \<open>RESCALED_KL\<close> is selected by a
  setting of \<^verbatim>\<open>cfg.use_kl\<close> and \<^verbatim>\<open>cfg.rescale_learned_sigmas\<close>, for every configuration
  with an empty \<^verbatim>\<open>timestep_respacing\<close> on which the beta schedule and the timestep
  selection succeed; the two flags do not reach either collaborator. \<open>KL\<close> is never
  the loss type of a diffusion the function builds.
\<close>

theorem loss_types_selectable:
  fixes gnbs :: "string \<Rightarrow> int \<Rightarrow> error + 'b"
    and st :: "int \<Rightarrow> int list \<Rightarrow> error + 'ts"
  assumes "gnbs (noise_schedule cfg) (diffusion_steps cfg) = Inr bs"
    and "st (diffusion_steps cfg) [diffusion_steps cfg] = Inr ts"
    and "timestep_respacing cfg = []"
  shows "(\<forall>L \<in> {MSE, RESCALED_MSE, RESCALED_KL}.
            \<exists>k r d. create_gaussian_diffusion gnbs st
                      (cfg\<lparr>use_kl := k, rescale_learned_sigmas := r\<rparr>) = Inr d \<and>
                    loss_type d = L) \<and>
         (\<forall>gnbs' st' cfg' d.
            create_gaussian_diffusion gnbs' st' cfg' = (Inr d :: error + ('ts, 'b) diffusion)
              \<longrightarrow> loss_type d \<noteq> KL)"
proof (intro conjI ballI allI impI)
  fix L assume "L \<in> {MSE, RESCALED_MSE, RESCALED_KL}"
  then consider "L = MSE" | "L = RESCALED_MSE" | "L = RESCALED_KL" by auto
  then show "\<exists>k r d. create_gaussian_diffusion gnbs st
                      (cfg\<lparr>use_kl := k, rescale_learned_sigmas := r\<rparr>) = Inr d \<and>
                    loss_type d = L"
  proof cases
    case 1
    have "\<exists>d. create_gaussian_diffusion gnbs st
                 (cfg\<lparr>use_kl := False, rescale_learned_sigmas := False\<rparr>) = Inr d \<and>
               loss_type d = L"
      using assms 1
      by (simp add: create_gaussian_diffusion_def timestep_respacing_local_def
                    select_loss_type_def)
    then show ?thesis by blast
  next
    case 2
    have "\<exists>d. create_gaussian_diffusion gnbs st
                 (cfg\<lparr>use_kl := False, rescale_learned_sigmas := True\<rparr>) = Inr d \<and>
               loss_type d = L"
      using assms 2
      by (simp add: create_gaussian_diffusion_def timestep_respacing_local_def
                    select_loss_type_def)
    then show ?thesis by blast
  next
    case 3
    have "\<exists>d. create_gaussian_diffusion gnbs st
                 (cfg\<lparr>use_kl := True, rescale_learned_sigmas := False\<rparr>) = Inr d \<and>
               loss_type d = L"
      using assms 3
      by (simp add: create_gaussian_diffusion_def timestep_respacing_local_def
                    select_loss_type_def)
    then show ?thesis by blast
  qed
next
  fix gnbs' :: "string \<Rightarrow> int \<Rightarrow> error + 'b"
    and st' :: "int \<Rightarrow> int list \<Rightarrow> error + 'ts"
    and cfg' d
  assume "create_gaussian_diffusion gnbs' st' cfg' = Inr d"
  then show "loss_type d \<noteq> KL"
    by (auto simp: create_gaussian_diffusion_def select_loss_type_def
             split: sum.splits option.splits if_splits)
qed

theorem loss_types_selectable_witness:
  "(\<exists>d. create_gaussian_diffusion (\<lambda>name n. Inr [n]) (\<lambda>n section_counts. Inr section_counts)
           (linear1000_cfg\<lparr>use_kl := False, rescale_learned_sigmas := False\<rparr>)
         = (Inr d :: error + (int list, int list) diffusion) \<and> loss_type d = MSE) \<and>
   (\<exists>k r d. create_gaussian_diffusion (\<lambda>name n. Inr [n]) (\<lambda>n section_counts. Inr section_counts)
           (linear1000_cfg\<lparr>use_kl := k, rescale_learned_sigmas := r\<rparr>)
         = (Inr d :: error + (int list, int list) diffusion) \<and> loss_type d = RESCALED_KL)"
proof -
  have steps: "diffusion_steps linear1000_cfg = 1000"
    and empty: "timestep_respacing linear1000_cfg = []"
    by (simp_all add: linear1000_cfg_def)
  have sel: "\<forall>L \<in> {MSE, RESCALED_MSE, RESCALED_KL}.
            \<exists>k r d. create_gaussian_diffusion (\<lambda>name n. Inr [n])
                      (\<lambda>n section_counts. Inr section_counts)
                      (linear1000_cfg\<lparr>use_kl := k, rescale_learned_sigmas := r\<rparr>)
                    = (Inr d :: error + (int list, int list) diffusion) \<and>
                    loss_type d = L"
    using loss_types_selectable
      [where gnbs = "\<lambda>name n. Inr [n]" and st = "\<lambda>n section_counts. Inr section_counts"
         and cfg = linear1000_cfg and bs = "[1000]" and ts = "[1000]"]
      steps empty
    by simp
  have "\<exists>d. create_gaussian_diffusion (\<lambda>name n. Inr [n]) (\<lambda>n section_counts. Inr section_counts)
           (linear1000_cfg\<lparr>use_kl := False, rescale_learned_sigmas := False\<rparr>)
         = (Inr d :: error + (int list, int list) diffusion) \<and> loss_type d = MSE"
    by (simp add: create_gaussian_diffusion_def timestep_respacing_local_def
                  select_loss_type_def linear1000_cfg_def)
  with sel show ?thesis by blast
qed

text \<open>
  Claim C9: on a configuration with an empty \<^verbatim>\<open>timestep_respacing\<close> on which the beta
  schedule and the timestep selection succeed, \<^verbatim>\<open>create_gaussian_diffusion\<close> returns the
  diffusion built from their results whose mean type is \<open>START_X\<close> if
  \<^verbatim>\<open>cfg.predict_xstart\<close> and \<open>EPSILON\<close> otherwise; whose variance type is \<open>LEARNED_RANGE\<close>
  if \<^verbatim>\<open>cfg.learn_sigma\<close>, whatever \<^verbatim>\<open>cfg.sigma_small\<close> is, and otherwise \<open>FIXED_SMALL\<close> if
  \<^verbatim>\<open>cfg.sigma_small\<close> and \<open>FIXED_LARGE\<close> if not; and whose loss type is \<open>RESCALED_KL\<close> if
  \<^verbatim>\<open>cfg.use_kl\<close>, whatever \<^verbatim>\<open>cfg.rescale_learned_sigmas\<close> is, and otherwise
  \<open>RESCALED_MSE\<close> if \<^verbatim>\<open>cfg.rescale_learned_sigmas\<close> and \<open>MSE\<close> if not. No flag decides
  whether the function returns, and every diffusion it returns, on any configuration
  and with any collaborators, carries these three selections.
\<close>

theorem create_gaussian_diffusion_enum_selection:
  fixes gnbs :: "string \<Rightarrow> int \<Rightarrow> error + 'b"
    and st :: "int \<Rightarrow> int list \<Rightarrow> error + 'ts"
  assumes "gnbs (noise_schedule cfg) (diffusion_steps cfg) = Inr bs"
    and "st (diffusion_steps cfg) [diffusion_steps cfg] = Inr ts"
    and "timestep_respacing cfg = []"
  shows "create_gaussian_diffusion gnbs st cfg =
           Inr (SpacedDiffusion ts bs
                  (if predict_xstart cfg then START_X else EPSILON)
                  (if learn_sigma cfg then LEARNED_RANGE
                   else if sigma_small cfg then FIXED_SMALL else FIXED_LARGE)
                  (if use_kl cfg then RESCALED_KL
                   else if rescale_learned_sigmas cfg then RESCALED_MSE else MSE)
                  (rescale_timesteps cfg)) \<and>
         (\<forall>gnbs' st' cfg' d.
            create_gaussian_diffusion gnbs' st' cfg' = (Inr d :: error + ('ts, 'b) diffusion) \<longrightarrow>
              model_mean_type d = (if predict_xstart cfg' then START_X else EPSILON) \<and>
              model_var_type d =
                (if learn_sigma cfg' then LEARNED_RANGE
                 else if sigma_small cfg' then FIXED_SMALL else FIXED_LARGE) \<and>
              loss_type d =
                (if use_kl cfg' then RESCALED_KL
                 else if rescale_learned_sigmas cfg' then RESCALED_MSE else MSE))"
proof (intro conjI allI impI)
  show "create_gaussian_diffusion gnbs st cfg =
           Inr (SpacedDiffusion ts bs
                  (if predict_xstart cfg then START_X else EPSILON)
                  (if learn_sigma cfg then LEARNED_RANGE
                   else if sigma_small cfg then FIXED_SMALL else FIXED_LARGE)
                  (if use_kl cfg then RESCALED_KL
                   else if rescale_learned_sigmas cfg then RESCALED_MSE else MSE)
                  (rescale_timesteps cfg))"
    using assms
    by (simp add: create_gaussian_diffusion_def timestep_respacing_local_def
                  select_loss_type_def)
next
  fix gnbs' :: "string \<Rightarrow> int \<Rightarrow> error + 'b"
    and st' :: "int \<Rightarrow> int list \<Rightarrow> error + 'ts"
    and cfg' d
  assume run: "create_gaussian_diffusion gnbs' st' cfg' = Inr d"
  show "model_mean_type d = (if predict_xstart cfg' then START_X else EPSILON)"
    using run
    by (auto simp: create_gaussian_diffusion_def split: sum.splits option.splits)
  show "model_var_type d =
                (if learn_sigma cfg' then LEARNED_RANGE
                 else if sigma_small cfg' then FIXED_SMALL else FIXED_LARGE)"
    using run
    by (auto simp: create_gaussian_diffusion_def split: sum.splits option.splits)
  show "loss_type d =
                (if use_kl cfg' then RESCALED_KL
                 else if rescale_learned_sigmas cfg' then RESCALED_MSE else MSE)"
    using run
    by (auto simp: create_gaussian_diffusion_def select_loss_type_def
             split: sum.splits option.splits)
qed

theorem create_gaussian_diffusion_enum_selection_witness:
  "create_gaussian_diffusion (\<lambda>name n. Inr [n]) (\<lambda>n section_counts. Inr section_counts)
     (linear1000_cfg\<lparr>use_kl := True, rescale_learned_sigmas := True, predict_xstart := True,
                      sigma_small := True, learn_sigma := True\<rparr>)
     = Inr (SpacedDiffusion [1000::int] [1000::int] START_X LEARNED_RANGE RESCALED_KL False) \<and>
   create_gaussian_diffusion (\<lambda>name n. Inr [n]) (\<lambda>n section_counts. Inr section_counts)
     (linear1000_cfg\<lparr>rescale_learned_sigmas := True, sigma_small := True\<rparr>)
     = Inr (SpacedDiffusion [1000::int] [1000::int] EPSILON FIXED_SMALL RESCALED_MSE False) \<and>
   create_gaussian_diffusion (\<lambda>name n. Inr [n]) (\<lambda>n section_counts. Inr section_counts)
     linear1000_cfg
     = Inr (SpacedDiffusion [1000::int] [1000::int] EPSILON FIXED_LARGE MSE False)"
proof -
  have c1: "create_gaussian_diffusion (\<lambda>name n. Inr [n]) (\<lambda>n section_counts. Inr section_counts)
     (linear1000_cfg\<lparr>use_kl := True, rescale_learned_sigmas := True, predict_xstart := True,
                      sigma_small := True, learn_sigma := True\<rparr>)
     = Inr (SpacedDiffusion [1000::int] [1000::int] START_X LEARNED_RANGE RESCALED_KL False)"
    using create_gaussian_diffusion_enum_selection
      [where gnbs = "\<lambda>name n. Inr [n]" and st = "\<lambda>n section_counts. Inr section_counts"
         and cfg = "linear1000_cfg\<lparr>use_kl := True, rescale_learned_sigmas := True,
                      predict_xstart := True, sigma_small := True, learn_sigma := True\<rparr>"
         and bs = "[1000]" and ts = "[1000]"]
    by (simp add: linear1000_cfg_def)
  have c2: "create_gaussian_diffusion (\<lambda>name n. Inr [n]) (\<lambda>n section_counts. Inr section_counts)
     (linear1000_cfg\<lparr>rescale_learned_sigmas := True, sigma_small := True\<rparr>)
     = Inr (SpacedDiffusion [1000::int] [1000::int] EPSILON FIXED_SMALL RESCALED_MSE False)"
    using create_gaussian_diffusion_enum_selection
      [where gnbs = "\<lambda>name n. Inr [n]" and st = "\<lambda>n section_counts. Inr section_counts"
         and cfg = "linear1000_cfg\<lparr>rescale_learned_sigmas := True, sigma_small := True\<rparr>"
         and bs = "[1000]" and ts = "[1000]"]
    by (simp add: linear1000_cfg_def)
  have c3: "create_gaussian_diffusion (\<lambda>name n. Inr [n]) (\<lambda>n section_counts. Inr section_counts)
     linear1000_cfg
     = Inr (SpacedDiffusion [1000::int] [1000::int] EPSILON FIXED_LARGE MSE False)"
    using create_gaussian_diffusion_enum_selection
      [where gnbs = "\<lambda>name n. Inr [n]" and st = "\<lambda>n section_counts. Inr section_counts"
         and cfg = "linear1000_cfg" and bs = "[1000]" and ts = "[1000]"]
    by (simp add: linear1000_cfg_def)
  from c1 c2 c3 show ?thesis by (intro conjI)
qed

subsection \<open>create\_model and create\_param\_model\<close>

text \<open>
  Claim C7 says that an unsupported architecture tag, and an unsupported image size
  with an empty \<^verbatim>\<open>channel_mult\<close>, fail with a \<open>ConfigurationError\<close>. The code raises
  \<^verbatim>\<open>NotImplementedError\<close> for the tag and \<^verbatim>\<open>ValueError\<close> for the image size.
\<close>

theorem unsupported_arch_not_ConfigurationError:
  "create_param_model (unet64_cfg\<lparr>arch := ''resnet''\<rparr>) = Inl NotImplementedError \<and>
   create_param_model (unet64_cfg\<lparr>arch := ''resnet''\<rparr>) \<noteq> Inl ConfigurationError \<and>
   create_model decimal_int (unet64_cfg\<lparr>arch := ''resnet''\<rparr>) = Inl NotImplementedError \<and>
   create_model decimal_int (unet64_cfg\<lparr>arch := ''resnet''\<rparr>) \<noteq> Inl ConfigurationError \<and>
   create_model decimal_int (unet64_cfg\<lparr>image_size := 32\<rparr>) = Inl ValueError \<and>
   create_model decimal_int (unet64_cfg\<lparr>image_size := 32\<rparr>) \<noteq> Inl ConfigurationError"
  by (simp add: create_param_model_def create_model_def resolve_channel_mult_def
                resolve_attention_ds_def unet64_cfg_def decimal_int_def digit_val_def)

text \<open>
  Claim C7, amended: construction fails at construction time, with these errors.
  \<^item> \<^verbatim>\<open>create_param_model\<close> with \<^verbatim>\<open>cfg.deca_cond\<close> false and \<^verbatim>\<open>cfg.arch\<close> outside
    \<open>{magenta, autoenc}\<close> raises \<^verbatim>\<open>NotImplementedError\<close>.
  \<^item> \<^verbatim>\<open>create_model\<close> with \<^verbatim>\<open>cfg.arch\<close> outside \<open>{UNet, UNetCond}\<close> never returns a
    model: it raises \<^verbatim>\<open>NotImplementedError\<close> when the channel multipliers and the
    attention resolutions were read, and otherwise the \<^verbatim>\<open>ValueError\<close> or
    \<^verbatim>\<open>ZeroDivisionError\<close> of reading them, which comes first.
  \<^item> \<^verbatim>\<open>create_model\<close> with an empty \<^verbatim>\<open>cfg.channel_mult\<close> and \<^verbatim>\<open>cfg.image_size\<close> outside
    \<open>{512, 256, 128, 64}\<close> raises \<^verbatim>\<open>ValueError\<close>.
\<close>

theorem unsupported_model_cfg_raises:
  "(\<not> deca_cond cfg \<and> arch cfg \<notin> {''magenta'', ''autoenc''}
      \<longrightarrow> create_param_model cfg = Inl NotImplementedError) \<and>
   (arch cfg \<notin> {''UNet'', ''UNetCond''}
      \<longrightarrow> (\<exists>e. create_model py_int cfg = Inl e \<and>
               e \<in> {NotImplementedError, ValueError, ZeroDivisionError}) \<and>
          (\<forall>cm ads. resolve_channel_mult py_int cfg = Inr cm \<and>
                     resolve_attention_ds py_int cfg = Inr ads
                     \<longrightarrow> create_model py_int cfg = Inl NotImplementedError)) \<and>
   (channel_mult cfg = [] \<and> image_size cfg \<notin> {512, 256, 128, 64}
      \<longrightarrow> create_model py_int cfg = Inl ValueError)"
proof (intro conjI impI)
  assume "\<not> deca_cond cfg \<and> arch cfg \<notin> {''magenta'', ''autoenc''}"
  then show "create_param_model cfg = Inl NotImplementedError"
    by (simp add: create_param_model_def)
next
  assume a: "arch cfg \<notin> {''UNet'', ''UNetCond''}"
  show "\<exists>e. create_model py_int cfg = Inl e \<and>
            e \<in> {NotImplementedError, ValueError, ZeroDivisionError}"
  proof (cases "resolve_channel_mult py_int cfg")
    case (Inl e)
    then show ?thesis
      using resolve_channel_mult_error [OF Inl] by (simp add: create_model_def)
  next
    case cm: (Inr cm)
    show ?thesis
    proof (cases "resolve_attention_ds py_int cfg")
      case (Inl e)
      then show ?thesis
        using resolve_attention_ds_error [OF Inl] cm by (auto simp: create_model_def)
    next
      case (Inr ads)
      then show ?thesis using a cm by (simp add: create_model_def)
    qed
  qed
  show "\<forall>cm ads. resolve_channel_mult py_int cfg = Inr cm \<and>
                  resolve_attention_ds py_int cfg = Inr ads
                  \<longrightarrow> create_model py_int cfg = Inl NotImplementedError"
    using a by (simp add: create_model_def)
next
  assume "channel_mult cfg = [] \<and> image_size cfg \<notin> {512, 256, 128, 64}"
  then show "create_model py_int cfg = Inl ValueError"
    by (simp add: create_model_def resolve_channel_mult_def)
qed

theorem unsupported_model_cfg_raises_witness:
  "create_param_model (unet64_cfg\<lparr>arch := ''resnet''\<rparr>) = Inl NotImplementedError \<and>
   resolve_channel_mult decimal_int (unet64_cfg\<lparr>arch := ''resnet''\<rparr>) = Inr [1, 2, 3, 4] \<and>
   resolve_attention_ds decimal_int (unet64_cfg\<lparr>arch := ''resnet''\<rparr>) = Inr [4, 8] \<and>
   create_model decimal_int (unet64_cfg\<lparr>arch := ''resnet''\<rparr>) = Inl NotImplementedError \<and>
   create_model decimal_int (unet64_cfg\<lparr>arch := ''resnet'', attention_resolutions := ''16,0''\<rparr>)
     = Inl ZeroDivisionError \<and>
   create_model decimal_int (unet64_cfg\<lparr>image_size := 32\<rparr>) = Inl ValueError"
proof -
  have cm: "resolve_channel_mult decimal_int (unet64_cfg\<lparr>arch := ''resnet''\<rparr>) = Inr [1, 2, 3, 4]"
    by (simp add: resolve_channel_mult_def unet64_cfg_def)
  have ads: "resolve_attention_ds decimal_int (unet64_cfg\<lparr>arch := ''resnet''\<rparr>) = Inr [4, 8]"
    by (simp add: resolve_attention_ds_def unet64_cfg_def decimal_int_def digit_val_def)
  have zero: "create_model decimal_int
                (unet64_cfg\<lparr>arch := ''resnet'', attention_resolutions := ''16,0''\<rparr>)
              = Inl ZeroDivisionError"
    by (simp add: create_model_def resolve_channel_mult_def resolve_attention_ds_def
                  unet64_cfg_def decimal_int_def digit_val_def)
  show ?thesis
    using unsupported_model_cfg_raises [of "unet64_cfg\<lparr>arch := ''resnet''\<rparr>" decimal_int]
      unsupported_model_cfg_raises [of "unet64_cfg\<lparr>image_size := 32\<rparr>" decimal_int]
      cm ads zero
    by (simp add: unet64_cfg_def)
qed

section \<open>Properties of dataloader/deca\_datasets.py\<close>

subsection \<open>The example dataset, run\<close>

lemma example_item_deca_params:
  "item_deca_params example_dataset ''0.jpg'' = Inr [- 1, 1, - 1, - 1, 1]"
  by (simp add: item_deca_params_def example_dataset_def example_deca_params_def
        params_key_def dict_get_def np_concatenate_def normalize_stored_def normalize_def
        broadcast_def list_index_def)

lemma example_img_name: "last_piece CHR ''/'' ''data/0.jpg'' = ''0.jpg''"
  by (simp add: last_piece_def)

lemma example_augmentation:
  "augmentation example_runtime example_dataset p r = Inr (example_array, r)"
  by (simp add: augmentation_def example_runtime_def example_dataset_def)

lemma example_fields:
  "local_images example_dataset = [''data/0.jpg'', ''data/1.jpg'']"
  "in_image example_dataset = ''raw+uvdn''"
  "open_rgb example_runtime = Inr"
  "shape example_array = (2, 2, 3)"
  by (simp_all add: example_dataset_def example_runtime_def example_array_def fun_eq_iff)

lemma example_uvdn_path:
  "\<exists>e. dict_get (deca_params example_dataset) ''0.jpg'' = Inr e \<and>
       get_path e ''uv_detail_normals'' = Inr ''deca/uv_detail_normals/train/uvdn_0.png''"
  by (simp add: example_dataset_def example_deca_params_def dict_get_def get_path_def)

lemma shape_to_unit_range: "shape (to_unit_range arr) = shape arr"
  by (simp add: to_unit_range_def)

lemma elem_to_unit_range:
  "elem (to_unit_range arr) i j k = real (unat (elem arr i j k)) / 127.5 - 1"
  by (simp add: to_unit_range_def)

lemma example_getitem_loaded:
  "getitem_loaded example_runtime example_dataset 0 0
     = Inr ((to_unit_range example_array, [- 1, 1, - 1, - 1, 1], to_unit_range example_array), 0)"
  using example_uvdn_path
  by (auto simp add: getitem_loaded_def example_augmentation example_fields list_index_def
        example_img_name example_item_deca_params)

lemma example_getitem:
  "\<exists>img. getitem example_runtime example_dataset 0 0 = Inr (([- 1, 1, - 1, - 1, 1], img), 0) \<and>
         shape img = (6, 2, 2)"
  by (simp add: getitem_def example_getitem_loaded example_fields concatenate_axis2_def
        shape_to_unit_range transpose_201_def)

text \<open>The branch on \<^verbatim>\<open>self.in_image\<close> is the only reader of that attribute.\<close>

lemma augmentation_in_image:
  "augmentation rt (self\<lparr>in_image := m\<rparr>) = augmentation rt self"
  by (simp add: augmentation_def fun_eq_iff cong: if_cong sum.case_cong prod.case_cong)

lemma item_deca_params_in_image:
  "item_deca_params (self\<lparr>in_image := m\<rparr>) = item_deca_params self"
  by (simp add: item_deca_params_def fun_eq_iff cong: sum.case_cong prod.case_cong)

lemma getitem_loaded_in_image:
  "getitem_loaded rt (self\<lparr>in_image := m\<rparr>) idx rng = getitem_loaded rt self idx rng"
  unfolding getitem_loaded_def augmentation_in_image item_deca_params_in_image
  by (simp cong: sum.case_cong prod.case_cong)

subsection \<open>The image tensor\<close>

lemma to_unit_range_bounds:
  "- 1 \<le> elem (to_unit_range arr) i j k \<and> elem (to_unit_range arr) i j k \<le> 1"
proof -
  have "unat (elem arr i j k) < 2 ^ LENGTH(8)"
    by (rule unsigned_less)
  then have "unat (elem arr i j k) \<le> 255" by simp
  then have "real (unat (elem arr i j k)) \<le> real 255" by (rule of_nat_mono)
  moreover have "0 \<le> real (unat (elem arr i j k))"
    by (rule of_nat_0_le_iff)
  ultimately show ?thesis by (simp add: elem_to_unit_range field_simps)
qed

lemma getitem_loaded_unit_range:
  assumes "getitem_loaded rt self idx rng = Inr ((raw_img, out_params, uvdn), rng')"
  shows "\<exists>raw_arr uvdn_arr pil_image uvdn_image rng1.
           raw_img = to_unit_range raw_arr \<and> uvdn = to_unit_range uvdn_arr \<and>
           augmentation rt self pil_image rng = Inr (raw_arr, rng1) \<and>
           augmentation rt self uvdn_image rng1 = Inr (uvdn_arr, rng')"
proof -
  from assms obtain pil_image raw_arr rng1 uvdn_image uvdn_arr where
    "augmentation rt self pil_image rng = Inr (raw_arr, rng1)"
    "augmentation rt self uvdn_image rng1 = Inr (uvdn_arr, rng')"
    "raw_img = to_unit_range raw_arr" "uvdn = to_unit_range uvdn_arr"
    by (auto simp: getitem_loaded_def split: sum.splits prod.splits)
  then show ?thesis by blast
qed

text \<open>
  Claim C5: the image that \<^verbatim>\<open>__getitem__\<close> returns is channel-first. With the
  \<^verbatim>\<open>uint8\<close> arrays \<open>raw_arr\<close> of shape \<open>(H, W, C0)\<close> and \<open>uvdn_arr\<close> that \<^verbatim>\<open>augmentation\<close>
  returned for the source image and for the uv-detail-normals image, the tensor has
  shape \<open>(C, H, W)\<close>, where \<open>C\<close> is \<open>C0\<close> for \<^verbatim>\<open>'raw'\<close> and \<open>C0\<close> plus the channels of
  \<open>uvdn_arr\<close> for \<^verbatim>\<open>'raw+uvdn'\<close>; its entry at \<open>(k, i, j)\<close> is \<open>p / 127.5 - 1\<close> for the
  pixel \<open>p\<close> at \<open>(i, j, k)\<close> of \<open>raw_arr\<close> (or of \<open>uvdn_arr\<close>, for the appended channels),
  and lies in \<open>[-1, 1]\<close>.
\<close>

theorem getitem_image_layout_and_range:
  assumes "getitem rt self idx rng = Inr ((cond, img), rng')"
  shows "\<exists>(raw_arr :: 8 word ndarray3) (uvdn_arr :: 8 word ndarray3)
            pil_image uvdn_image rng1 H W C0 C.
           augmentation rt self pil_image rng = Inr (raw_arr, rng1) \<and>
           augmentation rt self uvdn_image rng1 = Inr (uvdn_arr, rng') \<and>
           shape raw_arr = (H, W, C0) \<and>
           C = (if in_image self = ''raw'' then C0 else C0 + snd (snd (shape uvdn_arr))) \<and>
           shape img = (C, H, W) \<and>
           (\<forall>k<C. \<forall>i<H. \<forall>j<W.
              elem img k i j =
                real (unat (if k < C0 then elem raw_arr i j k
                            else elem uvdn_arr i j (k - C0))) / 127.5 - 1 \<and>
              - 1 \<le> elem img k i j \<and> elem img k i j \<le> 1)"
proof -
  from assms obtain raw_img out_params uvdn where
    ld: "getitem_loaded rt self idx rng = Inr ((raw_img, out_params, uvdn), rng')"
    by (auto simp: getitem_def split: sum.splits prod.splits if_splits)
  from getitem_loaded_unit_range [OF ld] obtain raw_arr uvdn_arr pil_image uvdn_image rng1
    where r: "raw_img = to_unit_range raw_arr" and u: "uvdn = to_unit_range uvdn_arr"
      and a1: "augmentation rt self pil_image rng = Inr (raw_arr, rng1)"
      and a2: "augmentation rt self uvdn_image rng1 = Inr (uvdn_arr, rng')"
    by auto
  obtain H W C0 where sr: "shape raw_arr = (H, W, C0)" by (cases "shape raw_arr") auto
  obtain H' W' C1 where su: "shape uvdn_arr = (H', W', C1)" by (cases "shape uvdn_arr") auto
  have sr': "shape raw_img = (H, W, C0)" and su': "shape uvdn = (H', W', C1)"
    by (simp_all add: r u sr su shape_to_unit_range)
  have "in_image self = ''raw'' \<or> in_image self = ''raw+uvdn''"
    using assms ld by (auto simp: getitem_def split: if_splits)
  then show ?thesis
  proof
    assume raw: "in_image self = ''raw''"
    then have img: "img = transpose_201 raw_img"
      using assms ld by (simp add: getitem_def)
    have sh: "shape img = (C0, H, W)"
      and el: "\<And>k i j. elem img k i j = elem (to_unit_range raw_arr) i j k"
      by (simp_all add: img transpose_201_def r sr shape_to_unit_range)
    show ?thesis
      apply (rule exI [of _ raw_arr], rule exI [of _ uvdn_arr])
      apply (rule exI [of _ pil_image], rule exI [of _ uvdn_image], rule exI [of _ rng1])
      apply (rule exI [of _ H], rule exI [of _ W], rule exI [of _ C0], rule exI [of _ C0])
      using to_unit_range_bounds [of raw_arr] a1 a2
      apply (simp add: sh el raw sr elem_to_unit_range)
      done
  next
    assume both: "in_image self = ''raw+uvdn''"
    from both assms ld obtain arr where
      c: "concatenate_axis2 raw_img uvdn = Inr arr" and img: "img = transpose_201 arr"
      by (auto simp: getitem_def split: sum.splits)
    from c have arr: "arr = \<lparr>shape = (H, W, C0 + C1),
                 elem = (\<lambda>i j k. if k < C0 then elem raw_img i j k else elem uvdn i j (k - C0))\<rparr>"
      by (auto simp: concatenate_axis2_def sr' su' split: if_splits)
    have sh: "shape img = (C0 + C1, H, W)"
      and el: "\<And>k i j. elem img k i j =
                 (if k < C0 then elem (to_unit_range raw_arr) i j k
                  else elem (to_unit_range uvdn_arr) i j (k - C0))"
      by (simp_all add: img arr transpose_201_def r u)
    show ?thesis
      apply (rule exI [of _ raw_arr], rule exI [of _ uvdn_arr])
      apply (rule exI [of _ pil_image], rule exI [of _ uvdn_image], rule exI [of _ rng1])
      apply (rule exI [of _ H], rule exI [of _ W], rule exI [of _ C0], rule exI [of _ "C0 + C1"])
      using to_unit_range_bounds [of raw_arr] to_unit_range_bounds [of uvdn_arr] a1 a2
      apply (simp add: sh el both sr su elem_to_unit_range)
      done
  qed
qed

theorem getitem_image_layout_and_range_witness:
  "\<exists>cond img. getitem example_runtime example_dataset 0 0 = Inr ((cond, img), 0) \<and>
     shape img = (6, 2, 2) \<and>
     (\<forall>k<6. \<forall>i<2. \<forall>j<2. - 1 \<le> elem img k i j \<and> elem img k i j \<le> 1)"
proof -
  from example_getitem obtain img where
    run: "getitem example_runtime example_dataset 0 0 = Inr (([- 1, 1, - 1, - 1, 1], img), 0)"
    and sh: "shape img = (6, 2, 2)" by blast
  from getitem_image_layout_and_range [OF run] obtain H W C where
    "shape img = (C, H, W)"
    and bounds: "\<forall>k<C. \<forall>i<H. \<forall>j<W. - 1 \<le> elem img k i j \<and> elem img k i j \<le> 1"
    by blast
  with sh have "C = 6" "H = 2" "W = 2" by simp_all
  with bounds have "\<forall>k<6. \<forall>i<2. \<forall>j<2. - 1 \<le> elem img k i j \<and> elem img k i j \<le> 1"
    by simp
  with run sh show ?thesis by blast
qed

subsection \<open>Unsupported modes\<close>

text \<open>
  Claim C8: with \<^verbatim>\<open>self.in_image\<close> outside \<open>{raw, raw+uvdn}\<close>, \<^verbatim>\<open>__getitem__\<close> never
  returns an item, and once the lines before the branch have run without an
  exception (the two images are loaded and augmented, the conditioning vector is
  computed) it raises \<^verbatim>\<open>NotImplementedError\<close>.
\<close>

theorem getitem_unsupported_in_image:
  assumes "in_image self \<notin> {''raw'', ''raw+uvdn''}"
  shows "(\<forall>r. getitem rt self idx rng \<noteq> Inr r) \<and>
         (\<forall>x. getitem_loaded rt self idx rng = Inr x
               \<longrightarrow> getitem rt self idx rng = Inl NotImplementedError)"
  using assms by (auto simp: getitem_def split: sum.splits prod.splits)

theorem getitem_unsupported_in_image_witness:
  "(\<exists>x. getitem_loaded example_runtime (example_dataset\<lparr>in_image := ''uvdn''\<rparr>) 0 0 = Inr x) \<and>
   getitem example_runtime (example_dataset\<lparr>in_image := ''uvdn''\<rparr>) 0 0
     = Inl NotImplementedError"
  using getitem_unsupported_in_image
          [of "example_dataset\<lparr>in_image := ''uvdn''\<rparr>" example_runtime 0 0]
  by (simp add: getitem_loaded_in_image example_getitem_loaded)

text \<open>
  Claim C10: with \<^verbatim>\<open>self.resize_mode\<close> outside \<open>{random_crop, center_crop, resize}\<close>, or
  \<^verbatim>\<open>self.augment_mode\<close> outside \<open>{random_flip, flip, None}\<close>, \<^verbatim>\<open>augmentation\<close> reaches a
  \<^verbatim>\<open>raise NotImplemented\<close> and so raises \<^verbatim>\<open>TypeError\<close>, not \<^verbatim>\<open>NotImplementedError\<close>.
\<close>

theorem augmentation_unsupported_mode:
  assumes "resize_mode self \<notin> {''random_crop'', ''center_crop'', ''resize''} \<or>
           augment_mode self \<notin> {Some ''random_flip'', Some ''flip'', None}"
  shows "augmentation rt self pil_image rng = Inl TypeError \<and>
         augmentation rt self pil_image rng \<noteq> Inl NotImplementedError"
  using assms by (auto simp: augmentation_def split: prod.splits)

theorem augmentation_unsupported_mode_witness:
  "augmentation example_runtime (example_dataset\<lparr>resize_mode := ''crop''\<rparr>) ''data/0.jpg'' 0
     = Inl TypeError \<and>
   augmentation example_runtime (example_dataset\<lparr>augment_mode := Some ''mirror''\<rparr>)
     ''data/0.jpg'' 0 = Inl TypeError"
  using augmentation_unsupported_mode
          [of "example_dataset\<lparr>resize_mode := ''crop''\<rparr>" example_runtime "''data/0.jpg''" 0]
        augmentation_unsupported_mode
          [of "example_dataset\<lparr>augment_mode := Some ''mirror''\<rparr>" example_runtime
              "''data/0.jpg''" 0]
  by (simp add: example_dataset_def)

subsection \<open>The round trip of normalize and denormalize\<close>

text \<open>
  With one column per statistic nothing is broadcast, and both functions are maps
  over the rows.
\<close>

lemma broadcast_same_length:
  "length xs = length ys \<Longrightarrow> broadcast f xs ys = Inr (map2 f xs ys)"
  by (simp add: broadcast_def)

lemma rows_with_same_length:
  "\<forall>r \<in> set arr. length r = length v \<Longrightarrow>
     rows_with f arr v = Inr (map (\<lambda>r. map2 f r v) arr)"
  by (induction arr) (simp_all add: broadcast_same_length)

lemma normalize_row:
  assumes "length r = length mn" and "length mx = length mn"
  shows "map (\<lambda>x. x + a) (map2 (/) (map (\<lambda>x. (b - a) * x) (map2 (-) r mn)) (map2 (-) mx mn))
         = map (\<lambda>i. (b - a) * (r ! i - mn ! i) / (mx ! i - mn ! i) + a) [0..<length mn]"
  using assms by (intro nth_equalityI) simp_all

lemma denormalize_row:
  assumes "length r = length mn" and "length mx = length mn"
  shows "map2 (+) (map (\<lambda>x. x / (b - a)) (map2 (*) (map (\<lambda>x. x - a) r) (map2 (-) mx mn))) mn
         = map (\<lambda>i. (r ! i - a) * (mx ! i - mn ! i) / (b - a) + mn ! i) [0..<length mn]"
  using assms by (intro nth_equalityI) simp_all

lemma normalize_rows:
  assumes len: "\<forall>r \<in> set x. length r = length mn" and mx: "length mx = length mn"
  shows "normalize x (Some mn) (Some mx) a b =
           Inr (map (\<lambda>r. map (\<lambda>i. (b - a) * (r ! i - mn ! i) / (mx ! i - mn ! i) + a)
                            [0..<length mn]) x, mn, mx)"
proof -
  have d: "rows_with (-) x mn = Inr (map (\<lambda>r. map2 (-) r mn) x)"
    using len by (rule rows_with_same_length)
  have delta: "broadcast (-) mx mn = Inr (map2 (-) mx mn)"
    using mx by (rule broadcast_same_length)
  have q: "rows_with (/) (map (map (\<lambda>x. (b - a) * x)) (map (\<lambda>r. map2 (-) r mn) x)) (map2 (-) mx mn)
           = Inr (map (\<lambda>r. map2 (/) r (map2 (-) mx mn))
                    (map (map (\<lambda>x. (b - a) * x)) (map (\<lambda>r. map2 (-) r mn) x)))"
    using len mx by (intro rows_with_same_length) auto
  have fin: "map (map (\<lambda>x. x + a)) (map (\<lambda>r. map2 (/) r (map2 (-) mx mn))
                    (map (map (\<lambda>x. (b - a) * x)) (map (\<lambda>r. map2 (-) r mn) x)))
             = map (\<lambda>r. map (\<lambda>i. (b - a) * (r ! i - mn ! i) / (mx ! i - mn ! i) + a)
                            [0..<length mn]) x"
  proof -
    have "map (map (\<lambda>x. x + a)) (map (\<lambda>r. map2 (/) r (map2 (-) mx mn))
                    (map (map (\<lambda>x. (b - a) * x)) (map (\<lambda>r. map2 (-) r mn) x)))
          = map (\<lambda>r. map (\<lambda>x. x + a) (map2 (/) (map (\<lambda>x. (b - a) * x) (map2 (-) r mn))
                                          (map2 (-) mx mn))) x"
      by (simp only: map_map comp_def)
    also have "\<dots> = map (\<lambda>r. map (\<lambda>i. (b - a) * (r ! i - mn ! i) / (mx ! i - mn ! i) + a)
                            [0..<length mn]) x"
      using len mx by (intro map_cong refl normalize_row) auto
    finally show ?thesis .
  qed
  show ?thesis
    unfolding normalize_def
    by (simp only: prod.case option.case sum.case d delta q fin)
qed

lemma denormalize_rows:
  assumes len: "\<forall>r \<in> set y. length r = length mn" and mx: "length mx = length mn"
  shows "denormalize y mn mx a b =
           Inr (map (\<lambda>r. map (\<lambda>i. (r ! i - a) * (mx ! i - mn ! i) / (b - a) + mn ! i)
                            [0..<length mn]) y)"
proof -
  have delta: "broadcast (-) mx mn = Inr (map2 (-) mx mn)"
    using mx by (rule broadcast_same_length)
  have m: "rows_with (*) (map (map (\<lambda>x. x - a)) y) (map2 (-) mx mn)
           = Inr (map (\<lambda>r. map2 (*) r (map2 (-) mx mn)) (map (map (\<lambda>x. x - a)) y))"
    using len mx by (intro rows_with_same_length) auto
  have p: "rows_with (+) (map (map (\<lambda>x. x / (b - a)))
               (map (\<lambda>r. map2 (*) r (map2 (-) mx mn)) (map (map (\<lambda>x. x - a)) y))) mn
           = Inr (map (\<lambda>r. map2 (+) r mn) (map (map (\<lambda>x. x / (b - a)))
               (map (\<lambda>r. map2 (*) r (map2 (-) mx mn)) (map (map (\<lambda>x. x - a)) y))))"
    using len mx by (intro rows_with_same_length) auto
  have fin: "map (\<lambda>r. map2 (+) r mn) (map (map (\<lambda>x. x / (b - a)))
               (map (\<lambda>r. map2 (*) r (map2 (-) mx mn)) (map (map (\<lambda>x. x - a)) y)))
             = map (\<lambda>r. map (\<lambda>i. (r ! i - a) * (mx ! i - mn ! i) / (b - a) + mn ! i)
                            [0..<length mn]) y"
  proof -
    have "map (\<lambda>r. map2 (+) r mn) (map (map (\<lambda>x. x / (b - a)))
               (map (\<lambda>r. map2 (*) r (map2 (-) mx mn)) (map (map (\<lambda>x. x - a)) y)))
          = map (\<lambda>r. map2 (+) (map (\<lambda>x. x / (b - a))
                    (map2 (*) (map (\<lambda>x. x - a) r) (map2 (-) mx mn))) mn) y"
      by (simp only: map_map comp_def)
    also have "\<dots> = map (\<lambda>r. map (\<lambda>i. (r ! i - a) * (mx ! i - mn ! i) / (b - a) + mn ! i)
                            [0..<length mn]) y"
      using len mx by (intro map_cong refl denormalize_row) auto
    finally show ?thesis .
  qed
  show ?thesis
    unfolding denormalize_def
    by (simp only: sum.case delta m p fin)
qed

lemma round_trip_scalar:
  fixes v :: real
  assumes "mn < mx" and "a < b"
  shows "((b - a) * (v - mn) / (mx - mn) + a - a) * (mx - mn) / (b - a) + mn = v"
    and "(b - a) * ((v - a) * (mx - mn) / (b - a) + mn - mn) / (mx - mn) + a = v"
proof -
  have nz: "mx - mn \<noteq> 0" "b - a \<noteq> 0" using assms by simp_all
  show "((b - a) * (v - mn) / (mx - mn) + a - a) * (mx - mn) / (b - a) + mn = v"
    using nz by simp
  show "(b - a) * ((v - a) * (mx - mn) / (b - a) + mn - mn) / (mx - mn) + a = v"
    using nz by simp
qed

text \<open>
  Claim C2: with the same parameters \<open>min_val < max_val\<close> (in every coordinate) and
  \<open>a < b\<close>, \<^verbatim>\<open>denormalize\<close> undoes \<^verbatim>\<open>normalize\<close> and \<^verbatim>\<open>normalize\<close> undoes
  \<^verbatim>\<open>denormalize\<close>, exactly, in real arithmetic. The array \<open>x\<close> has one column per
  coordinate of \<open>min_val\<close> and \<open>max_val\<close>; both calls return (no broadcasting error).
\<close>

theorem normalize_denormalize_round_trip:
  assumes len: "\<forall>r \<in> set x. length r = length min_val"
    and mx: "length max_val = length min_val"
    and lt: "\<forall>j < length min_val. min_val ! j < max_val ! j"
    and ab: "a < b"
  shows "(\<exists>x_norm. normalize x (Some min_val) (Some max_val) a b = Inr (x_norm, min_val, max_val) \<and>
            denormalize x_norm min_val max_val a b = Inr x) \<and>
         (\<exists>x_denorm. denormalize x min_val max_val a b = Inr x_denorm \<and>
            normalize x_denorm (Some min_val) (Some max_val) a b = Inr (x, min_val, max_val))"
proof (intro conjI)
  let ?nr = "\<lambda>r. map (\<lambda>i. (b - a) * (r ! i - min_val ! i) / (max_val ! i - min_val ! i) + a)
                      [0..<length min_val]"
  let ?dr = "\<lambda>r. map (\<lambda>i. (r ! i - a) * (max_val ! i - min_val ! i) / (b - a) + min_val ! i)
                      [0..<length min_val]"
  have n: "normalize x (Some min_val) (Some max_val) a b = Inr (map ?nr x, min_val, max_val)"
    using len mx by (rule normalize_rows)
  have d: "denormalize x min_val max_val a b = Inr (map ?dr x)"
    using len mx by (rule denormalize_rows)
  have ln: "\<forall>r \<in> set (map ?nr x). length r = length min_val" by auto
  have ld: "\<forall>r \<in> set (map ?dr x). length r = length min_val" by auto
  have dn: "?dr (?nr r) = r" if l: "length r = length min_val" for r
  proof (rule nth_equalityI)
    show "length (?dr (?nr r)) = length r" using l by simp
  next
    fix i assume "i < length (?dr (?nr r))"
    then have i: "i < length min_val" by simp
    then have "min_val ! i < max_val ! i" using lt by simp
    from round_trip_scalar(1) [OF this ab, of "r ! i"] show "?dr (?nr r) ! i = r ! i"
      using i by simp
  qed
  have nd: "?nr (?dr r) = r" if l: "length r = length min_val" for r
  proof (rule nth_equalityI)
    show "length (?nr (?dr r)) = length r" using l by simp
  next
    fix i assume "i < length (?nr (?dr r))"
    then have i: "i < length min_val" by simp
    then have "min_val ! i < max_val ! i" using lt by simp
    from round_trip_scalar(2) [OF this ab, of "r ! i"] show "?nr (?dr r) ! i = r ! i"
      using i by simp
  qed
  have there: "map ?dr (map ?nr x) = x"
    unfolding map_map comp_def using len by (intro map_idI dn) auto
  have again: "map ?nr (map ?dr x) = x"
    unfolding map_map comp_def using len by (intro map_idI nd) auto
  show "\<exists>x_norm. normalize x (Some min_val) (Some max_val) a b = Inr (x_norm, min_val, max_val) \<and>
            denormalize x_norm min_val max_val a b = Inr x"
    using n denormalize_rows [OF ln mx, of a b] there by simp
  show "\<exists>x_denorm. denormalize x min_val max_val a b = Inr x_denorm \<and>
            normalize x_denorm (Some min_val) (Some max_val) a b = Inr (x, min_val, max_val)"
    using d normalize_rows [OF ld mx, of a b] again by simp
qed

theorem normalize_denormalize_round_trip_witness:
  "normalize [[1, 5], [3, 2]] (Some [0, 1]) (Some [4, 5]) (- 1) 1
     = Inr ([[- 1 / 2, 1], [1 / 2, - 1 / 2]], [0, 1], [4, 5]) \<and>
   denormalize [[- 1 / 2, 1], [1 / 2, - 1 / 2]] [0, 1] [4, 5] (- 1) 1 = Inr [[1, 5], [3, 2]]"
proof -
  have n: "normalize [[1, 5], [3, 2]] (Some [0, 1]) (Some [4, 5]) (- 1) 1
             = Inr ([[- 1 / 2, 1], [1 / 2, - 1 / 2]], [0, 1], [4, 5])"
    by (simp add: normalize_def broadcast_def)
  show ?thesis
    using normalize_denormalize_round_trip [of "[[1, 5], [3, 2]]" "[0, 1]" "[4, 5]" "- 1" 1] n
    by (auto simp: less_Suc_eq_0_disj)
qed

subsection \<open>The statistics of load\_deca\_params\<close>

text \<open>
  The loop over the \<^verbatim>\<open>uv_detail_normals\<close> files writes only under image names, which
  contain a dot when the path ends in \<^verbatim>\<open>.png\<close>; it leaves the \<^verbatim>\<open>'normalize'\<close> entry and
  the parameter arrays of every image as they were.
\<close>

lemma map_of_dict_set:
  "map_of (dict_set k v d) k' = (if k' = k then Some v else map_of d k')"
  by (induction d) auto

lemma dict_get_default_dict_set:
  "dict_get_default (dict_set k v d) k' = (if k' = k then v else dict_get_default d k')"
  by (simp add: dict_get_default_def map_of_dict_set)

lemma split_sep_not_Nil: "split_sep c s \<noteq> []"
  by (induction s) (auto split: list.splits)

lemma split_sep_no_sep: "c \<notin> set s \<Longrightarrow> split_sep c s = [s]"
  by (induction s) auto

lemma split_sep_append:
  "c \<notin> set u \<Longrightarrow>
     split_sep c (t @ u) = butlast (split_sep c t) @ [last (split_sep c t) @ u]"
proof (induction t)
  case Nil
  then show ?case by (simp add: split_sep_no_sep)
next
  case (Cons x t)
  obtain w ws where S: "split_sep c t = w # ws"
    using split_sep_not_Nil [of c t] by (cases "split_sep c t") auto
  show ?case
    using Cons S by (cases ws) auto
qed

lemma last_piece_append:
  "c \<notin> set u \<Longrightarrow> last_piece c (t @ u) = last_piece c t @ u"
  by (simp add: last_piece_def split_sep_append)

lemma replace_png_keeps_dot:
  "CHR ''.'' \<in> set s \<Longrightarrow> CHR ''.'' \<in> set (replace_all ''.png'' ''.jpg'' s)"
proof (induction "''.png''" "''.jpg''" s rule: replace_all.induct)
  case (1 s)
  show ?case
  proof (cases "take (length ''.png'') s = ''.png''")
    case True
    then show ?thesis using 1 by (subst replace_all.simps) auto
  next
    case False
    have "s \<noteq> []" using 1(3) by auto
    then obtain c cs where s: "s = c # cs" by (cases s) auto
    show ?thesis
    proof (cases "c = CHR ''.''")
      case True
      then show ?thesis using False s by (subst replace_all.simps) auto
    next
      case nd: False
      then have "CHR ''.'' \<in> set (tl s)" using 1(3) s by auto
      then have "CHR ''.'' \<in> set (replace_all ''.png'' ''.jpg'' (tl s))"
        using 1(2) False s by auto
      then show ?thesis using False s by (subst replace_all.simps) auto
    qed
  qed
qed

lemma uv_name_not_normalize:
  assumes "p = stem @ ''.png''"
  shows "replace_all ''.png'' ''.jpg'' (last_piece CHR ''_'' (last_piece CHR ''/'' p)) \<noteq> ''normalize''"
proof -
  have "last_piece CHR ''/'' p = last_piece CHR ''/'' stem @ ''.png''"
    unfolding assms by (rule last_piece_append) simp
  then have "last_piece CHR ''_'' (last_piece CHR ''/'' p)
             = last_piece CHR ''_'' (last_piece CHR ''/'' stem) @ ''.png''"
    by (simp only: last_piece_append) (rule last_piece_append, simp)
  then have "CHR ''.'' \<in> set (last_piece CHR ''_'' (last_piece CHR ''/'' p))" by simp
  then have "CHR ''.'' \<in> set (replace_all ''.png'' ''.jpg'' (last_piece CHR ''_'' (last_piece CHR ''/'' p)))"
    by (rule replace_png_keeps_dot)
  then show ?thesis by auto
qed

lemma uv_loop_other_key:
  assumes "\<forall>p \<in> set paths. replace_all ''.png'' ''.jpg'' (last_piece CHR ''_'' (last_piece CHR ''/'' p)) \<noteq> K"
  shows "map_of (uv_detail_normals_loop paths d) K = map_of d K"
  using assms by (induction paths arbitrary: d) (auto simp: Let_def map_of_dict_set)

lemma uv_loop_entry:
  assumes "map_of (uv_detail_normals_loop paths d) K = Some e" and "k \<noteq> ''uv_detail_normals''"
  shows "map_of e k = map_of (dict_get_default d K) k"
  using assms
proof (induction paths arbitrary: d)
  case Nil
  then show ?case by (simp add: dict_get_default_def)
next
  case (Cons p paths)
  then show ?case
    by (simp add: Let_def dict_get_default_dict_set map_of_dict_set split: if_splits)
qed

lemma foldl_map2_min:
  fixes r :: "real list"
  assumes "\<forall>v \<in> set rs. length v = length r"
  shows "length (foldl (map2 min) r rs) = length r \<and>
         (\<forall>j < length r.
            (\<forall>v \<in> set (r # rs). foldl (map2 min) r rs ! j \<le> v ! j) \<and>
            (\<exists>v \<in> set (r # rs). foldl (map2 min) r rs ! j = v ! j))"
  using assms
proof (induction rs arbitrary: r)
  case Nil
  then show ?case by simp
next
  case (Cons u rs)
  have len: "length (map2 min r u) = length r" using Cons.prems by simp
  have ih: "length (foldl (map2 min) (map2 min r u) rs) = length r \<and>
         (\<forall>j < length r.
            (\<forall>v \<in> set (map2 min r u # rs). foldl (map2 min) (map2 min r u) rs ! j \<le> v ! j) \<and>
            (\<exists>v \<in> set (map2 min r u # rs). foldl (map2 min) (map2 min r u) rs ! j = v ! j))"
    using Cons.IH [of "map2 min r u"] Cons.prems len by simp
  show ?case
  proof (intro conjI allI impI)
    show "length (foldl (map2 min) r (u # rs)) = length r" using ih by simp
  next
    fix j assume j: "j < length r"
    have m: "map2 min r u ! j = min (r ! j) (u ! j)" using j Cons.prems by simp
    from ih j have le: "\<forall>v \<in> set (map2 min r u # rs). foldl (map2 min) (map2 min r u) rs ! j \<le> v ! j"
      and ex: "\<exists>v \<in> set (map2 min r u # rs). foldl (map2 min) (map2 min r u) rs ! j = v ! j"
      by blast+
    show "\<forall>v \<in> set (r # u # rs). foldl (map2 min) r (u # rs) ! j \<le> v ! j"
      using le m by auto
    show "\<exists>v \<in> set (r # u # rs). foldl (map2 min) r (u # rs) ! j = v ! j"
      using ex m by (auto simp: min_def split: if_splits)
  qed
qed

lemma foldl_map2_max:
  fixes r :: "real list"
  assumes "\<forall>v \<in> set rs. length v = length r"
  shows "length (foldl (map2 max) r rs) = length r \<and>
         (\<forall>j < length r.
            (\<forall>v \<in> set (r # rs). v ! j \<le> foldl (map2 max) r rs ! j) \<and>
            (\<exists>v \<in> set (r # rs). foldl (map2 max) r rs ! j = v ! j))"
  using assms
proof (induction rs arbitrary: r)
  case Nil
  then show ?case by simp
next
  case (Cons u rs)
  have len: "length (map2 max r u) = length r" using Cons.prems by simp
  have ih: "length (foldl (map2 max) (map2 max r u) rs) = length r \<and>
         (\<forall>j < length r.
            (\<forall>v \<in> set (map2 max r u # rs). v ! j \<le> foldl (map2 max) (map2 max r u) rs ! j) \<and>
            (\<exists>v \<in> set (map2 max r u # rs). foldl (map2 max) (map2 max r u) rs ! j = v ! j))"
    using Cons.IH [of "map2 max r u"] Cons.prems len by simp
  show ?case
  proof (intro conjI allI impI)
    show "length (foldl (map2 max) r (u # rs)) = length r" using ih by simp
  next
    fix j assume j: "j < length r"
    have m: "map2 max r u ! j = max (r ! j) (u ! j)" using j Cons.prems by simp
    from ih j have le: "\<forall>v \<in> set (map2 max r u # rs). v ! j \<le> foldl (map2 max) (map2 max r u) rs ! j"
      and ex: "\<exists>v \<in> set (map2 max r u # rs). foldl (map2 max) (map2 max r u) rs ! j = v ! j"
      by blast+
    show "\<forall>v \<in> set (r # u # rs). v ! j \<le> foldl (map2 max) r (u # rs) ! j"
      using le m by auto
    show "\<exists>v \<in> set (r # u # rs). foldl (map2 max) r (u # rs) ! j = v ! j"
      using ex m by (auto simp: max_def split: if_splits)
  qed
qed

lemma np_min_axis0_Min:
  assumes "np_min_axis0 arr = Inr mn" and "\<forall>v \<in> set arr. length v = n"
  shows "arr \<noteq> [] \<and> length mn = n \<and> (\<forall>j < n. mn ! j = Min ((\<lambda>v. v ! j) ` set arr))"
proof -
  from assms(1) obtain r rs where arr: "arr = r # rs" and mn: "mn = foldl (map2 min) r rs"
    by (auto simp: np_min_axis0_def split: list.splits)
  have n: "length r = n" and rs: "\<forall>v \<in> set rs. length v = length r"
    using assms(2) arr by auto
  note f = foldl_map2_min [OF rs]
  show ?thesis
  proof (intro conjI allI impI)
    show "arr \<noteq> []" using arr by simp
    show "length mn = n" using f mn n by simp
  next
    fix j assume "j < n"
    then have j: "j < length r" using n by simp
    from f j have le: "\<forall>v \<in> set arr. mn ! j \<le> v ! j" and ex: "\<exists>v \<in> set arr. mn ! j = v ! j"
      unfolding arr mn by blast+
    show "mn ! j = Min ((\<lambda>v. v ! j) ` set arr)"
      using le ex by (intro Min_eqI [symmetric]) auto
  qed
qed

lemma np_max_axis0_Max:
  assumes "np_max_axis0 arr = Inr mx" and "\<forall>v \<in> set arr. length v = n"
  shows "arr \<noteq> [] \<and> length mx = n \<and> (\<forall>j < n. mx ! j = Max ((\<lambda>v. v ! j) ` set arr))"
proof -
  from assms(1) obtain r rs where arr: "arr = r # rs" and mx: "mx = foldl (map2 max) r rs"
    by (auto simp: np_max_axis0_def split: list.splits)
  have n: "length r = n" and rs: "\<forall>v \<in> set rs. length v = length r"
    using assms(2) arr by auto
  note f = foldl_map2_max [OF rs]
  show ?thesis
  proof (intro conjI allI impI)
    show "arr \<noteq> []" using arr by simp
    show "length mx = n" using f mx n by simp
  next
    fix j assume "j < n"
    then have j: "j < length r" using n by simp
    from f j have le: "\<forall>v \<in> set arr. v ! j \<le> mx ! j" and ex: "\<exists>v \<in> set arr. mx ! j = v ! j"
      unfolding arr mx by blast+
    show "mx ! j = Max ((\<lambda>v. v ! j) ` set arr)"
      using le ex by (intro Max_eqI [symmetric]) auto
  qed
qed

lemma np_stack_Inr:
  "np_stack arrs = Inr stacked \<Longrightarrow>
     stacked = arrs \<and> arrs \<noteq> [] \<and> (\<forall>v \<in> set arrs. length v = length (hd arrs))"
  by (auto simp: np_stack_def list_all_iff split: list.splits if_splits)

lemma normalize_None_stats:
  "normalize arr None None a b = Inr (res, mn, mx) \<Longrightarrow>
     np_min_axis0 arr = Inr mn \<and> np_max_axis0 arr = Inr mx"
  by (auto simp: normalize_def split: sum.splits prod.splits)

lemma normalized_in_range:
  fixes v :: real
  assumes "mn \<le> v" and "v \<le> mx" and "mn < mx"
  shows "\<bar>(bnd - (- bnd)) * (v - mn) / (mx - mn) + (- bnd)\<bar> \<le> \<bar>bnd\<bar>"
proof -
  define t where "t = (v - mn) / (mx - mn)"
  have t: "0 \<le> t" "t \<le> 1" using assms by (simp_all add: t_def)
  have eq: "(bnd - (- bnd)) * (v - mn) / (mx - mn) + (- bnd) = bnd * (2 * t - 1)"
    by (simp add: t_def algebra_simps)
  have "\<bar>2 * t - 1\<bar> \<le> 1" using t by (simp add: abs_le_iff)
  then have "\<bar>bnd\<bar> * \<bar>2 * t - 1\<bar> \<le> \<bar>bnd\<bar> * 1"
    by (intro mult_left_mono) simp_all
  then show ?thesis unfolding eq by (simp add: abs_mult)
qed

lemma all_params_loop_member:
  assumes "all_params_loop d names = Inr vs" and "img_name \<in> set names"
  shows "\<exists>ws p. each_img_loop (dict_get_default d img_name) params_key = Inr ws \<and>
                np_concatenate ws = Inr p \<and> p \<in> set vs"
  using assms
proof (induction names arbitrary: vs)
  case Nil
  then show ?case by simp
next
  case (Cons n names)
  from Cons.prems(1) obtain ws p rest where
    ws: "each_img_loop (dict_get_default d n) params_key = Inr ws"
    and p: "np_concatenate ws = Inr p"
    and rest: "all_params_loop d names = Inr rest"
    and vs: "vs = p # rest"
    by (auto split: sum.splits)
  show ?case
  proof (cases "img_name = n")
    case True
    then show ?thesis using ws p vs by auto
  next
    case False
    then have "img_name \<in> set names" using Cons.prems(2) by simp
    from Cons.IH [OF rest this] show ?thesis using vs by auto
  qed
qed

lemma load_deca_params_Inr:
  assumes ret: "load_deca_params glob read_params deca_dir bnd = Inr dp"
  shows "\<exists>all_params stacked arr_norm mn mx.
    all_params_loop (swap_key (read_params_loop glob read_params deca_dir params_key []))
             (map fst (swap_key (read_params_loop glob read_params deca_dir params_key []))) = Inr all_params
    \<and> np_stack all_params = Inr stacked
    \<and> normalize stacked None None (- bnd) bnd = Inr (arr_norm, mn, mx)
    \<and> dp = uv_detail_normals_loop (glob (deca_dir @ ''/uv_detail_normals/train/*.png''))
                    (dict_set ''normalize'' [(''min_val'', Arr mn), (''max_val'', Arr mx)]
                       (swap_key (read_params_loop glob read_params deca_dir params_key [])))"
proof (cases "all_params_loop (swap_key (read_params_loop glob read_params deca_dir params_key []))
             (map fst (swap_key (read_params_loop glob read_params deca_dir params_key [])))")
  case (Inl e)
  then show ?thesis using ret by (simp add: load_deca_params_def Let_def)
next
  case ap: (Inr all_params)
  show ?thesis
  proof (cases "np_stack all_params")
    case (Inl e)
    then show ?thesis using ret ap by (simp add: load_deca_params_def Let_def)
  next
    case st: (Inr stacked)
    show ?thesis
    proof (cases "normalize stacked None None (- bnd) bnd")
      case (Inl e)
      then show ?thesis using ret ap st by (simp add: load_deca_params_def Let_def)
    next
      case (Inr res)
      obtain arr_norm mn mx where res: "res = (arr_norm, mn, mx)" by (cases res) auto
      show ?thesis using ret ap st Inr res by (simp add: load_deca_params_def Let_def)
    qed
  qed
qed

lemma normalize_entry_kept:
  assumes names: "\<forall>p \<in> set paths.
                 replace_all ''.png'' ''.jpg'' (last_piece CHR ''_'' (last_piece CHR ''/'' p))
                   \<noteq> ''normalize''"
    and dp: "dp = uv_detail_normals_loop paths
                    (dict_set ''normalize'' [(''min_val'', Arr mn), (''max_val'', Arr mx)] swapped)"
  shows "dict_get dp ''normalize'' = Inr [(''min_val'', Arr mn), (''max_val'', Arr mx)]"
proof -
  have "map_of dp ''normalize''
        = map_of (dict_set ''normalize'' [(''min_val'', Arr mn), (''max_val'', Arr mx)] swapped)
            ''normalize''"
    unfolding dp using names by (rule uv_loop_other_key)
  also have "\<dots> = Some [(''min_val'', Arr mn), (''max_val'', Arr mx)]"
    by (simp only: map_of_dict_set simp_thms if_True)
  finally show ?thesis by (simp only: dict_get_def option.case)
qed


lemma normalize_row_in_range:
  assumes lv: "length v = length mn" and lmx: "length mx = length mn"
    and ord: "\<forall>j < length mn. mn ! j \<le> v ! j \<and> v ! j \<le> mx ! j \<and> mn ! j < mx ! j"
  shows "\<exists>w. normalize [v] (Some mn) (Some mx) (- bnd) bnd = Inr ([w], mn, mx) \<and>
             length w = length mn \<and>
             (\<forall>j < length mn. \<bar>w ! j\<bar> \<le> \<bar>bnd\<bar> \<and>
                               (0 \<le> bnd \<longrightarrow> - bnd \<le> w ! j \<and> w ! j \<le> bnd))"
proof -
  define w where "w = map (\<lambda>i. (bnd - (- bnd)) * (v ! i - mn ! i) / (mx ! i - mn ! i) + (- bnd))
                        [0..<length mn]"
  have rows: "\<forall>r \<in> set [v]. length r = length mn" using lv by simp
  have "normalize [v] (Some mn) (Some mx) (- bnd) bnd
          = Inr (map (\<lambda>r. map (\<lambda>i. (bnd - (- bnd)) * (r ! i - mn ! i) / (mx ! i - mn ! i) + (- bnd))
                            [0..<length mn]) [v], mn, mx)"
    using rows lmx by (rule normalize_rows)
  then have run: "normalize [v] (Some mn) (Some mx) (- bnd) bnd = Inr ([w], mn, mx)"
    unfolding w_def by (simp only: list.map)
  have lw: "length w = length mn" unfolding w_def by simp
  have bounds: "\<bar>w ! j\<bar> \<le> \<bar>bnd\<bar>" if j: "j < length mn" for j
  proof -
    have wj: "w ! j = (bnd - (- bnd)) * (v ! j - mn ! j) / (mx ! j - mn ! j) + (- bnd)"
      unfolding w_def using j by (simp only: nth_map_upt diff_zero add_0 length_upt) 
    from ord j have "mn ! j \<le> v ! j" "v ! j \<le> mx ! j" "mn ! j < mx ! j" by blast+
    then show ?thesis unfolding wj by (rule normalized_in_range)
  qed
  have "\<forall>j < length mn. \<bar>w ! j\<bar> \<le> \<bar>bnd\<bar> \<and> (0 \<le> bnd \<longrightarrow> - bnd \<le> w ! j \<and> w ! j \<le> bnd)"
  proof (intro allI impI conjI)
    fix j assume j: "j < length mn"
    show "\<bar>w ! j\<bar> \<le> \<bar>bnd\<bar>" using bounds [OF j] .
    assume "0 \<le> bnd"
    with bounds [OF j] show "- bnd \<le> w ! j" and "w ! j \<le> bnd" by linarith+
  qed
  with run lw show ?thesis by blast
qed


lemma load_deca_params_facts:
  assumes ret: "load_deca_params glob read_params deca_dir bnd = Inr dp"
    and png: "\<forall>p \<in> set (glob (deca_dir @ ''/uv_detail_normals/train/*.png'')).
                \<exists>stem. p = stem @ ''.png''"
  obtains all_params mn mx where
    "all_params_loop (swap_key (read_params_loop glob read_params deca_dir params_key []))
       (map fst (swap_key (read_params_loop glob read_params deca_dir params_key [])))
       = Inr all_params"
    and "all_params \<noteq> []"
    and "dp = uv_detail_normals_loop (glob (deca_dir @ ''/uv_detail_normals/train/*.png''))
                (dict_set ''normalize'' [(''min_val'', Arr mn), (''max_val'', Arr mx)]
                   (swap_key (read_params_loop glob read_params deca_dir params_key [])))"
    and "dict_get dp ''normalize'' = Inr [(''min_val'', Arr mn), (''max_val'', Arr mx)]"
    and "length mx = length mn"
    and "\<forall>v \<in> set all_params. length v = length mn"
    and "\<forall>j < length mn. mn ! j = Min ((\<lambda>v. v ! j) ` set all_params)"
    and "\<forall>j < length mn. mx ! j = Max ((\<lambda>v. v ! j) ` set all_params)"
    and "\<forall>v \<in> set all_params.
           (\<forall>j < length mn. mn ! j < mx ! j) \<longrightarrow>
           (\<exists>w. normalize [v] (Some mn) (Some mx) (- bnd) bnd = Inr ([w], mn, mx) \<and>
                length w = length mn \<and>
                (\<forall>j < length mn. \<bar>w ! j\<bar> \<le> \<bar>bnd\<bar> \<and>
                                  (0 \<le> bnd \<longrightarrow> - bnd \<le> w ! j \<and> w ! j \<le> bnd)))"
proof -
  define swapped where "swapped = swap_key (read_params_loop glob read_params deca_dir params_key [])"
  from load_deca_params_Inr [OF ret] obtain all_params stacked arr_norm mn mx where
    ap: "all_params_loop swapped (map fst swapped) = Inr all_params"
    and st: "np_stack all_params = Inr stacked"
    and nm: "normalize stacked None None (- bnd) bnd = Inr (arr_norm, mn, mx)"
    and dp: "dp = uv_detail_normals_loop (glob (deca_dir @ ''/uv_detail_normals/train/*.png''))
                    (dict_set ''normalize'' [(''min_val'', Arr mn), (''max_val'', Arr mx)] swapped)"
    unfolding swapped_def by blast
  define n where "n = length (hd all_params)"
  from np_stack_Inr [OF st] have stacked: "stacked = all_params" and ne: "all_params \<noteq> []"
    and len: "\<forall>v \<in> set all_params. length v = n"
    unfolding n_def by blast+
  from normalize_None_stats [OF nm] have smn: "np_min_axis0 all_params = Inr mn"
    and smx: "np_max_axis0 all_params = Inr mx" unfolding stacked by blast+
  from np_min_axis0_Min [OF smn len] have lmn: "length mn = n"
    and mn: "\<forall>j < n. mn ! j = Min ((\<lambda>v. v ! j) ` set all_params)" by blast+
  from np_max_axis0_Max [OF smx len] have lmx: "length mx = n"
    and mx: "\<forall>j < n. mx ! j = Max ((\<lambda>v. v ! j) ` set all_params)" by blast+
  have names: "\<forall>p \<in> set (glob (deca_dir @ ''/uv_detail_normals/train/*.png'')).
                 replace_all ''.png'' ''.jpg'' (last_piece CHR ''_'' (last_piece CHR ''/'' p))
                   \<noteq> ''normalize''"
  proof
    fix p assume "p \<in> set (glob (deca_dir @ ''/uv_detail_normals/train/*.png''))"
    with png have "\<exists>stem. p = stem @ ''.png''" by (rule bspec)
    then obtain stem where "p = stem @ ''.png''" by (rule exE)
    then show "replace_all ''.png'' ''.jpg'' (last_piece CHR ''_'' (last_piece CHR ''/'' p))
                   \<noteq> ''normalize''"
      by (rule uv_name_not_normalize)
  qed
  have stats: "dict_get dp ''normalize'' = Inr [(''min_val'', Arr mn), (''max_val'', Arr mx)]"
    using names dp by (rule normalize_entry_kept)
  have rng: "\<exists>w. normalize [v] (Some mn) (Some mx) (- bnd) bnd = Inr ([w], mn, mx) \<and>
                   length w = length mn \<and>
                   (\<forall>j < length mn. \<bar>w ! j\<bar> \<le> \<bar>bnd\<bar> \<and>
                                     (0 \<le> bnd \<longrightarrow> - bnd \<le> w ! j \<and> w ! j \<le> bnd))"
    if v: "v \<in> set all_params" and lt: "\<forall>j < length mn. mn ! j < mx ! j" for v
  proof (rule normalize_row_in_range)
    show "length v = length mn" using len v lmn by simp
    show "length mx = length mn" using lmn lmx by simp
    show "\<forall>j < length mn. mn ! j \<le> v ! j \<and> v ! j \<le> mx ! j \<and> mn ! j < mx ! j"
    proof (intro allI impI conjI)
      fix j assume j: "j < length mn"
      have fin: "finite ((\<lambda>v. v ! j) ` set all_params)" by simp
      have mem: "v ! j \<in> (\<lambda>v. v ! j) ` set all_params" using v by (rule imageI)
      have jn: "j < n" using j lmn by simp
      show "mn ! j \<le> v ! j" using mn jn Min_le [OF fin mem] by simp
      show "v ! j \<le> mx ! j" using mx jn Max_ge [OF fin mem] by simp
      show "mn ! j < mx ! j" using lt j by blast
    qed
  qed
  show thesis
  proof (rule that [of all_params mn mx])
    show "all_params_loop (swap_key (read_params_loop glob read_params deca_dir params_key []))
       (map fst (swap_key (read_params_loop glob read_params deca_dir params_key [])))
       = Inr all_params" using ap unfolding swapped_def .
    show "all_params \<noteq> []" by (rule ne)
    show "dp = uv_detail_normals_loop (glob (deca_dir @ ''/uv_detail_normals/train/*.png''))
                (dict_set ''normalize'' [(''min_val'', Arr mn), (''max_val'', Arr mx)]
                   (swap_key (read_params_loop glob read_params deca_dir params_key [])))"
      using dp unfolding swapped_def .
    show "dict_get dp ''normalize'' = Inr [(''min_val'', Arr mn), (''max_val'', Arr mx)]"
      by (rule stats)
    show "length mx = length mn" using lmn lmx by simp
    show "\<forall>v \<in> set all_params. length v = length mn" using len lmn by simp
    show "\<forall>j < length mn. mn ! j = Min ((\<lambda>v. v ! j) ` set all_params)" using mn lmn by simp
    show "\<forall>j < length mn. mx ! j = Max ((\<lambda>v. v ! j) ` set all_params)" using mx lmn by simp
    show "\<forall>v \<in> set all_params.
           (\<forall>j < length mn. mn ! j < mx ! j) \<longrightarrow>
           (\<exists>w. normalize [v] (Some mn) (Some mx) (- bnd) bnd = Inr ([w], mn, mx) \<and>
                length w = length mn \<and>
                (\<forall>j < length mn. \<bar>w ! j\<bar> \<le> \<bar>bnd\<bar> \<and>
                                  (0 \<le> bnd \<longrightarrow> - bnd \<le> w ! j \<and> w ! j \<le> bnd)))"
      using rng by blast
  qed
qed

lemma example_swapped:
  "swap_key (read_params_loop example_glob example_read_params ''deca'' params_key [])
   = [(''0.jpg'', [(''shape'', Arr [0, 2]), (''pose'', Arr [0]), (''exp'', Arr [3]), (''cam'', Arr [7])]),
      (''1.jpg'', [(''shape'', Arr [4, 1]), (''pose'', Arr [1]), (''exp'', Arr [5]), (''cam'', Arr [6])])]"
  by (simp add: params_key_def example_glob_def example_read_params_def swap_key_def
        dict_get_default_def)

lemma example_stats:
  "normalize [[0, 2, 0, 3, 7], [4, 1, 1, 5, 6]] None None (- bnd) bnd
   = Inr ([[- bnd, bnd, - bnd, - bnd, bnd], [bnd, - bnd, bnd, bnd, - bnd]],
          [0, 1, 0, 3, 6], [4, 2, 1, 5, 7])"
  by (simp add: normalize_def np_max_axis0_def np_min_axis0_def broadcast_def)

lemma example_uv_names:
  "replace_all ''.png'' ''.jpg''
     (last_piece CHR ''_'' (last_piece CHR ''/'' ''deca/uv_detail_normals/train/uvdn_0.png''))
   = ''0.jpg''"
  "replace_all ''.png'' ''.jpg''
     (last_piece CHR ''_'' (last_piece CHR ''/'' ''deca/uv_detail_normals/train/uvdn_1.png''))
   = ''1.jpg''"
  by (simp_all add: last_piece_def replace_all.simps)

lemma example_load_deca_params:
  "load_deca_params example_glob example_read_params ''deca'' bnd = Inr example_deca_params"
  unfolding load_deca_params_def Let_def example_swapped
  by (simp add: params_key_def dict_get_default_def dict_get_def np_concatenate_def
        np_stack_def example_stats example_glob_def example_uv_names example_deca_params_def)

text \<open>
  The rounding of \<open>fl64\<close> at the numbers of the run below. The exponent of a number
  is found from the two powers of two around it.
\<close>

lemma fl64_normal:
  assumes "2 powr of_int k \<le> \<bar>x\<bar>" and "\<bar>x\<bar> < 2 powr of_int (k + 1)" and "- 1022 \<le> k"
  shows "fl64 x =
           (if (2::real) ^ 1024 \<le> \<bar>of_int (rne (x / 2 powr of_int (k - 52))) * 2 powr of_int (k - 52)\<bar>
            then (if 0 < x then PosInf else NegInf)
            else Finite (of_int (rne (x / 2 powr of_int (k - 52))) * 2 powr of_int (k - 52)))"
proof -
  have "(0::real) < 2 powr of_int k" by simp
  with assms(1) have pos: "0 < \<bar>x\<bar>" by linarith
  have "\<lfloor>log 2 \<bar>x\<bar>\<rfloor> = k"
    using assms(1,2) pos by (subst floor_log_eq_powr_iff) simp_all
  then have e: "max \<lfloor>log 2 \<bar>x\<bar>\<rfloor> (- 1022) = k" using assms(3) by simp
  have nz: "x \<noteq> 0" using pos by simp
  show ?thesis unfolding fl64_def Let_def e using nz by simp
qed

lemma fl64_6: "fl64 6 = Finite 6"
  by (subst fl64_normal [where k = 2]) (simp_all add: rne_def powr_minus)

lemma fl64_1: "fl64 1 = Finite 1"
  by (subst fl64_normal [where k = 0]) (simp_all add: rne_def powr_minus)

lemma fl64_3: "fl64 3 = Finite 3"
  by (subst fl64_normal [where k = 1]) (simp_all add: rne_def powr_minus)

lemma fl64_minus_3: "fl64 (- 3) = Finite (- 3)"
  by (subst fl64_normal [where k = 1]) (simp_all add: rne_def powr_minus)

lemma fl64_tenth: "fl64 tenth = Finite tenth"
  unfolding tenth_def
  by (subst fl64_normal [where k = "- 4"]) (simp_all add: rne_def powr_minus)

lemma tenth_times_6:
  "f64_mul (Finite 6) (Finite tenth) = Finite (1351079888211149 / 2251799813685248)"
proof -
  have "fl64 (6 * tenth) = Finite (1351079888211149 / 2251799813685248)"
    unfolding tenth_def
    by (subst fl64_normal [where k = "- 1"]) (simp_all add: rne_def powr_minus)
  then show ?thesis by simp
qed

lemma tenth_quotient:
  "f64_div (Finite (1351079888211149 / 2251799813685248)) (Finite tenth)
   = Finite (6755399441055745 / 1125899906842624)"
proof -
  have "fl64 (1351079888211149 / 2251799813685248 / tenth)
        = Finite (6755399441055745 / 1125899906842624)"
    unfolding tenth_def
    by (subst fl64_normal [where k = 2]) (simp_all add: rne_def powr_minus)
  moreover have "tenth \<noteq> 0" by (simp add: tenth_def)
  ultimately show ?thesis by (simp only: f64_div.simps if_False)
qed

lemma tenth_sum:
  "f64_add (Finite (6755399441055745 / 1125899906842624)) (Finite (- 3))
   = Finite (3377699720527873 / 1125899906842624)"
proof -
  have "fl64 (6755399441055745 / 1125899906842624 + - 3)
        = Finite (3377699720527873 / 1125899906842624)"
    by (subst fl64_normal [where k = 1]) (simp_all add: rne_def powr_minus)
  then show ?thesis by (simp only: f64_add.simps)
qed

lemma one_times_6: "f64_mul (Finite 6) (Finite 1) = Finite 6"
  by (simp add: fl64_6)

lemma one_quotient: "f64_div (Finite 6) (Finite 1) = Finite 6"
  by (simp add: fl64_6)

lemma one_sum: "f64_add (Finite 6) (Finite (- 3)) = Finite 3"
  by (simp add: fl64_3)

lemma tenth_swapped:
  "swap_key (read_params_loop example_glob tenth_read_params ''deca'' params_key [])
   = [(''0.jpg'', [(''shape'', Arr [0]), (''pose'', Arr [0]), (''exp'', Arr [0]), (''cam'', Arr [0])]),
      (''1.jpg'', [(''shape'', Arr [tenth]), (''pose'', Arr [1]), (''exp'', Arr [1]), (''cam'', Arr [1])])]"
  by (simp add: params_key_def example_glob_def tenth_read_params_def swap_key_def
        dict_get_default_def)

lemma tenth_pos: "0 < tenth" "0 \<le> tenth"
  by (simp_all add: tenth_def)

lemma tenth_stats:
  "normalize [[0, 0, 0, 0], [tenth, 1, 1, 1]] None None (- bnd) bnd
   = Inr ([[- bnd, - bnd, - bnd, - bnd], [bnd, bnd, bnd, bnd]],
          [0, 0, 0, 0], [tenth, 1, 1, 1])"
  using tenth_pos
  by (simp add: normalize_def np_max_axis0_def np_min_axis0_def broadcast_def max_def min_def)

lemma tenth_load_deca_params:
  "load_deca_params example_glob tenth_read_params ''deca'' bnd =
     Inr [(''0.jpg'', [(''shape'', Arr [0]), (''pose'', Arr [0]), (''exp'', Arr [0]),
                       (''cam'', Arr [0]),
                       (''uv_detail_normals'', Path ''deca/uv_detail_normals/train/uvdn_0.png'')]),
          (''1.jpg'', [(''shape'', Arr [tenth]), (''pose'', Arr [1]), (''exp'', Arr [1]),
                       (''cam'', Arr [1]),
                       (''uv_detail_normals'', Path ''deca/uv_detail_normals/train/uvdn_1.png'')]),
          (''normalize'', [(''min_val'', Arr [0, 0, 0, 0]), (''max_val'', Arr [tenth, 1, 1, 1])])]"
  unfolding load_deca_params_def Let_def tenth_swapped
  by (simp add: params_key_def dict_get_default_def dict_get_def np_concatenate_def
        np_stack_def tenth_stats example_glob_def example_uv_names)

lemma tenth_normalize_f64:
  "normalize_f64 [[tenth, 1, 1, 1]] [0, 0, 0, 0] [tenth, 1, 1, 1] (- 3) 3
   = Inr [[Finite (3 + 1 / 2 ^ 50), Finite 3, Finite 3, Finite 3]]"
  by (simp add: normalize_f64_def broadcast_def fl64_1 fl64_6 fl64_minus_3 fl64_tenth
        tenth_times_6 tenth_quotient tenth_sum one_times_6 one_quotient one_sum
      del: f64_mul.simps f64_div.simps f64_add.simps)

text \<open>
  The error of one rounding. A real of magnitude in \<open>[2^-1022, 2^1023)\<close> is rounded to
  a finite number with a relative error of at most \<open>2^-53\<close>; a smaller one to a finite
  number of magnitude at most \<open>2^-1022\<close>.
\<close>

lemma rne_error: "\<bar>of_int (rne y) - y\<bar> \<le> 1 / 2"
proof -
  have "of_int \<lfloor>y\<rfloor> \<le> y" "y < of_int \<lfloor>y\<rfloor> + 1" by linarith+
  then show ?thesis unfolding rne_def Let_def by (auto simp: abs_le_iff)
qed

lemma rne_bound:
  assumes "\<bar>z\<bar> \<le> of_int n"
  shows "\<bar>rne z\<bar> \<le> n"
proof -
  have lo: "- n \<le> \<lfloor>z\<rfloor>" using assms by (auto simp: le_floor_iff abs_le_iff)
  have hi: "\<lfloor>z\<rfloor> \<le> n" using assms by (auto simp: floor_le_iff abs_le_iff)
  have hi': "\<lfloor>z\<rfloor> + 1 \<le> n" if "of_int \<lfloor>z\<rfloor> < z"
  proof -
    have "of_int \<lfloor>z\<rfloor> < (of_int n :: real)" using that assms by linarith
    then have "\<lfloor>z\<rfloor> < n" by simp
    then show ?thesis by simp
  qed
  show ?thesis unfolding rne_def Let_def using lo hi hi'
    by (auto simp: abs_le_iff) 
qed

lemma fl64_rel:
  assumes lo: "1 / 2 ^ 1022 \<le> \<bar>x\<bar>" and hi: "\<bar>x\<bar> < 2 ^ 1023"
  obtains y where "fl64 x = Finite y" and "\<bar>y - x\<bar> \<le> \<bar>x\<bar> / 2 ^ 53"
proof -
  have "(0::real) < 1 / 2 ^ 1022" by simp
  with lo have pos: "0 < \<bar>x\<bar>" by linarith
  then have nz: "x \<noteq> 0" by simp
  define e where "e = \<lfloor>log 2 \<bar>x\<bar>\<rfloor>"
  have "2 powr (- 1022) \<le> \<bar>x\<bar>" using lo by (simp add: powr_minus inverse_eq_divide)
  then have "- 1022 \<le> log 2 \<bar>x\<bar>" using pos by (simp add: le_log_iff)
  then have e1022: "- 1022 \<le> e" unfolding e_def by (simp add: le_floor_iff)
  have "of_int e \<le> log 2 \<bar>x\<bar>" unfolding e_def by simp
  then have pe: "2 powr of_int e \<le> \<bar>x\<bar>" using pos by (simp add: le_log_iff)
  define ulp :: real where "ulp = 2 powr of_int (e - 52)"
  have ulp_pos: "0 < ulp" unfolding ulp_def by simp
  have ulp_eq: "ulp = 2 powr of_int e / 2 ^ 52"
    unfolding ulp_def by (simp add: powr_diff)
  define y where "y = of_int (rne (x / ulp)) * ulp"
  have "y - x = (of_int (rne (x / ulp)) - x / ulp) * ulp"
    unfolding y_def using ulp_pos by (simp add: field_simps)
  then have "\<bar>y - x\<bar> = \<bar>of_int (rne (x / ulp)) - x / ulp\<bar> * ulp"
    using ulp_pos by (simp add: abs_mult)
  also have "\<dots> \<le> (1 / 2) * ulp"
    using rne_error [of "x / ulp"] ulp_pos by (intro mult_right_mono) simp_all
  also have "\<dots> = 2 powr of_int e / 2 ^ 53" unfolding ulp_eq by simp
  also have "\<dots> \<le> \<bar>x\<bar> / 2 ^ 53" using pe by (simp add: divide_right_mono)
  finally have err: "\<bar>y - x\<bar> \<le> \<bar>x\<bar> / 2 ^ 53" .
  have "\<bar>y\<bar> \<le> \<bar>x\<bar> + \<bar>x\<bar> / 2 ^ 53" using err by linarith
  also have "\<dots> \<le> \<bar>x\<bar> + \<bar>x\<bar>" by (simp add: field_simps)
  also have "\<dots> < 2 ^ 1024" using hi by simp
  finally have fin: "\<not> 2 ^ 1024 \<le> \<bar>y\<bar>" by simp
  have emax: "max \<lfloor>log 2 \<bar>x\<bar>\<rfloor> (- 1022) = e" using e1022 unfolding e_def by simp
  have "fl64 x = Finite y"
    unfolding fl64_def Let_def emax using nz fin unfolding y_def ulp_def by simp
  then show thesis using err by (rule that)
qed

lemma fl64_small:
  assumes "\<bar>x\<bar> < 1 / 2 ^ 1022"
  obtains y where "fl64 x = Finite y" and "\<bar>y\<bar> \<le> 1 / 2 ^ 1022"
proof (cases "x = 0")
  case True
  then have "fl64 x = Finite 0" by (simp add: fl64_def)
  then show thesis by (rule that) simp
next
  case False
  then have pos: "0 < \<bar>x\<bar>" by simp
  have "\<bar>x\<bar> < 2 powr (- 1022)" using assms by (simp add: powr_minus inverse_eq_divide)
  then have "log 2 \<bar>x\<bar> < - 1022" using pos by (simp add: log_less_iff)
  then have "\<lfloor>log 2 \<bar>x\<bar>\<rfloor> < - 1022" by (simp add: floor_less_iff)
  then have e: "max \<lfloor>log 2 \<bar>x\<bar>\<rfloor> (- 1022) = - 1022" by simp
  define ulp :: real where "ulp = 1 / 2 ^ 1074"
  have ulp: "2 powr of_int (- 1022 - 52) = ulp"
    unfolding ulp_def by (simp add: powr_minus inverse_eq_divide)
  have ulp_pos: "0 < ulp" unfolding ulp_def by simp
  have "\<bar>x / ulp\<bar> = \<bar>x\<bar> * 2 ^ 1074" unfolding ulp_def by (simp add: abs_mult)
  also have "\<dots> \<le> (1 / 2 ^ 1022) * 2 ^ 1074" using assms by (intro mult_right_mono) simp_all
  also have "\<dots> = of_int (2 ^ 52)" by simp
  finally have "\<bar>rne (x / ulp)\<bar> \<le> 2 ^ 52" by (rule rne_bound)
  then have "\<bar>of_int (rne (x / ulp)) :: real\<bar> \<le> of_int (2 ^ 52)"
    by (metis of_int_abs of_int_le_iff)
  then have r: "\<bar>of_int (rne (x / ulp)) :: real\<bar> \<le> 2 ^ 52" by simp
  define y where "y = of_int (rne (x / ulp)) * ulp"
  have "\<bar>y\<bar> = \<bar>of_int (rne (x / ulp)) :: real\<bar> * ulp"
    unfolding y_def using ulp_pos by (simp add: abs_mult)
  also have "\<dots> \<le> 2 ^ 52 * ulp" using r ulp_pos by (intro mult_right_mono) simp_all
  also have "\<dots> = 1 / 2 ^ 1022" unfolding ulp_def by simp
  finally have small: "\<bar>y\<bar> \<le> 1 / 2 ^ 1022" .
  have "(1::real) / 2 ^ 1022 < 2 ^ 1024" by simp
  with small have fin: "\<not> 2 ^ 1024 \<le> \<bar>y\<bar>" by linarith
  have "fl64 x = Finite y"
    unfolding fl64_def Let_def e ulp using False fin by (simp add: y_def [symmetric])
  then show thesis using small by (rule that)
qed


lemma fl64_pos:
  assumes "1 / 2 ^ 1022 \<le> x" and "x < 2 ^ 1023"
  obtains y where "fl64 x = Finite y" and "x * (1 - 1 / 2 ^ 53) \<le> y"
    and "y \<le> x * (1 + 1 / 2 ^ 53)"
proof -
  have "(0::real) < 1 / 2 ^ 1022" by simp
  with assms(1) have x: "0 < x" by linarith
  then have ax: "\<bar>x\<bar> = x" by simp
  from assms have "1 / 2 ^ 1022 \<le> \<bar>x\<bar>" "\<bar>x\<bar> < 2 ^ 1023" unfolding ax .
  then obtain y where y: "fl64 x = Finite y" and err: "\<bar>y - x\<bar> \<le> \<bar>x\<bar> / 2 ^ 53"
    by (rule fl64_rel)
  from err have "x - x / 2 ^ 53 \<le> y" "y \<le> x + x / 2 ^ 53" unfolding ax by linarith+
  then have "x * (1 - 1 / 2 ^ 53) \<le> y" "y \<le> x * (1 + 1 / 2 ^ 53)"
    by (simp_all add: algebra_simps)
  with y show thesis by (rule that)
qed

lemma fl64_finite:
  assumes "\<bar>x\<bar> < 2 ^ 1023"
  obtains y where "fl64 x = Finite y"
    and "\<bar>y\<bar> \<le> max (\<bar>x\<bar> * (1 + 1 / 2 ^ 53)) (1 / 2 ^ 1022)"
proof (cases "\<bar>x\<bar> < 1 / 2 ^ 1022")
  case True
  then obtain y where y: "fl64 x = Finite y" and "\<bar>y\<bar> \<le> 1 / 2 ^ 1022" by (rule fl64_small)
  then have "\<bar>y\<bar> \<le> max (\<bar>x\<bar> * (1 + 1 / 2 ^ 53)) (1 / 2 ^ 1022)" by simp
  with y show thesis by (rule that)
next
  case False
  then have "1 / 2 ^ 1022 \<le> \<bar>x\<bar>" by simp
  then obtain y where y: "fl64 x = Finite y" and err: "\<bar>y - x\<bar> \<le> \<bar>x\<bar> / 2 ^ 53"
    using assms by (rule fl64_rel)
  from err have "\<bar>y\<bar> \<le> \<bar>x\<bar> + \<bar>x\<bar> / 2 ^ 53" by linarith
  then have "\<bar>y\<bar> \<le> \<bar>x\<bar> * (1 + 1 / 2 ^ 53)" by (simp add: algebra_simps)
  then have "\<bar>y\<bar> \<le> max (\<bar>x\<bar> * (1 + 1 / 2 ^ 53)) (1 / 2 ^ 1022)" by simp
  with y show thesis by (rule that)
qed

text \<open>
  The roundings of line 50 in one coordinate, for a bound, a range
  \<open>max_val - min_val\<close> and a nonzero difference \<open>v - min_val\<close> between \<open>2^-100\<close> and
  \<open>2^100\<close>, which keeps every intermediate result clear of overflow and of the
  subnormal numbers: the quotient is at most \<open>2 * bound * (1 + 2^-53)^4 / (1 - 2^-53)\<close>,
  and the result has magnitude at most \<open>bound * (1 + 2^-49)\<close>.
\<close>

lemma line50_quotient:
  fixes v mn mx bnd c D :: real
  assumes ord: "mn \<le> v" "v \<le> mx"
    and d2lo: "1 / 2 ^ 100 \<le> mx - mn" and d2hi: "mx - mn \<le> 2 ^ 100"
    and d1: "v = mn \<or> 1 / 2 ^ 100 \<le> v - mn"
    and blo: "1 / 2 ^ 100 \<le> bnd" and bhi: "bnd \<le> 2 ^ 100"
    and clo: "(2 * bnd) * (1 - 1 / 2 ^ 53) \<le> c" and chi: "c \<le> (2 * bnd) * (1 + 1 / 2 ^ 53)"
    and Dlo: "(mx - mn) * (1 - 1 / 2 ^ 53) \<le> D" and Dhi: "D \<le> (mx - mn) * (1 + 1 / 2 ^ 53)"
  shows "\<exists>q. f64_div (f64_mul (Finite c) (fl64 (v - mn))) (Finite D) = Finite q \<and>
             0 \<le> q \<and> q \<le> 2 * bnd * (1 + 1 / 2 ^ 53) ^ 4 / (1 - 1 / 2 ^ 53)"
proof -
  define x1 :: real where "x1 = 1 - 1 / 2 ^ 53"
  define x2 :: real where "x2 = 1 + 1 / 2 ^ 53"
  have x1: "0 < x1" and x2: "0 < x2" "1 \<le> x2" unfolding x1_def x2_def by simp_all
  have "(0::real) < 1 / 2 ^ 100" by simp
  with blo d2lo have bpos: "0 < bnd" and d2pos: "0 < mx - mn" by linarith+
  have Dpos: "0 < D"
  proof -
    have "0 < (mx - mn) * x1" using d2pos x1 by simp
    with Dlo show ?thesis unfolding x1_def by linarith
  qed
  have cpos: "0 < c"
  proof -
    have "0 < (2 * bnd) * x1" using bpos x1 by simp
    with clo show ?thesis unfolding x1_def by linarith
  qed
  have Qpos: "0 \<le> 2 * bnd * x2 ^ 4 / x1" using bpos x1 x2 by simp
  show ?thesis
  proof (cases "v = mn")
    case True
    have "f64_div (f64_mul (Finite c) (fl64 (v - mn))) (Finite D) = Finite 0"
      using True Dpos by (simp add: fl64_def)
    with Qpos show ?thesis unfolding x1_def x2_def by simp
  next
    case False
    with d1 have d1lo: "1 / 2 ^ 100 \<le> v - mn" by simp
    have d1d2: "v - mn \<le> mx - mn" using ord by simp
    have d1hi: "v - mn \<le> 2 ^ 100" using d1d2 d2hi by simp
    have n1: "(1::real) / 2 ^ 1022 \<le> 1 / 2 ^ 100" and n2: "(2::real) ^ 100 < 2 ^ 1023"
      by simp_all
    have "1 / 2 ^ 1022 \<le> v - mn" "v - mn < 2 ^ 1023" using d1lo d1hi n1 n2 by linarith+
    then obtain N where N: "fl64 (v - mn) = Finite N"
      and Nlo: "(v - mn) * x1 \<le> N" and Nhi: "N \<le> (v - mn) * x2"
      unfolding x1_def x2_def by (rule fl64_pos)
    have Nlo': "1 / 2 ^ 100 * x1 \<le> N"
    proof -
      have "1 / 2 ^ 100 * x1 \<le> (v - mn) * x1" using d1lo x1 by (intro mult_right_mono) simp_all
      with Nlo show ?thesis by simp
    qed
    have Npos: "0 < N"
    proof -
      have "0 < 1 / 2 ^ 100 * x1" using x1 by simp
      with Nlo' show ?thesis by linarith
    qed
    have Nhi': "N \<le> 2 ^ 100 * x2"
    proof -
      have "(v - mn) * x2 \<le> 2 ^ 100 * x2" using d1hi x2 by (intro mult_right_mono) simp_all
      with Nhi show ?thesis by simp
    qed
    have Nhi2: "N \<le> (mx - mn) * x2"
    proof -
      have "(v - mn) * x2 \<le> (mx - mn) * x2" using d1d2 x2 by (intro mult_right_mono) simp_all
      with Nhi show ?thesis by simp
    qed
    have clo': "2 / 2 ^ 100 * x1 \<le> c"
    proof -
      have "2 / 2 ^ 100 * x1 \<le> (2 * bnd) * x1" using blo x1 by (intro mult_right_mono) simp_all
      with clo show ?thesis unfolding x1_def by simp
    qed
    have chi': "c \<le> 2 * 2 ^ 100 * x2"
    proof -
      have "(2 * bnd) * x2 \<le> 2 * 2 ^ 100 * x2" using bhi x2 by (intro mult_right_mono) simp_all
      with chi show ?thesis unfolding x2_def by simp
    qed
    have chi2: "c \<le> (2 * bnd) * x2" using chi unfolding x2_def .
    have Dhi': "D \<le> 2 ^ 100 * x2"
    proof -
      have "(mx - mn) * x2 \<le> 2 ^ 100 * x2" using d2hi x2 by (intro mult_right_mono) simp_all
      with Dhi show ?thesis unfolding x2_def by simp
    qed
    have Dlo2: "(mx - mn) * x1 \<le> D" using Dlo unfolding x1_def .
    have Dlo': "1 / 2 ^ 100 * x1 \<le> D"
    proof -
      have "1 / 2 ^ 100 * x1 \<le> (mx - mn) * x1" using d2lo x1 by (intro mult_right_mono) simp_all
      with Dlo2 show ?thesis by simp
    qed
    have cNlo: "(2 / 2 ^ 100 * x1) * (1 / 2 ^ 100 * x1) \<le> c * N"
      using clo' Nlo' x1 by (intro mult_mono) simp_all
    have cNhi: "c * N \<le> (2 * 2 ^ 100 * x2) * (2 ^ 100 * x2)"
      using chi' Nhi' x2 Npos by (intro mult_mono) simp_all
    have cNhi2: "c * N \<le> ((2 * bnd) * x2) * ((mx - mn) * x2)"
      using chi2 Nhi2 x2 Npos bpos by (intro mult_mono) simp_all
    have n3: "(1::real) / 2 ^ 1022 \<le> (2 / 2 ^ 100 * x1) * (1 / 2 ^ 100 * x1)"
      unfolding x1_def by simp
    have n4: "(2 * 2 ^ 100 * x2) * (2 ^ 100 * x2) < (2::real) ^ 1023"
      unfolding x2_def by simp
    have "1 / 2 ^ 1022 \<le> c * N" "c * N < 2 ^ 1023" using cNlo cNhi n3 n4 by linarith+
    then obtain p where p: "fl64 (c * N) = Finite p"
      and plo: "(c * N) * x1 \<le> p" and phi: "p \<le> (c * N) * x2"
      unfolding x1_def x2_def by (rule fl64_pos)
    have plo': "(2 / 2 ^ 100 * x1) * (1 / 2 ^ 100 * x1) * x1 \<le> p"
    proof -
      have "(2 / 2 ^ 100 * x1) * (1 / 2 ^ 100 * x1) * x1 \<le> (c * N) * x1"
        using cNlo x1 by (intro mult_right_mono) simp_all
      with plo show ?thesis by simp
    qed
    have ppos: "0 < p"
    proof -
      have "0 < (2 / 2 ^ 100 * x1) * (1 / 2 ^ 100 * x1) * x1" using x1 by simp
      with plo' show ?thesis by linarith
    qed
    have phi': "p \<le> (2 * 2 ^ 100 * x2) * (2 ^ 100 * x2) * x2"
    proof -
      have "(c * N) * x2 \<le> (2 * 2 ^ 100 * x2) * (2 ^ 100 * x2) * x2"
        using cNhi x2 by (intro mult_right_mono) simp_all
      with phi show ?thesis by simp
    qed
    have phi2: "p \<le> ((2 * bnd) * x2) * ((mx - mn) * x2) * x2"
    proof -
      have "(c * N) * x2 \<le> ((2 * bnd) * x2) * ((mx - mn) * x2) * x2"
        using cNhi2 x2 by (intro mult_right_mono) simp_all
      with phi show ?thesis by simp
    qed
    have pDlo: "(2 / 2 ^ 100 * x1) * (1 / 2 ^ 100 * x1) * x1 / (2 ^ 100 * x2) \<le> p / D"
      using plo' Dhi' Dpos ppos x1 by (intro frac_le) simp_all
    have pDhi: "p / D \<le> (2 * 2 ^ 100 * x2) * (2 ^ 100 * x2) * x2 / (1 / 2 ^ 100 * x1)"
      using phi' Dlo' ppos x1 by (intro frac_le) simp_all
    have pDhi2: "p / D \<le> ((2 * bnd) * x2) * ((mx - mn) * x2) * x2 / ((mx - mn) * x1)"
    proof (rule frac_le)
      show "0 \<le> ((2 * bnd) * x2) * ((mx - mn) * x2) * x2" using ppos phi2 by linarith
      show "p \<le> ((2 * bnd) * x2) * ((mx - mn) * x2) * x2" by (rule phi2)
      show "0 < (mx - mn) * x1" using d2pos x1 by simp
      show "(mx - mn) * x1 \<le> D" by (rule Dlo2)
    qed
    have n5: "(1::real) / 2 ^ 1022 \<le> (2 / 2 ^ 100 * x1) * (1 / 2 ^ 100 * x1) * x1 / (2 ^ 100 * x2)"
      unfolding x1_def x2_def by simp
    have n6: "(2 * 2 ^ 100 * x2) * (2 ^ 100 * x2) * x2 / (1 / 2 ^ 100 * x1) < (2::real) ^ 1023"
      unfolding x1_def x2_def by simp
    have "1 / 2 ^ 1022 \<le> p / D" "p / D < 2 ^ 1023" using pDlo pDhi n5 n6 by linarith+
    then obtain q where q: "fl64 (p / D) = Finite q"
      and qlo: "(p / D) * x1 \<le> q" and qhi: "q \<le> (p / D) * x2"
      unfolding x1_def x2_def by (rule fl64_pos)
    have "0 \<le> (p / D) * x1" using ppos Dpos x1 by simp
    with qlo have q0: "0 \<le> q" by linarith
    have "((2 * bnd) * x2) * ((mx - mn) * x2) * x2 / ((mx - mn) * x1) = 2 * bnd * x2 ^ 3 / x1"
      using d2pos x1 by (simp add: field_simps power3_eq_cube)
    with pDhi2 have "p / D \<le> 2 * bnd * x2 ^ 3 / x1" by simp
    then have "(p / D) * x2 \<le> (2 * bnd * x2 ^ 3 / x1) * x2"
      using x2 by (intro mult_right_mono) simp_all
    also have "\<dots> = 2 * bnd * x2 ^ 4 / x1" by (simp add: power4_eq_xxxx power3_eq_cube)
    finally have "q \<le> 2 * bnd * x2 ^ 4 / x1" using qhi by linarith
    moreover have "f64_div (f64_mul (Finite c) (fl64 (v - mn))) (Finite D) = Finite q"
      using N p q Dpos by simp
    ultimately show ?thesis using q0 unfolding x1_def x2_def by blast
  qed
qed


lemma line50_tolerance:
  fixes v mn mx bnd :: real
  assumes ord: "mn \<le> v" "v \<le> mx"
    and d2lo: "1 / 2 ^ 100 \<le> mx - mn" and d2hi: "mx - mn \<le> 2 ^ 100"
    and d1: "v = mn \<or> 1 / 2 ^ 100 \<le> v - mn"
    and blo: "1 / 2 ^ 100 \<le> bnd" and bhi: "bnd \<le> 2 ^ 100"
  shows "\<exists>r. f64_add (f64_div (f64_mul (fl64 (bnd - - bnd)) (fl64 (v - mn))) (fl64 (mx - mn)))
               (fl64 (- bnd)) = Finite r \<and>
             \<bar>r\<bar> \<le> bnd * (1 + 1 / 2 ^ 49)"
proof -
  define M :: real where "M = 2 * (1 + 1 / 2 ^ 53) ^ 4 / (1 - 1 / 2 ^ 53) - (1 - 1 / 2 ^ 53)"
  have M1: "1 + 1 / 2 ^ 53 \<le> M" and M2: "M * (1 + 1 / 2 ^ 53) \<le> 1 + 1 / 2 ^ 49"
    and M3: "2 ^ 100 * M < 2 ^ 1023" and M0: "0 \<le> M"
    unfolding M_def by (simp_all add: power_divide)
  have n1: "(1::real) / 2 ^ 1022 \<le> 1 / 2 ^ 100" and n2: "(2::real) * 2 ^ 100 < 2 ^ 1023"
    and n3: "(2::real) ^ 100 < 2 ^ 1023" and n0: "(0::real) < 1 / 2 ^ 100"
    by simp_all
  have bpos: "0 < bnd" using blo n0 by linarith
  have "1 / 2 ^ 1022 \<le> bnd - - bnd" "bnd - - bnd < 2 ^ 1023" using blo bhi bpos n1 n2 by linarith+
  then obtain c where c: "fl64 (bnd - - bnd) = Finite c"
    and "(bnd - - bnd) * (1 - 1 / 2 ^ 53) \<le> c" and "c \<le> (bnd - - bnd) * (1 + 1 / 2 ^ 53)"
    by (rule fl64_pos)
  then have clo: "(2 * bnd) * (1 - 1 / 2 ^ 53) \<le> c" and chi: "c \<le> (2 * bnd) * (1 + 1 / 2 ^ 53)"
    by simp_all
  have "1 / 2 ^ 1022 \<le> mx - mn" "mx - mn < 2 ^ 1023" using d2lo d2hi n1 n3 by linarith+
  then obtain D where D: "fl64 (mx - mn) = Finite D"
    and Dlo: "(mx - mn) * (1 - 1 / 2 ^ 53) \<le> D" and Dhi: "D \<le> (mx - mn) * (1 + 1 / 2 ^ 53)"
    by (rule fl64_pos)
  have "1 / 2 ^ 1022 \<le> \<bar>- bnd\<bar>" "\<bar>- bnd\<bar> < 2 ^ 1023" using blo bhi bpos n1 n3 by simp_all
  then obtain a' where a': "fl64 (- bnd) = Finite a'"
    and aerr: "\<bar>a' - (- bnd)\<bar> \<le> \<bar>- bnd\<bar> / 2 ^ 53"
    by (rule fl64_rel)
  have ab: "\<bar>- bnd\<bar> = bnd" using bpos by simp
  from aerr have "- bnd - bnd / 2 ^ 53 \<le> a'" "a' \<le> - bnd + bnd / 2 ^ 53"
    unfolding ab by linarith+
  then have alo: "- (bnd * (1 + 1 / 2 ^ 53)) \<le> a'" and ahi: "a' \<le> - (bnd * (1 - 1 / 2 ^ 53))"
    by (simp_all add: algebra_simps)
  from line50_quotient [OF ord d2lo d2hi d1 blo bhi clo chi Dlo Dhi]
  obtain q where q: "f64_div (f64_mul (Finite c) (fl64 (v - mn))) (Finite D) = Finite q"
    and q0: "0 \<le> q" and qhi: "q \<le> 2 * bnd * (1 + 1 / 2 ^ 53) ^ 4 / (1 - 1 / 2 ^ 53)"
    by blast
  have "bnd * M = 2 * bnd * (1 + 1 / 2 ^ 53) ^ 4 / (1 - 1 / 2 ^ 53) - bnd * (1 - 1 / 2 ^ 53)"
    unfolding M_def by (simp add: algebra_simps)
  with qhi ahi have s_hi: "q + a' \<le> bnd * M" by linarith
  have "bnd * (1 + 1 / 2 ^ 53) \<le> bnd * M" using M1 bpos by (intro mult_left_mono) simp_all
  with q0 alo have s_lo: "- (bnd * M) \<le> q + a'" by linarith
  from s_hi s_lo have s: "\<bar>q + a'\<bar> \<le> bnd * M" by (simp add: abs_le_iff)
  have "bnd * M \<le> 2 ^ 100 * M" using bhi M0 by (intro mult_right_mono) simp_all
  with s M3 have "\<bar>q + a'\<bar> < 2 ^ 1023" by linarith
  then obtain r where r: "fl64 (q + a') = Finite r"
    and rb: "\<bar>r\<bar> \<le> max (\<bar>q + a'\<bar> * (1 + 1 / 2 ^ 53)) (1 / 2 ^ 1022)"
    by (rule fl64_finite)
  have "\<bar>q + a'\<bar> * (1 + 1 / 2 ^ 53) \<le> (bnd * M) * (1 + 1 / 2 ^ 53)"
    using s by (intro mult_right_mono) simp_all
  also have "\<dots> = bnd * (M * (1 + 1 / 2 ^ 53))" by simp
  also have "\<dots> \<le> bnd * (1 + 1 / 2 ^ 49)" using M2 bpos by (intro mult_left_mono) simp_all
  finally have b1: "\<bar>q + a'\<bar> * (1 + 1 / 2 ^ 53) \<le> bnd * (1 + 1 / 2 ^ 49)" .
  have "bnd * 1 \<le> bnd * (1 + 1 / 2 ^ 49)" using bpos by (intro mult_left_mono) simp_all
  with blo n1 have b2: "1 / 2 ^ 1022 \<le> bnd * (1 + 1 / 2 ^ 49)" by linarith
  from rb b1 b2 have "\<bar>r\<bar> \<le> bnd * (1 + 1 / 2 ^ 49)" by (simp add: max_def split: if_splits)
  moreover have "f64_add (f64_div (f64_mul (fl64 (bnd - - bnd)) (fl64 (v - mn))) (fl64 (mx - mn)))
               (fl64 (- bnd)) = Finite r"
    unfolding c D a' q using r by simp
  ultimately show ?thesis by blast
qed


lemma normalize_f64_row:
  assumes lv: "length v = length mn" and lmx: "length mx = length mn"
  shows "normalize_f64 [v] mn mx a b =
           Inr [map (\<lambda>i. f64_add (f64_div (f64_mul (fl64 (b - a)) (fl64 (v ! i - mn ! i)))
                                     (fl64 (mx ! i - mn ! i))) (fl64 a))
                   [0..<length mn]]"
proof -
  have d: "rows_with (\<lambda>x y. fl64 (x - y)) [v] mn = Inr [map2 (\<lambda>x y. fl64 (x - y)) v mn]"
    using lv by (simp add: broadcast_same_length)
  have delta: "broadcast (\<lambda>x y. fl64 (x - y)) mx mn = Inr (map2 (\<lambda>x y. fl64 (x - y)) mx mn)"
    using lmx by (rule broadcast_same_length)
  have q: "rows_with f64_div [map (f64_mul (fl64 (b - a))) (map2 (\<lambda>x y. fl64 (x - y)) v mn)]
             (map2 (\<lambda>x y. fl64 (x - y)) mx mn)
           = Inr [map2 f64_div (map (f64_mul (fl64 (b - a))) (map2 (\<lambda>x y. fl64 (x - y)) v mn))
                    (map2 (\<lambda>x y. fl64 (x - y)) mx mn)]"
    using lv lmx by (simp add: broadcast_same_length)
  have fin: "map (\<lambda>x. f64_add x (fl64 a))
               (map2 f64_div (map (f64_mul (fl64 (b - a))) (map2 (\<lambda>x y. fl64 (x - y)) v mn))
                  (map2 (\<lambda>x y. fl64 (x - y)) mx mn))
             = map (\<lambda>i. f64_add (f64_div (f64_mul (fl64 (b - a)) (fl64 (v ! i - mn ! i)))
                                     (fl64 (mx ! i - mn ! i))) (fl64 a))
                   [0..<length mn]"
    using lv lmx by (intro nth_equalityI) simp_all
  show ?thesis
    unfolding normalize_f64_def
    by (simp only: sum.case d delta q list.map fin)
qed

lemma normalize_f64_row_tolerance:
  assumes lv: "length v = length mn" and lmx: "length mx = length mn"
    and ord: "\<forall>j < length mn. mn ! j \<le> v ! j \<and> v ! j \<le> mx ! j"
    and moderate: "\<forall>j < length mn. 1 / 2 ^ 100 \<le> mx ! j - mn ! j \<and> mx ! j - mn ! j \<le> 2 ^ 100 \<and>
                                     (v ! j = mn ! j \<or> 1 / 2 ^ 100 \<le> v ! j - mn ! j)"
    and blo: "1 / 2 ^ 100 \<le> bnd" and bhi: "bnd \<le> 2 ^ 100"
  shows "\<exists>w. normalize_f64 [v] mn mx (- bnd) bnd = Inr [w] \<and> length w = length mn \<and>
             (\<forall>j < length mn. \<exists>r. w ! j = Finite r \<and> \<bar>r\<bar> \<le> bnd * (1 + 1 / 2 ^ 49))"
proof -
  define w where "w = map (\<lambda>i. f64_add (f64_div (f64_mul (fl64 (bnd - - bnd)) (fl64 (v ! i - mn ! i)))
                                     (fl64 (mx ! i - mn ! i))) (fl64 (- bnd)))
                   [0..<length mn]"
  have run: "normalize_f64 [v] mn mx (- bnd) bnd = Inr [w]"
    unfolding w_def using lv lmx by (rule normalize_f64_row)
  have lw: "length w = length mn" unfolding w_def by simp
  have "\<exists>r. w ! j = Finite r \<and> \<bar>r\<bar> \<le> bnd * (1 + 1 / 2 ^ 49)" if j: "j < length mn" for j
  proof -
    have wj: "w ! j = f64_add (f64_div (f64_mul (fl64 (bnd - - bnd)) (fl64 (v ! j - mn ! j)))
                                     (fl64 (mx ! j - mn ! j))) (fl64 (- bnd))"
      unfolding w_def using j by (simp only: nth_map_upt diff_zero add_0 length_upt)
    from ord j have o: "mn ! j \<le> v ! j" "v ! j \<le> mx ! j" by blast+
    from moderate j have m: "1 / 2 ^ 100 \<le> mx ! j - mn ! j" "mx ! j - mn ! j \<le> 2 ^ 100"
      "v ! j = mn ! j \<or> 1 / 2 ^ 100 \<le> v ! j - mn ! j" by blast+
    show ?thesis unfolding wj using o m blo bhi by (rule line50_tolerance)
  qed
  with run lw show ?thesis by blast
qed

text \<open>
  Claim C4 says that the \<^verbatim>\<open>'normalize'\<close> entry of the returned dict holds the
  componentwise minimum and maximum of the stacked parameter vectors, and that
  every such vector is normalized into \<open>[-bound, bound]\<close>. The first part holds. The
  second holds of the formula of line 50 over the reals, for \<open>bound \<ge> 0\<close>, and not
  of the numbers that the program computes, which are rounded after every
  operation: with \<open>bound = 3\<close>, statistics \<open>0\<close> and \<open>0.1\<close> in the first coordinate and
  the vector that attains the maximum, the product \<open>6 * 0.1\<close> rounds up, the
  quotient by \<open>0.1\<close> rounds to the number after \<open>6\<close>, and the result is
  \<open>3 + 2^-50\<close>, which Python prints as \<^verbatim>\<open>3.000000000000001\<close>.
\<close>

theorem normalized_above_bound_in_binary64:
  "(\<exists>dp. load_deca_params example_glob tenth_read_params ''deca'' 3 = Inr dp \<and>
         dict_get dp ''normalize''
           = Inr [(''min_val'', Arr [0, 0, 0, 0]), (''max_val'', Arr [tenth, 1, 1, 1])]) \<and>
   all_params_loop (swap_key (read_params_loop example_glob tenth_read_params ''deca'' params_key []))
     (map fst (swap_key (read_params_loop example_glob tenth_read_params ''deca'' params_key [])))
     = Inr [[0, 0, 0, 0], [tenth, 1, 1, 1]] \<and>
   0 < tenth \<and> (0 :: real) < 1 \<and>
   normalize_f64 [[tenth, 1, 1, 1]] [0, 0, 0, 0] [tenth, 1, 1, 1] (- 3) 3
     = Inr [[Finite (3 + 1 / 2 ^ 50), Finite 3, Finite 3, Finite 3]] \<and>
   \<not> (3 + 1 / 2 ^ 50 \<le> (3 :: real))"
proof (intro conjI)
  show "\<exists>dp. load_deca_params example_glob tenth_read_params ''deca'' 3 = Inr dp \<and>
         dict_get dp ''normalize''
           = Inr [(''min_val'', Arr [0, 0, 0, 0]), (''max_val'', Arr [tenth, 1, 1, 1])]"
    unfolding tenth_load_deca_params by (simp add: dict_get_def)
  show "all_params_loop (swap_key (read_params_loop example_glob tenth_read_params ''deca'' params_key []))
     (map fst (swap_key (read_params_loop example_glob tenth_read_params ''deca'' params_key [])))
     = Inr [[0, 0, 0, 0], [tenth, 1, 1, 1]]"
    unfolding tenth_swapped
    by (simp add: params_key_def dict_get_default_def dict_get_def np_concatenate_def)
  show "0 < tenth" by (rule tenth_pos)
  show "(0 :: real) < 1" by simp
  show "normalize_f64 [[tenth, 1, 1, 1]] [0, 0, 0, 0] [tenth, 1, 1, 1] (- 3) 3
     = Inr [[Finite (3 + 1 / 2 ^ 50), Finite 3, Finite 3, Finite 3]]"
    by (rule tenth_normalize_f64)
  show "\<not> (3 + 1 / 2 ^ 50 \<le> (3 :: real))" by simp
qed

lemma example_png:
  "\<forall>p \<in> set (example_glob (''deca'' @ ''/uv_detail_normals/train/*.png'')).
     \<exists>stem. p = stem @ ''.png''"
  by (simp add: example_glob_def)

lemma example_all_params:
  "all_params_loop (swap_key (read_params_loop example_glob example_read_params ''deca'' params_key []))
     (map fst (swap_key (read_params_loop example_glob example_read_params ''deca'' params_key [])))
   = Inr [[0, 2, 0, 3, 7], [4, 1, 1, 5, 6]]"
  unfolding example_swapped
  by (simp add: params_key_def dict_get_default_def dict_get_def np_concatenate_def)

text \<open>
  Claim C4, amended: when \<^verbatim>\<open>load_deca_params\<close> returns, the \<^verbatim>\<open>'normalize'\<close> entry of
  the dict holds \<open>min_val\<close> and \<open>max_val\<close>, the componentwise minimum and maximum of
  the stacked vectors \<open>all_params\<close> (one concatenated shape, pose, exp, cam vector
  per image, at least one). For every such vector, when \<open>min_val < max_val\<close> in
  every coordinate, the formula of \<^verbatim>\<open>normalize\<close> with \<open>a = -bound\<close>, \<open>b = bound\<close>,
  evaluated in exact real arithmetic, gives a vector whose coordinates have absolute
  value at most \<open>|bound|\<close>, hence lie in \<open>[-bound, bound]\<close> when \<open>bound \<ge> 0\<close>. The
  vector that line 50 computes in binary64 has finite coordinates of absolute value
  at most \<open>bound * (1 + 2^-49)\<close>, when \<open>bound\<close>, every \<open>max_val - min_val\<close> and every
  nonzero \<open>v - min_val\<close> lie between \<open>2^-100\<close> and \<open>2^100\<close>. The paths that \<^verbatim>\<open>glob\<close>
  returns for the pattern ending in \<^verbatim>\<open>*.png\<close> end in \<^verbatim>\<open>.png\<close>.
\<close>

theorem load_deca_params_statistics:
  assumes ret: "load_deca_params glob read_params deca_dir bnd = Inr dp"
    and png: "\<forall>p \<in> set (glob (deca_dir @ ''/uv_detail_normals/train/*.png'')).
                \<exists>stem. p = stem @ ''.png''"
  shows "\<exists>all_params mn mx.
           all_params_loop (swap_key (read_params_loop glob read_params deca_dir params_key []))
             (map fst (swap_key (read_params_loop glob read_params deca_dir params_key [])))
             = Inr all_params \<and>
           all_params \<noteq> [] \<and>
           dict_get dp ''normalize'' = Inr [(''min_val'', Arr mn), (''max_val'', Arr mx)] \<and>
           length mx = length mn \<and>
           (\<forall>v \<in> set all_params. length v = length mn) \<and>
           (\<forall>j < length mn. mn ! j = Min ((\<lambda>v. v ! j) ` set all_params) \<and>
                             mx ! j = Max ((\<lambda>v. v ! j) ` set all_params)) \<and>
           (\<forall>v \<in> set all_params.
              (\<forall>j < length mn. mn ! j < mx ! j) \<longrightarrow>
              (\<exists>w. normalize [v] (Some mn) (Some mx) (- bnd) bnd = Inr ([w], mn, mx) \<and>
                   length w = length mn \<and>
                   (\<forall>j < length mn. \<bar>w ! j\<bar> \<le> \<bar>bnd\<bar> \<and>
                                     (0 \<le> bnd \<longrightarrow> - bnd \<le> w ! j \<and> w ! j \<le> bnd)))) \<and>
           (\<forall>v \<in> set all_params.
              1 / 2 ^ 100 \<le> bnd \<and> bnd \<le> 2 ^ 100 \<and>
              (\<forall>j < length mn. 1 / 2 ^ 100 \<le> mx ! j - mn ! j \<and> mx ! j - mn ! j \<le> 2 ^ 100 \<and>
                                (v ! j = mn ! j \<or> 1 / 2 ^ 100 \<le> v ! j - mn ! j)) \<longrightarrow>
              (\<exists>w. normalize_f64 [v] mn mx (- bnd) bnd = Inr [w] \<and>
                   length w = length mn \<and>
                   (\<forall>j < length mn. \<exists>r. w ! j = Finite r \<and> \<bar>r\<bar> \<le> bnd * (1 + 1 / 2 ^ 49))))"
proof (rule load_deca_params_facts [OF ret png])
  fix all_params mn mx
  assume ap: "all_params_loop (swap_key (read_params_loop glob read_params deca_dir params_key []))
       (map fst (swap_key (read_params_loop glob read_params deca_dir params_key [])))
       = Inr all_params"
    and ne: "all_params \<noteq> []"
    and stats: "dict_get dp ''normalize'' = Inr [(''min_val'', Arr mn), (''max_val'', Arr mx)]"
    and lmx: "length mx = length mn"
    and len: "\<forall>v \<in> set all_params. length v = length mn"
    and mn: "\<forall>j < length mn. mn ! j = Min ((\<lambda>v. v ! j) ` set all_params)"
    and mx: "\<forall>j < length mn. mx ! j = Max ((\<lambda>v. v ! j) ` set all_params)"
    and exact: "\<forall>v \<in> set all_params.
           (\<forall>j < length mn. mn ! j < mx ! j) \<longrightarrow>
           (\<exists>w. normalize [v] (Some mn) (Some mx) (- bnd) bnd = Inr ([w], mn, mx) \<and>
                length w = length mn \<and>
                (\<forall>j < length mn. \<bar>w ! j\<bar> \<le> \<bar>bnd\<bar> \<and>
                                  (0 \<le> bnd \<longrightarrow> - bnd \<le> w ! j \<and> w ! j \<le> bnd)))"
  have rounded: "\<forall>v \<in> set all_params.
              1 / 2 ^ 100 \<le> bnd \<and> bnd \<le> 2 ^ 100 \<and>
              (\<forall>j < length mn. 1 / 2 ^ 100 \<le> mx ! j - mn ! j \<and> mx ! j - mn ! j \<le> 2 ^ 100 \<and>
                                (v ! j = mn ! j \<or> 1 / 2 ^ 100 \<le> v ! j - mn ! j)) \<longrightarrow>
              (\<exists>w. normalize_f64 [v] mn mx (- bnd) bnd = Inr [w] \<and>
                   length w = length mn \<and>
                   (\<forall>j < length mn. \<exists>r. w ! j = Finite r \<and> \<bar>r\<bar> \<le> bnd * (1 + 1 / 2 ^ 49)))"
  proof (intro ballI impI)
    fix v
    assume v: "v \<in> set all_params"
      and hyp: "1 / 2 ^ 100 \<le> bnd \<and> bnd \<le> 2 ^ 100 \<and>
              (\<forall>j < length mn. 1 / 2 ^ 100 \<le> mx ! j - mn ! j \<and> mx ! j - mn ! j \<le> 2 ^ 100 \<and>
                                (v ! j = mn ! j \<or> 1 / 2 ^ 100 \<le> v ! j - mn ! j))"
    from hyp have blo: "1 / 2 ^ 100 \<le> bnd" and bhi: "bnd \<le> 2 ^ 100"
      and moderate: "\<forall>j < length mn. 1 / 2 ^ 100 \<le> mx ! j - mn ! j \<and> mx ! j - mn ! j \<le> 2 ^ 100 \<and>
                                (v ! j = mn ! j \<or> 1 / 2 ^ 100 \<le> v ! j - mn ! j)"
      by blast+
    have lv: "length v = length mn" using len v by (rule bspec)
    have ord: "\<forall>j < length mn. mn ! j \<le> v ! j \<and> v ! j \<le> mx ! j"
    proof (intro allI impI conjI)
      fix j assume j: "j < length mn"
      have fin: "finite ((\<lambda>v. v ! j) ` set all_params)" by simp
      have mem: "v ! j \<in> (\<lambda>v. v ! j) ` set all_params" using v by (rule imageI)
      show "mn ! j \<le> v ! j" using mn j Min_le [OF fin mem] by simp
      show "v ! j \<le> mx ! j" using mx j Max_ge [OF fin mem] by simp
    qed
    show "\<exists>w. normalize_f64 [v] mn mx (- bnd) bnd = Inr [w] \<and>
                   length w = length mn \<and>
                   (\<forall>j < length mn. \<exists>r. w ! j = Finite r \<and> \<bar>r\<bar> \<le> bnd * (1 + 1 / 2 ^ 49))"
      using lv lmx ord moderate blo bhi by (rule normalize_f64_row_tolerance)
  qed
  have mm: "\<forall>j < length mn. mn ! j = Min ((\<lambda>v. v ! j) ` set all_params) \<and>
                             mx ! j = Max ((\<lambda>v. v ! j) ` set all_params)"
    using mn mx by blast
  from ap ne stats lmx len mm exact rounded show ?thesis
    by (intro exI [of _ all_params] exI [of _ mn] exI [of _ mx] conjI)
qed

theorem load_deca_params_statistics_witness:
  "\<exists>all_params.
     all_params = [[0, 2, 0, 3, 7], [4, 1, 1, 5, 6]] \<and>
     (\<forall>v \<in> set all_params. length v = 5) \<and>
     (\<forall>j < 5. [0, 1, 0, 3, 6] ! j = Min ((\<lambda>v. v ! j) ` set all_params) \<and>
               [4, 2, 1, 5, 7] ! j = Max ((\<lambda>v. v ! j) ` set all_params)) \<and>
     (\<forall>v \<in> set all_params.
        \<exists>w. normalize [v] (Some [0, 1, 0, 3, 6]) (Some [4, 2, 1, 5, 7]) (- 1) 1
               = Inr ([w], [0, 1, 0, 3, 6], [4, 2, 1, 5, 7]) \<and>
            (\<forall>j < 5. - 1 \<le> w ! j \<and> w ! j \<le> 1)) \<and>
     (\<forall>v \<in> set all_params.
        \<exists>w. normalize_f64 [v] [0, 1, 0, 3, 6] [4, 2, 1, 5, 7] (- 1) 1 = Inr [w] \<and>
            (\<forall>j < 5. \<exists>r. w ! j = Finite r \<and> \<bar>r\<bar> \<le> 1 + 1 / 2 ^ 49))"
proof -
  from load_deca_params_statistics [OF example_load_deca_params [of 1] example_png]
  obtain all_params mn mx where
    ap: "all_params_loop
           (swap_key (read_params_loop example_glob example_read_params ''deca'' params_key []))
           (map fst (swap_key (read_params_loop example_glob example_read_params ''deca''
                                 params_key [])))
         = Inr all_params"
    and stats: "dict_get example_deca_params ''normalize''
                  = Inr [(''min_val'', Arr mn), (''max_val'', Arr mx)]"
    and len: "\<forall>v \<in> set all_params. length v = length mn"
    and mm: "\<forall>j < length mn. mn ! j = Min ((\<lambda>v. v ! j) ` set all_params) \<and>
                             mx ! j = Max ((\<lambda>v. v ! j) ` set all_params)"
    and rng: "\<forall>v \<in> set all_params.
              (\<forall>j < length mn. mn ! j < mx ! j) \<longrightarrow>
              (\<exists>w. normalize [v] (Some mn) (Some mx) (- 1) 1 = Inr ([w], mn, mx) \<and>
                   length w = length mn \<and>
                   (\<forall>j < length mn. \<bar>w ! j\<bar> \<le> \<bar>1\<bar> \<and>
                                     ((0 :: real) \<le> 1 \<longrightarrow> - 1 \<le> w ! j \<and> w ! j \<le> 1)))"
    and rnd: "\<forall>v \<in> set all_params.
              1 / 2 ^ 100 \<le> (1 :: real) \<and> (1 :: real) \<le> 2 ^ 100 \<and>
              (\<forall>j < length mn. 1 / 2 ^ 100 \<le> mx ! j - mn ! j \<and> mx ! j - mn ! j \<le> 2 ^ 100 \<and>
                                (v ! j = mn ! j \<or> 1 / 2 ^ 100 \<le> v ! j - mn ! j)) \<longrightarrow>
              (\<exists>w. normalize_f64 [v] mn mx (- 1) 1 = Inr [w] \<and>
                   length w = length mn \<and>
                   (\<forall>j < length mn. \<exists>r. w ! j = Finite r \<and> \<bar>r\<bar> \<le> 1 * (1 + 1 / 2 ^ 49)))"
    by blast
  from ap have all: "all_params = [[0, 2, 0, 3, 7], [4, 1, 1, 5, 6]]"
    unfolding example_all_params by simp
  from stats have mn: "mn = [0, 1, 0, 3, 6]" and mx: "mx = [4, 2, 1, 5, 7]"
    by (simp_all add: dict_get_def example_deca_params_def)
  have l: "length mn = 5" unfolding mn by simp
  have lt: "\<forall>j < length mn. mn ! j < mx ! j"
    unfolding mn mx by (simp add: All_less_Suc)
  have A: "\<forall>v \<in> set all_params. length v = 5" using len unfolding l .
  have B: "\<forall>j < 5. mn ! j = Min ((\<lambda>v. v ! j) ` set all_params) \<and>
                    mx ! j = Max ((\<lambda>v. v ! j) ` set all_params)"
    using mm unfolding l .
  have "\<forall>v \<in> set all_params.
        \<exists>w. normalize [v] (Some mn) (Some mx) (- 1) 1 = Inr ([w], mn, mx) \<and>
            (\<forall>j < length mn. - 1 \<le> w ! j \<and> w ! j \<le> 1)"
    using rng lt by fastforce
  then have C: "\<forall>v \<in> set all_params.
        \<exists>w. normalize [v] (Some mn) (Some mx) (- 1) 1 = Inr ([w], mn, mx) \<and>
            (\<forall>j < 5. - 1 \<le> w ! j \<and> w ! j \<le> 1)"
    unfolding l .
  have side: "1 / 2 ^ 100 \<le> (1 :: real) \<and> (1 :: real) \<le> 2 ^ 100 \<and>
              (\<forall>j < length mn. 1 / 2 ^ 100 \<le> mx ! j - mn ! j \<and> mx ! j - mn ! j \<le> 2 ^ 100 \<and>
                                (v ! j = mn ! j \<or> 1 / 2 ^ 100 \<le> v ! j - mn ! j))"
    if "v \<in> set all_params" for v
    using that unfolding all mn mx by (auto simp: All_less_Suc)
  have "\<forall>v \<in> set all_params.
        \<exists>w. normalize_f64 [v] mn mx (- 1) 1 = Inr [w] \<and> length w = length mn \<and>
            (\<forall>j < length mn. \<exists>r. w ! j = Finite r \<and> \<bar>r\<bar> \<le> 1 * (1 + 1 / 2 ^ 49))"
    using rnd side by blast
  then have D: "\<forall>v \<in> set all_params.
        \<exists>w. normalize_f64 [v] mn mx (- 1) 1 = Inr [w] \<and>
            (\<forall>j < 5. \<exists>r. w ! j = Finite r \<and> \<bar>r\<bar> \<le> 1 + 1 / 2 ^ 49)"
    unfolding l by (simp only: mult_1) blast
  from all A B C D show ?thesis unfolding mn mx by blast
qed

subsection \<open>The conditioning vector\<close>

lemma item_params_loop_eq:
  "item_params_loop d img_name ks =
     (if ks = [] then Inr []
      else case dict_get d img_name of Inl err \<Rightarrow> Inl err | Inr e \<Rightarrow> each_img_loop e ks)"
proof (induction ks)
  case Nil
  then show ?case by simp
next
  case (Cons k ks)
  then show ?case by (cases ks) (auto split: sum.splits)
qed

lemma each_img_loop_params_key:
  assumes "each_img_loop e params_key = Inr vs"
  shows "\<exists>v1 v2 v3 v4. vs = [v1, v2, v3, v4] \<and>
           dict_get e ''shape'' = Inr v1 \<and> dict_get e ''pose'' = Inr v2 \<and>
           dict_get e ''exp'' = Inr v3 \<and> dict_get e ''cam'' = Inr v4"
  using assms unfolding params_key_def by (auto split: sum.splits)

lemma np_concatenate_four:
  assumes "np_concatenate [v1, v2, v3, v4] = Inr p"
  shows "\<exists>sh po ex ca. v1 = Arr sh \<and> v2 = Arr po \<and> v3 = Arr ex \<and> v4 = Arr ca \<and>
           p = sh @ po @ ex @ ca"
  using assms
  by (cases v1; cases v2; cases v3; cases v4) (auto simp: np_concatenate_def)

lemma normalize_stored_Inr:
  assumes "normalize_stored arr vmin vmax a b = Inr res"
  shows "\<exists>mn mx. vmin = Arr mn \<and> vmax = Arr mx \<and>
                 normalize arr (Some mn) (Some mx) a b = Inr res"
  using assms by (auto simp: normalize_stored_def split: pval.splits sum.splits)

lemma normalize_single_row:
  assumes "normalize [p] (Some mn) (Some mx) a b = Inr (rows, mn', mx')"
  shows "\<exists>w. rows = [w] \<and> mn' = mn \<and> mx' = mx"
  using assms by (auto simp: normalize_def split: sum.splits)

lemma list_index_single: "list_index [w] 0 = Inr w"
  by (simp add: list_index_def)

lemma item_deca_params_Inr:
  assumes "item_deca_params self img_name = Inr cond"
  shows "\<exists>e sh po ex ca stats mn mx.
           dict_get (deca_params self) img_name = Inr e \<and>
           dict_get e ''shape'' = Inr (Arr sh) \<and> dict_get e ''pose'' = Inr (Arr po) \<and>
           dict_get e ''exp'' = Inr (Arr ex) \<and> dict_get e ''cam'' = Inr (Arr ca) \<and>
           dict_get (deca_params self) ''normalize'' = Inr stats \<and>
           dict_get stats ''min_val'' = Inr (Arr mn) \<and>
           dict_get stats ''max_val'' = Inr (Arr mx) \<and>
           normalize [sh @ po @ ex @ ca] (Some mn) (Some mx) (- bound self) (bound self)
             = Inr ([cond], mn, mx)"
proof -
  from assms obtain vs params stats vmin vmax rows mn' mx' where
    vs: "item_params_loop (deca_params self) img_name params_key = Inr vs"
    and cat: "np_concatenate vs = Inr params"
    and stats: "dict_get (deca_params self) ''normalize'' = Inr stats"
    and gmn': "dict_get stats ''min_val'' = Inr vmin"
    and gmx': "dict_get stats ''max_val'' = Inr vmax"
    and ns: "normalize_stored [params] vmin vmax (- bound self) (bound self)
               = Inr (rows, mn', mx')"
    and idx: "list_index rows 0 = Inr cond"
    by (auto simp: item_deca_params_def split: sum.splits prod.splits)
  from normalize_stored_Inr [OF ns] obtain mn mx where
    vmin: "vmin = Arr mn" and vmax: "vmax = Arr mx"
    and nm: "normalize [params] (Some mn) (Some mx) (- bound self) (bound self)
               = Inr (rows, mn', mx')"
    by blast
  note gmn = gmn' [unfolded vmin] and gmx = gmx' [unfolded vmax]
  from vs obtain e where e: "dict_get (deca_params self) img_name = Inr e"
    and each: "each_img_loop e params_key = Inr vs"
    by (auto simp: item_params_loop_eq params_key_def split: sum.splits)
  from each_img_loop_params_key [OF each] obtain v1 v2 v3 v4 where
    vs4: "vs = [v1, v2, v3, v4]"
    and k: "dict_get e ''shape'' = Inr v1" "dict_get e ''pose'' = Inr v2"
           "dict_get e ''exp'' = Inr v3" "dict_get e ''cam'' = Inr v4"
    by blast
  from np_concatenate_four [OF cat [unfolded vs4]] obtain sh po ex ca where
    arrs: "v1 = Arr sh" "v2 = Arr po" "v3 = Arr ex" "v4 = Arr ca"
    and params: "params = sh @ po @ ex @ ca"
    by blast
  from normalize_single_row [OF nm] obtain w where
    rows: "rows = [w]" and same: "mn' = mn" "mx' = mx" by blast
  from idx have w: "w = cond" unfolding rows list_index_single by simp
  show ?thesis
    using e k arrs stats gmn gmx
      nm [unfolded params rows same w]
    by blast
qed

lemma getitem_Inr_item:
  assumes "getitem rt self idx rng = Inr ((cond, img), rng')"
  shows "\<exists>path. list_index (local_images self) idx = Inr path \<and>
                item_deca_params self (last_piece CHR ''/'' path) = Inr cond"
proof -
  from assms obtain raw_img uvdn where
    "getitem_loaded rt self idx rng = Inr ((raw_img, cond, uvdn), rng')"
    by (auto simp: getitem_def split: sum.splits prod.splits if_splits)
  then show ?thesis
    by (auto simp: getitem_loaded_def split: sum.splits prod.splits)
qed

lemma each_img_loop_cong:
  "\<forall>k \<in> set ks. map_of e k = map_of e' k \<Longrightarrow> each_img_loop e ks = each_img_loop e' ks"
  by (induction ks) (simp_all add: dict_get_def cong: sum.case_cong option.case_cong)

lemma loaded_vector_length:
  assumes ret: "load_deca_params glob read_params deca_dir bnd = Inr dp"
    and png: "\<forall>p \<in> set (glob (deca_dir @ ''/uv_detail_normals/train/*.png'')).
                \<exists>stem. p = stem @ ''.png''"
    and e: "dict_get dp img_name = Inr e"
    and sh: "dict_get e ''shape'' = Inr (Arr sh)" and po: "dict_get e ''pose'' = Inr (Arr po)"
    and ex: "dict_get e ''exp'' = Inr (Arr ex)" and ca: "dict_get e ''cam'' = Inr (Arr ca)"
    and stats: "dict_get dp ''normalize'' = Inr stats"
    and smn: "dict_get stats ''min_val'' = Inr (Arr mn)"
    and smx: "dict_get stats ''max_val'' = Inr (Arr mx)"
  shows "length mn = length (sh @ po @ ex @ ca) \<and> length mx = length mn"
proof (rule load_deca_params_facts [OF ret png])
  fix all_params mn0 mx0
  define swapped where "swapped = swap_key (read_params_loop glob read_params deca_dir params_key [])"
  assume ap: "all_params_loop (swap_key (read_params_loop glob read_params deca_dir params_key []))
       (map fst (swap_key (read_params_loop glob read_params deca_dir params_key [])))
       = Inr all_params"
    and dp: "dp = uv_detail_normals_loop (glob (deca_dir @ ''/uv_detail_normals/train/*.png''))
                (dict_set ''normalize'' [(''min_val'', Arr mn0), (''max_val'', Arr mx0)]
                   (swap_key (read_params_loop glob read_params deca_dir params_key [])))"
    and stats0: "dict_get dp ''normalize'' = Inr [(''min_val'', Arr mn0), (''max_val'', Arr mx0)]"
    and lmx: "length mx0 = length mn0"
    and len: "\<forall>v \<in> set all_params. length v = length mn0"
  have st: "stats = [(''min_val'', Arr mn0), (''max_val'', Arr mx0)]"
    using stats stats0 by simp
  have mn: "mn = mn0" and mx: "mx = mx0"
    using smn smx unfolding st by (simp_all add: dict_get_def)
  have not_stats: "img_name \<noteq> ''normalize''"
  proof
    assume "img_name = ''normalize''"
    then have "e = [(''min_val'', Arr mn0), (''max_val'', Arr mx0)]" using e stats0 by simp
    then show False using sh by (simp add: dict_get_def)
  qed
  define e0 where "e0 = dict_get_default swapped img_name"
  have me: "map_of dp img_name = Some e"
    using e by (simp add: dict_get_def split: option.splits)
  have same: "map_of e k = map_of e0 k" if "k \<noteq> ''uv_detail_normals''" for k
  proof -
    have "map_of e k = map_of (dict_get_default
             (dict_set ''normalize'' [(''min_val'', Arr mn0), (''max_val'', Arr mx0)] swapped)
             img_name) k"
      using me that unfolding dp swapped_def by (rule uv_loop_entry)
    then show ?thesis
      using not_stats by (simp add: dict_get_default_dict_set e0_def)
  qed
  have keys: "\<forall>k \<in> set params_key. map_of e0 k = map_of e k"
    using same by (simp add: params_key_def)
  have each: "each_img_loop e0 params_key = Inr [Arr sh, Arr po, Arr ex, Arr ca]"
    unfolding each_img_loop_cong [OF keys]
    using sh po ex ca by (simp add: params_key_def)
  have "map_of e0 ''shape'' = Some (Arr sh)"
    using same [of "''shape''"] sh by (simp add: dict_get_def split: option.splits)
  then have "map_of swapped img_name \<noteq> None"
    unfolding e0_def dict_get_default_def by (auto split: option.splits)
  then have "img_name \<in> set (map fst swapped)"
    by (simp add: map_of_eq_None_iff)
  from all_params_loop_member [OF ap [folded swapped_def] this] obtain ws p where
    ws: "each_img_loop (dict_get_default swapped img_name) params_key = Inr ws"
    and p: "np_concatenate ws = Inr p" and mem: "p \<in> set all_params"
    by blast
  from ws each have "ws = [Arr sh, Arr po, Arr ex, Arr ca]" unfolding e0_def by simp
  with p have "p = sh @ po @ ex @ ca" by (simp add: np_concatenate_def)
  with mem len have "length (sh @ po @ ex @ ca) = length mn0" by blast
  then show ?thesis using lmx unfolding mn mx by simp
qed

lemma normalize_single_row_length:
  assumes "normalize [p] (Some mn) (Some mx) a b = Inr ([w], mn, mx)"
    and "length mn = length p" and "length mx = length mn"
  shows "length w = length p"
proof -
  have rows: "\<forall>r \<in> set [p]. length r = length mn" using assms(2) by simp
  from normalize_rows [OF rows assms(3), of a b] assms(1)
  have "[w] = map (\<lambda>r. map (\<lambda>i. (b - a) * (r ! i - mn ! i) / (mx ! i - mn ! i) + a)
                            [0..<length mn]) [p]" by simp
  then show ?thesis using assms(2) by simp
qed

text \<open>
  Claim C6: the conditioning vector that \<^verbatim>\<open>__getitem__\<close> returns is the row that
  \<^verbatim>\<open>normalize\<close> computes, with the \<open>min_val\<close> and \<open>max_val\<close> stored under
  \<^verbatim>\<open>'normalize'\<close> and with \<open>a = -bound\<close>, \<open>b = bound\<close>, from the concatenation of the
  image's shape, pose, exp and cam arrays, in that order. When the dict of the
  dataset is the one that \<^verbatim>\<open>load_deca_params\<close> returned (as in \<^verbatim>\<open>load_data_deca\<close>),
  the vector has as many entries as the four arrays together: the statistics then
  have one entry per coordinate, so numpy's broadcasting changes no length.
\<close>

theorem getitem_conditioning_vector:
  assumes "getitem rt self idx rng = Inr ((cond, img), rng')"
  shows "\<exists>path e sh po ex ca stats mn mx.
           list_index (local_images self) idx = Inr path \<and>
           dict_get (deca_params self) (last_piece CHR ''/'' path) = Inr e \<and>
           dict_get e ''shape'' = Inr (Arr sh) \<and> dict_get e ''pose'' = Inr (Arr po) \<and>
           dict_get e ''exp'' = Inr (Arr ex) \<and> dict_get e ''cam'' = Inr (Arr ca) \<and>
           dict_get (deca_params self) ''normalize'' = Inr stats \<and>
           dict_get stats ''min_val'' = Inr (Arr mn) \<and>
           dict_get stats ''max_val'' = Inr (Arr mx) \<and>
           normalize [sh @ po @ ex @ ca] (Some mn) (Some mx) (- bound self) (bound self)
             = Inr ([cond], mn, mx) \<and>
           (\<forall>glob read_params deca_dir bnd.
              load_deca_params glob read_params deca_dir bnd = Inr (deca_params self) \<and>
              (\<forall>p \<in> set (glob (deca_dir @ ''/uv_detail_normals/train/*.png'')).
                 \<exists>stem. p = stem @ ''.png'')
              \<longrightarrow> length cond = length sh + length po + length ex + length ca)"
proof -
  from getitem_Inr_item [OF assms] obtain path where
    path: "list_index (local_images self) idx = Inr path"
    and item: "item_deca_params self (last_piece CHR ''/'' path) = Inr cond"
    by blast
  from item_deca_params_Inr [OF item] obtain e sh po ex ca stats mn mx where
    e: "dict_get (deca_params self) (last_piece CHR ''/'' path) = Inr e"
    and sh: "dict_get e ''shape'' = Inr (Arr sh)" and po: "dict_get e ''pose'' = Inr (Arr po)"
    and ex: "dict_get e ''exp'' = Inr (Arr ex)" and ca: "dict_get e ''cam'' = Inr (Arr ca)"
    and stats: "dict_get (deca_params self) ''normalize'' = Inr stats"
    and smn: "dict_get stats ''min_val'' = Inr (Arr mn)"
    and smx: "dict_get stats ''max_val'' = Inr (Arr mx)"
    and nm: "normalize [sh @ po @ ex @ ca] (Some mn) (Some mx) (- bound self) (bound self)
               = Inr ([cond], mn, mx)"
    by blast
  have dim: "length cond = length sh + length po + length ex + length ca"
    if ret: "load_deca_params glob read_params deca_dir bnd = Inr (deca_params self)"
      and png: "\<forall>p \<in> set (glob (deca_dir @ ''/uv_detail_normals/train/*.png'')).
                 \<exists>stem. p = stem @ ''.png''"
    for glob read_params deca_dir bnd
  proof -
    from loaded_vector_length [OF ret png e sh po ex ca stats smn smx]
    have "length mn = length (sh @ po @ ex @ ca)" and "length mx = length mn" by blast+
    from normalize_single_row_length [OF nm this] show ?thesis by simp
  qed
  show ?thesis
    apply (rule exI [of _ path], rule exI [of _ e], rule exI [of _ sh], rule exI [of _ po])
    apply (rule exI [of _ ex], rule exI [of _ ca], rule exI [of _ stats])
    apply (rule exI [of _ mn], rule exI [of _ mx])
    using path e sh po ex ca stats smn smx nm dim
    apply (intro conjI allI impI)
    apply (assumption | blast)+
    done
qed

theorem getitem_conditioning_vector_witness:
  "\<exists>img. getitem example_runtime example_dataset 0 0 = Inr (([- 1, 1, - 1, - 1, 1], img), 0) \<and>
     normalize [[0, 2] @ [0] @ [3] @ [7]] (Some [0, 1, 0, 3, 6]) (Some [4, 2, 1, 5, 7])
         (- bound example_dataset) (bound example_dataset)
       = Inr ([[- 1, 1, - 1, - 1, 1]], [0, 1, 0, 3, 6], [4, 2, 1, 5, 7]) \<and>
     length [- 1, 1, - 1, - 1, 1 :: real]
       = length [0, 2 :: real] + length [0 :: real] + length [3 :: real] + length [7 :: real]"
proof -
  from example_getitem obtain img where
    run: "getitem example_runtime example_dataset 0 0 = Inr (([- 1, 1, - 1, - 1, 1], img), 0)"
    by blast
  have dp: "deca_params example_dataset = example_deca_params"
    by (simp add: example_dataset_def)
  from getitem_conditioning_vector [OF run] obtain path e sh po ex ca stats mn mx where
    path: "list_index (local_images example_dataset) 0 = Inr path"
    and e: "dict_get (deca_params example_dataset) (last_piece CHR ''/'' path) = Inr e"
    and sh: "dict_get e ''shape'' = Inr (Arr sh)" and po: "dict_get e ''pose'' = Inr (Arr po)"
    and ex: "dict_get e ''exp'' = Inr (Arr ex)" and ca: "dict_get e ''cam'' = Inr (Arr ca)"
    and stats: "dict_get (deca_params example_dataset) ''normalize'' = Inr stats"
    and smn: "dict_get stats ''min_val'' = Inr (Arr mn)"
    and smx: "dict_get stats ''max_val'' = Inr (Arr mx)"
    and nm: "normalize [sh @ po @ ex @ ca] (Some mn) (Some mx)
               (- bound example_dataset) (bound example_dataset)
             = Inr ([[- 1, 1, - 1, - 1, 1]], mn, mx)"
    and dim: "\<forall>glob read_params deca_dir bnd.
              load_deca_params glob read_params deca_dir bnd = Inr (deca_params example_dataset) \<and>
              (\<forall>p \<in> set (glob (deca_dir @ ''/uv_detail_normals/train/*.png'')).
                 \<exists>stem. p = stem @ ''.png'')
              \<longrightarrow> length [- 1, 1, - 1, - 1, 1 :: real]
                    = length sh + length po + length ex + length ca"
    by blast
  from path have p: "path = ''data/0.jpg''"
    by (simp add: example_fields list_index_def)
  from e have e': "e = [(''shape'', Arr [0, 2]), (''pose'', Arr [0]), (''exp'', Arr [3]),
                   (''cam'', Arr [7]),
                   (''uv_detail_normals'', Path ''deca/uv_detail_normals/train/uvdn_0.png'')]"
    unfolding p example_img_name dp by (simp add: example_deca_params_def dict_get_def)
  from sh po ex ca have v: "sh = [0, 2]" "po = [0]" "ex = [3]" "ca = [7]"
    unfolding e' by (simp_all add: dict_get_def)
  from stats have s: "stats = [(''min_val'', Arr [0, 1, 0, 3, 6]), (''max_val'', Arr [4, 2, 1, 5, 7])]"
    unfolding dp by (simp add: example_deca_params_def dict_get_def)
  from smn smx have m: "mn = [0, 1, 0, 3, 6]" "mx = [4, 2, 1, 5, 7]"
    unfolding s by (simp_all add: dict_get_def)
  have "load_deca_params example_glob example_read_params ''deca'' 1
          = Inr (deca_params example_dataset)"
    unfolding dp by (rule example_load_deca_params)
  with dim example_png
  have "length [- 1, 1, - 1, - 1, 1 :: real] = length sh + length po + length ex + length ca"
    by blast
  with run nm show ?thesis unfolding v m by blast
qed

end
